theory Spec2Isabelle
  imports Complex_Main
begin

section \<open>Values and instructions of the Flitter virtual machine\<close>

text \<open>
  The language engine works on \<^emph>\<open>vectors\<close>: a vector is either a packed array of doubles
  (\<open>objects is None\<close> in the source) or a list of boxed objects.  A double is modelled by the
  real number it denotes; no property below depends on floating-point arithmetic.  Nodes,
  user functions and host callables are mutable Python objects and are modelled by their
  address in a store.

  An instruction is tagged by its opcode and carries the payload of its \<open>Instruction\<close>
  subclass; a jump carries its label and its resolved offset, \<open>Next\<close> its label, offset and
  count.
\<close>

datatype query = Query (qkind: "string option") (qtags: "string list")
  (strict: bool) (stop: bool) (first: bool)
  (subquery: "query option") (altquery: "query option")

datatype (plugins only: code size) obj =
    OFloat real
  | OStr string
  | ONode nat
  | OFunction nat
  | OHost nat
  | OProgram program
and vector =
    Numeric "real list"
  | Objects "obj list"
and instr =
    Op_Add
  | Op_Append int
  | Op_AppendRoot
  | Op_Attribute string
  | Op_BeginFor
  | Op_BranchFalse int int
  | Op_BranchTrue int int
  | Op_Call int "string list option"
  | Op_CallFast obj int
  | Op_ClearNodeScope
  | Op_Compose int
  | Op_Drop int
  | Op_Dup
  | Op_EndFor
  | Op_EndForCompose
  | Op_Eq
  | Op_FloorDiv
  | Op_Func string "string list"
  | Op_Ge
  | Op_Gt
  | Op_Import "string list"
  | Op_IndexLiteral int
  | Op_Jump int int
  | Op_Label int
  | Op_Le
  | Op_Literal vector
  | Op_LiteralNode nat
  | Op_LiteralNodes vector
  | Op_LocalDrop int
  | Op_LocalLoad int
  | Op_LocalPush int
  | Op_Lookup
  | Op_LookupLiteral vector
  | Op_Lt
  | Op_Mod
  | Op_Mul
  | Op_MulAdd
  | Op_Name string
  | Op_Ne
  | Op_Neg
  | Op_Next int int int
  | Op_Not
  | Op_Pos
  | Op_Pow
  | Op_Pragma string
  | Op_Prepend
  | Op_PushNext int int
  | Op_Range
  | Op_Search query
  | Op_SetNodeScope
  | Op_Slice
  | Op_SliceLiteral vector
  | Op_StoreGlobal string
  | Op_Sub
  | Op_Tag string
  | Op_TrueDiv
  | Op_Xor
and program =
    Program (instructions: "instr list") (linked: bool) (path: "string option")

datatype exc =
    AssertionError string
  | TypeError string
  | ValueError string
  | KeyError string

text \<open>\<open>Vector.length\<close>: the number of elements, for either representation.\<close>

fun vlength :: "vector \<Rightarrow> nat" where
  "vlength (Numeric ns) = length ns"
| "vlength (Objects os) = length os"

text \<open>The canonical empty vector \<open>null_\<close>: length 0, no object list.\<close>

definition null_vector :: vector where
  "null_vector = Numeric []"

section \<open>The peephole optimiser\<close>

text \<open>
  The tests \<open>instruction.code == OpCode.Compose\<close> and so on, and the payload reads
  \<open>(<InstructionInt>instruction).value\<close> and \<open>(<InstructionVector>instruction).value\<close>.
\<close>

definition is_Compose :: "instr \<Rightarrow> bool" where
  "is_Compose i = (case i of Op_Compose n \<Rightarrow> True | _ \<Rightarrow> False)"

definition is_Append :: "instr \<Rightarrow> bool" where
  "is_Append i = (case i of Op_Append n \<Rightarrow> True | _ \<Rightarrow> False)"

definition is_Literal :: "instr \<Rightarrow> bool" where
  "is_Literal i = (case i of Op_Literal v \<Rightarrow> True | _ \<Rightarrow> False)"

definition ivalue :: "instr \<Rightarrow> int" where
  "ivalue i = (case i of Op_Append n \<Rightarrow> n | Op_Compose n \<Rightarrow> n | Op_Drop n \<Rightarrow> n
     | Op_IndexLiteral n \<Rightarrow> n | Op_LocalDrop n \<Rightarrow> n | Op_LocalLoad n \<Rightarrow> n
     | Op_LocalPush n \<Rightarrow> n | _ \<Rightarrow> 0)"

definition vvalue :: "instr \<Rightarrow> vector" where
  "vvalue i = (case i of Op_Literal v \<Rightarrow> v | Op_LiteralNodes v \<Rightarrow> v
     | Op_LookupLiteral v \<Rightarrow> v | Op_SliceLiteral v \<Rightarrow> v | _ \<Rightarrow> null_vector)"

text \<open>
  Instruction operands are C \<open>int\<close>s.  The only arithmetic on them is the sum computed by
  \<open>Program.optimize\<close>; \<open>c_int\<close> is the two's-complement wrap-around of a 32-bit \<open>int\<close>.
\<close>

definition c_int :: "int \<Rightarrow> int" where
  "c_int x = (x + 2147483648) mod 4294967296 - 2147483648"

text \<open>
  One iteration of the loop of \<open>Program.optimize\<close>: \<open>out\<close> is the output list built so far
  (the local \<open>instructions\<close>) and \<open>instruction\<close> the next input instruction.
  \<open>instructions.pop()\<close> is \<open>butlast\<close>; \<open>continue\<close> skips the final \<open>append\<close>.
\<close>

definition optimize_step :: "instr list \<Rightarrow> instr \<Rightarrow> instr list" where
  "optimize_step out instruction =
    (if out \<noteq> [] then
       (if is_Compose (last out) then
          (if is_Compose instruction then
             butlast out
               @ [Op_Compose (c_int (ivalue instruction - 1 + ivalue (last out)))]
           else if is_Append instruction then
             butlast out
               @ [Op_Append (c_int (ivalue instruction - 1 + ivalue (last out)))]
           else out @ [instruction])
        else if last out = Op_Mul then
          (if instruction = Op_Add then butlast out @ [Op_MulAdd]
           else out @ [instruction])
        else if is_Literal (last out) then
          (if vlength (vvalue (last out)) = 0
              \<and> (is_Append instruction \<or> instruction = Op_AppendRoot)
           then butlast out
           else out @ [instruction])
        else out @ [instruction])
     else out @ [instruction])"

definition optimize_loop :: "instr list \<Rightarrow> instr list" where
  "optimize_loop instrs = foldl optimize_step [] instrs"

text \<open>
  \<open>Program.optimize\<close>: the assertion refuses a linked program; otherwise the instruction
  list is replaced by the rewritten one.
\<close>

definition optimize :: "program \<Rightarrow> exc + program" where
  "optimize self =
    (if linked self then Inl (AssertionError ''Cannot optimize a linked program'')
     else Inr (Program (optimize_loop (instructions self)) (linked self) (path self)))"

text \<open>
  The rewrites as the specification lists them, applied to one adjacent pair anywhere in an
  instruction list.
\<close>

inductive peephole :: "instr list \<Rightarrow> instr list \<Rightarrow> bool" where
  compose_compose:
    "peephole (xs @ [Op_Compose n, Op_Compose m] @ ys) (xs @ [Op_Compose (c_int (n + m - 1))] @ ys)"
| compose_append:
    "peephole (xs @ [Op_Compose n, Op_Append m] @ ys) (xs @ [Op_Append (c_int (n + m - 1))] @ ys)"
| mul_add:
    "peephole (xs @ [Op_Mul, Op_Add] @ ys) (xs @ [Op_MulAdd] @ ys)"
| literal_append:
    "vlength v = 0 \<Longrightarrow> peephole (xs @ [Op_Literal v, Op_Append m] @ ys) (xs @ ys)"
| literal_append_root:
    "vlength v = 0 \<Longrightarrow> peephole (xs @ [Op_Literal v, Op_AppendRoot] @ ys) (xs @ ys)"

text \<open>An adjacent pair to which one of the rewrites applies.\<close>

definition redex :: "instr \<Rightarrow> instr \<Rightarrow> bool" where
  "redex a b =
    ((is_Compose a \<and> (is_Compose b \<or> is_Append b))
     \<or> (a = Op_Mul \<and> b = Op_Add)
     \<or> (is_Literal a \<and> vlength (vvalue a) = 0 \<and> (is_Append b \<or> b = Op_AppendRoot)))"

fun no_redex :: "instr list \<Rightarrow> bool" where
  "no_redex [] = True"
| "no_redex [a] = True"
| "no_redex (a # b # xs) = (\<not> redex a b \<and> no_redex (b # xs))"

section \<open>The state of the virtual machine\<close>

text \<open>
  The canonical vectors \<open>true_\<close> and \<open>false_\<close>.
\<close>

definition true_vector :: vector where
  "true_vector = Numeric [1]"

definition false_vector :: vector where
  "false_vector = Numeric [0]"

text \<open>
  \<open>Node\<close>, with the fields of its declaration.  \<open>attributes\<close> is the address of the attribute
  dictionary, which \<open>Node.copy\<close> shares between the original and the copy until one of them
  is written to (\<open>attributes_shared\<close>).
\<close>

record Node =
  kind :: string
  tags :: "string set option"
  attributes :: nat
  attributes_shared :: bool
  node_parent :: "nat option"
  next_sibling :: "nat option"
  first_child :: "nat option"
  last_child :: "nat option"

text \<open>
  A \<open>Function\<close> value: \<open>flvars\<close> is the address of its own \<open>VectorStack\<close>, the copy of the locals
  taken when the function was built.
\<close>

record Function =
  fname :: string
  parameters :: "string list"
  defaults :: "vector list"
  fprogram :: program
  flvars :: nat
  root_path :: "string option"

text \<open>
  The store of mutable objects: nodes, dictionaries, functions and \<open>VectorStack\<close>s, each found
  by its address.  A \<open>VectorStack\<close> is the list of its slots \<open>0 .. top\<close>, so its top is the last
  element and \<open>top = length - 1\<close>.  \<open>next_addr\<close> is the first address never handed out.
\<close>

record heap =
  nodes :: "nat \<Rightarrow> Node"
  dicts :: "nat \<Rightarrow> (string \<rightharpoonup> vector)"
  funcs :: "nat \<Rightarrow> Function"
  stacks :: "nat \<Rightarrow> vector list"
  next_addr :: nat

text \<open>
  The per-run \<open>Context\<close>.  Only the \<open>path\<close> of an enclosing import context is ever read, so
  the \<open>parent\<close> chain is kept as the list \<open>parents\<close> of the ancestors' paths, nearest first.
\<close>

record Context =
  state :: "vector \<rightharpoonup> vector"
  variables :: "string \<rightharpoonup> vector"
  graph :: nat
  pragmas :: "string \<rightharpoonup> vector"
  errors :: "string set"
  logs :: "string set"
  context_path :: "string option"
  parents :: "string option list"

subsection \<open>Operations on a \<open>VectorStack\<close>\<close>

text \<open>
  Each helper checks \<open>assert stack.top - n >= -1\<close> (or \<open>stack.top > -1\<close>) first.  In \<open>pop\<close>,
  \<open>pop_tuple\<close>, \<open>pop_dict\<close>, \<open>pop_composed\<close>, \<open>peek\<close> and \<open>peek_at\<close>, which return an object, a
  failed assertion is the value \<open>Inl (AssertionError ''Stack empty'')\<close>.  \<open>drop\<close>, \<open>poke\<close> and
  \<open>poke_at\<close> are declared \<open>void ... noexcept\<close>: the exception of a failed assertion cannot leave
  them, they return at once, and the caller goes on with the stack as it was.  The helpers
  are never called with a negative count by compiled code; the model treats one like a count
  that is too large.
\<close>

definition push :: "vector list \<Rightarrow> vector \<Rightarrow> vector list" where
  "push stack vector = stack @ [vector]"

definition pop :: "vector list \<Rightarrow> exc + (vector \<times> vector list)" where
  "pop stack =
    (if stack = [] then Inl (AssertionError ''Stack empty'')
     else Inr (last stack, butlast stack))"

definition drop_stack :: "vector list \<Rightarrow> int \<Rightarrow> vector list" where
  "drop_stack stack n =
    (if n < 0 \<or> int (length stack) < n then stack
     else take (length stack - nat n) stack)"

definition pop_tuple :: "vector list \<Rightarrow> int \<Rightarrow> exc + (vector list \<times> vector list)" where
  "pop_tuple stack n =
    (if n < 0 \<or> int (length stack) < n then Inl (AssertionError ''Stack empty'')
     else Inr (drop (length stack - nat n) stack, take (length stack - nat n) stack))"

definition pop_dict :: "vector list \<Rightarrow> string list \<Rightarrow> exc + ((string \<rightharpoonup> vector) \<times> vector list)" where
  "pop_dict stack keys =
    (if length stack < length keys then Inl (AssertionError ''Stack empty'')
     else Inr (foldl (\<lambda>t (k, v). t(k \<mapsto> v)) Map.empty
                 (zip keys (drop (length stack - length keys) stack)),
               take (length stack - length keys) stack))"

definition peek :: "vector list \<Rightarrow> exc + vector" where
  "peek stack = (if stack = [] then Inl (AssertionError ''Stack empty'') else Inr (last stack))"

definition peek_at :: "vector list \<Rightarrow> int \<Rightarrow> exc + vector" where
  "peek_at stack off =
    (if off < 0 \<or> int (length stack) \<le> off then Inl (AssertionError ''Stack empty'')
     else Inr (stack ! (length stack - 1 - nat off)))"

definition poke :: "vector list \<Rightarrow> vector \<Rightarrow> vector list" where
  "poke stack vector =
    (if stack = [] then stack
     else butlast stack @ [vector])"

definition poke_at :: "vector list \<Rightarrow> int \<Rightarrow> vector \<Rightarrow> vector list" where
  "poke_at stack off vector =
    (if off < 0 \<or> int (length stack) \<le> off then stack
     else stack [length stack - 1 - nat off := vector])"

text \<open>
  \<open>pop_composed\<close>.  \<open>is_numeric\<close> is the test \<open>objects is None\<close>; \<open>boxed\<close> is the list of objects
  the second loop stores for one input vector (\<open>PyFloat_FromDouble\<close> for a number, the object
  itself otherwise); \<open>numbers_of\<close> reads the packed array.
\<close>

fun is_numeric :: "vector \<Rightarrow> bool" where
  "is_numeric (Numeric ns) = True"
| "is_numeric (Objects os) = False"

fun numbers_of :: "vector \<Rightarrow> real list" where
  "numbers_of (Numeric ns) = ns"
| "numbers_of (Objects os) = []"

fun boxed :: "vector \<Rightarrow> obj list" where
  "boxed (Numeric ns) = map OFloat ns"
| "boxed (Objects os) = os"

definition pop_composed :: "vector list \<Rightarrow> int \<Rightarrow> exc + (vector \<times> vector list)" where
  "pop_composed stack m =
    (if m < 0 \<or> int (length stack) < m then Inl (AssertionError ''Stack empty'')
     else if m = 1 then pop stack
     else if m = 0 then Inr (null_vector, stack)
     else
       (let base = length stack - nat m;
            inputs = drop base stack;
            numeric = list_all is_numeric inputs;
            n = sum_list (map vlength inputs)
        in if n = 0 then Inr (null_vector, take base stack)
           else if numeric then Inr (Numeric (concat (map numbers_of inputs)), take base stack)
           else Inr (Objects (concat (map boxed inputs)), take base stack)))"

text \<open>
  Every object vector the engine builds has at least one element (an empty result is always
  \<open>null_\<close>): the invariant \<open>objects is not None \<longrightarrow> length > 0\<close> of \<open>Vector\<close>.
\<close>

fun wf_vector :: "vector \<Rightarrow> bool" where
  "wf_vector (Numeric ns) = True"
| "wf_vector (Objects os) = (os \<noteq> [])"

subsection \<open>The host\<close>

text \<open>
  The engine is linked against code that is not part of the language core: the builtin
  tables \<open>STATIC_FUNCTIONS\<close>, \<open>NOISE_FUNCTIONS\<close> and \<open>DYNAMIC_FUNCTIONS\<close>, the source loader
  behind \<open>SharedCache\<close>, host callables, and the methods of \<open>Vector\<close> that the virtual machine
  calls (\<open>item\<close>, \<open>as_bool\<close>, \<open>copynodes\<close>, the arithmetic, ...) and the methods of \<open>Node\<close> that
  build the tree (\<open>copy\<close>, \<open>append_vector\<close>, \<open>insert\<close>, \<open>append\<close>) and search it
  (\<open>graph_search root query\<close> is the list of values the loop of \<open>Search\<close> collects with
  \<open>Node._select\<close> over the children of the root).  They are the fields of \<open>host\<close>, and every definition below takes the host as a parameter.
  \<open>call_object f with_context args kwargs\<close> is the outcome of calling the Python object \<open>f\<close>
  (with the context as an added first argument when \<open>with_context\<close>): the message of the
  exception it raises or the vector it returns, and the context and store it leaves.
  \<open>read_flitter_program filename root\<close> is
  \<open>SharedCache.get_with_root(filename, root).read_flitter_program()\<close>.
\<close>

record host =
  STATIC_FUNCTIONS :: "string \<rightharpoonup> vector"
  NOISE_FUNCTIONS :: "string \<rightharpoonup> vector"
  DYNAMIC_FUNCTIONS :: "string \<rightharpoonup> vector"
  debug_func :: obj
  read_flitter_program :: "string \<Rightarrow> string option \<Rightarrow> program option"
  has_context_func :: "obj \<Rightarrow> bool"
  call_object :: "obj \<Rightarrow> bool \<Rightarrow> vector list \<Rightarrow> (string \<rightharpoonup> vector) option
    \<Rightarrow> Context \<times> heap \<Rightarrow> (string + vector) \<times> Context \<times> heap"
  item :: "vector \<Rightarrow> int \<Rightarrow> vector"
  as_bool :: "vector \<Rightarrow> bool"
  as_string :: "vector \<Rightarrow> string"
  vrepr :: "vector \<Rightarrow> heap \<Rightarrow> string"
  orepr :: "obj \<Rightarrow> string"
  copynodes :: "vector \<Rightarrow> heap \<Rightarrow> vector \<times> heap"
  node_copy :: "nat \<Rightarrow> heap \<Rightarrow> nat \<times> heap"
  fill_range :: "vector \<Rightarrow> vector \<Rightarrow> vector \<Rightarrow> vector"
  vneg :: "vector \<Rightarrow> vector"
  vadd :: "vector \<Rightarrow> vector \<Rightarrow> vector"
  vsub :: "vector \<Rightarrow> vector \<Rightarrow> vector"
  vmul :: "vector \<Rightarrow> vector \<Rightarrow> vector"
  mul_add :: "vector \<Rightarrow> vector \<Rightarrow> vector \<Rightarrow> vector"
  truediv :: "vector \<Rightarrow> vector \<Rightarrow> vector"
  floordiv :: "vector \<Rightarrow> vector \<Rightarrow> vector"
  vmod :: "vector \<Rightarrow> vector \<Rightarrow> vector"
  vpow :: "vector \<Rightarrow> vector \<Rightarrow> vector"
  veq :: "vector \<Rightarrow> vector \<Rightarrow> vector"
  vne :: "vector \<Rightarrow> vector \<Rightarrow> vector"
  vgt :: "vector \<Rightarrow> vector \<Rightarrow> vector"
  vlt :: "vector \<Rightarrow> vector \<Rightarrow> vector"
  vge :: "vector \<Rightarrow> vector \<Rightarrow> vector"
  vle :: "vector \<Rightarrow> vector \<Rightarrow> vector"
  vslice :: "vector \<Rightarrow> vector \<Rightarrow> vector"
  append_vector :: "nat \<Rightarrow> vector \<Rightarrow> bool \<Rightarrow> heap \<Rightarrow> heap"
  node_insert :: "nat \<Rightarrow> nat \<Rightarrow> heap \<Rightarrow> heap"
  node_append :: "nat \<Rightarrow> nat \<Rightarrow> heap \<Rightarrow> heap"
  graph_search :: "nat \<Rightarrow> query \<Rightarrow> heap \<Rightarrow> obj list"

text \<open>
  The builtin tables.  \<open>dict.update\<close> lets the later table win, which is \<open>++\<close> on maps:
  \<open>all_builtins\<close> is filled from the dynamic builtins first and the static ones second.
\<close>

definition static_builtins :: "host \<Rightarrow> (string \<rightharpoonup> vector)" where
  "static_builtins h =
    [''true'' \<mapsto> true_vector, ''false'' \<mapsto> false_vector, ''null'' \<mapsto> null_vector]
      ++ STATIC_FUNCTIONS h ++ NOISE_FUNCTIONS h"

definition dynamic_builtins :: "host \<Rightarrow> (string \<rightharpoonup> vector)" where
  "dynamic_builtins h = [''debug'' \<mapsto> Objects [debug_func h]] ++ DYNAMIC_FUNCTIONS h"

definition all_builtins :: "host \<Rightarrow> (string \<rightharpoonup> vector)" where
  "all_builtins h = Map.empty ++ dynamic_builtins h ++ static_builtins h"

subsection \<open>One invocation of \<open>Program._execute\<close>\<close>

text \<open>
  \<open>LoopSource\<close>, and the state of one invocation of \<open>_execute\<close>: the context \<open>ctx\<close> and the store it
  works on, and its local variables \<open>pc\<close>, \<open>node_scope\<close> (the address of the attribute
  dictionary of the node under construction), \<open>loop_source\<close> and \<open>loop_sources\<close>.  The value
  stack and the locals stack of the invocation are \<open>VectorStack\<close> objects; the handlers take
  their addresses \<open>stack\<close> and \<open>lvars\<close>.
\<close>

record LoopSource =
  source :: vector
  position :: int
  iterations :: int

record vm =
  ctx :: Context
  store :: heap
  pc :: int
  node_scope :: "nat option"
  loop_source :: "LoopSource option"
  loop_sources :: "LoopSource list"

definition get_stack :: "vm \<Rightarrow> nat \<Rightarrow> vector list" where
  "get_stack s a = stacks (store s) a"

definition set_stack :: "vm \<Rightarrow> nat \<Rightarrow> vector list \<Rightarrow> vm" where
  "set_stack s a xs = s\<lparr>store := (store s)\<lparr>stacks := (stacks (store s))(a := xs)\<rparr>\<rparr>"

definition add_error :: "vm \<Rightarrow> string \<Rightarrow> vm" where
  "add_error s msg = s\<lparr>ctx := (ctx s)\<lparr>errors := insert msg (errors (ctx s))\<rparr>\<rparr>"

text \<open>
  \<open>OpCode.LocalDrop\<close>: \<open>drop(lvars, n)\<close>.
\<close>

definition exec_LocalDrop :: "int \<Rightarrow> nat \<Rightarrow> vm \<Rightarrow> exc + vm" where
  "exec_LocalDrop n lvars s = Inr (set_stack s lvars (drop_stack (get_stack s lvars) n))"

text \<open>
  \<open>OpCode.LocalPush\<close>: one vector \<open>r1\<close> is popped from the value stack; for \<open>n = 1\<close> it becomes
  one local, otherwise the loop \<open>for i in range(n): push(lvars, r1.item(i))\<close> runs.
\<close>

definition exec_LocalPush :: "host \<Rightarrow> int \<Rightarrow> nat \<Rightarrow> nat \<Rightarrow> vm \<Rightarrow> exc + vm" where
  "exec_LocalPush h n stack lvars s =
    (case pop (get_stack s stack) of
       Inl e \<Rightarrow> Inl e
     | Inr (r1, rest) \<Rightarrow>
         (let s1 = set_stack s stack rest in
          if n = 1 then Inr (set_stack s1 lvars (push (get_stack s1 lvars) r1))
          else Inr (set_stack s1 lvars
                 (foldl (\<lambda>l i. push l (item h r1 (int i))) (get_stack s1 lvars) [0..<nat n]))))"

text \<open>
  \<open>OpCode.Name\<close>: \<open>variables\<close>, then \<open>builtins\<close>, then \<open>node_scope\<close> when there is one; an unbound
  name pushes \<open>null_\<close> and adds a message to \<open>context.errors\<close>.  The handler raises nothing.
\<close>

definition unbound_name_message :: "string \<Rightarrow> string" where
  "unbound_name_message name = ''Unbound name '' @ [CHR 0x27] @ name @ [CHR 0x27]"

definition exec_Name :: "host \<Rightarrow> string \<Rightarrow> nat \<Rightarrow> vm \<Rightarrow> vm" where
  "exec_Name h name stack s =
    (let objptr = variables (ctx s) name;
         objptr = (if objptr = None then all_builtins h name else objptr);
         objptr = (if objptr = None \<and> node_scope s \<noteq> None
                   then dicts (store s) (the (node_scope s)) name else objptr)
     in case objptr of
          Some v \<Rightarrow> set_stack s stack (push (get_stack s stack) v)
        | None \<Rightarrow> add_error (set_stack s stack (push (get_stack s stack) null_vector))
                    (unbound_name_message name))"

text \<open>
  A host for examples: its tables are empty, its loader finds nothing, \<open>as_string\<close> reads a
  one-string vector, \<open>copynodes\<close> is the identity (right for a vector without nodes), and every
  other operation answers \<open>null_\<close> or does nothing.
\<close>

definition example_host :: host where
  "example_host = \<lparr>
     STATIC_FUNCTIONS = Map.empty, NOISE_FUNCTIONS = Map.empty,
     DYNAMIC_FUNCTIONS = Map.empty, debug_func = OHost 0,
     read_flitter_program = (\<lambda>filename root. None),
     has_context_func = (\<lambda>f. False),
     call_object = (\<lambda>f with_context args kwargs cs. (Inr null_vector, cs)),
     item = (\<lambda>v i. null_vector),
     as_bool = (\<lambda>v. False),
     as_string = (\<lambda>v. case v of Objects [OStr str] \<Rightarrow> str | _ \<Rightarrow> []),
     vrepr = (\<lambda>v st. []),
     orepr = (\<lambda>f. []),
     copynodes = (\<lambda>v st. (v, st)),
     node_copy = (\<lambda>a st. (a, st)),
     fill_range = (\<lambda>a b c. null_vector),
     vneg = (\<lambda>a. null_vector),
     vadd = (\<lambda>a b. null_vector),
     vsub = (\<lambda>a b. null_vector),
     vmul = (\<lambda>a b. null_vector),
     mul_add = (\<lambda>a b c. null_vector),
     truediv = (\<lambda>a b. null_vector),
     floordiv = (\<lambda>a b. null_vector),
     vmod = (\<lambda>a b. null_vector),
     vpow = (\<lambda>a b. null_vector),
     veq = (\<lambda>a b. null_vector),
     vne = (\<lambda>a b. null_vector),
     vgt = (\<lambda>a b. null_vector),
     vlt = (\<lambda>a b. null_vector),
     vge = (\<lambda>a b. null_vector),
     vle = (\<lambda>a b. null_vector),
     vslice = (\<lambda>a b. null_vector),
     append_vector = (\<lambda>a v cow st. st),
     node_insert = (\<lambda>a b st. st),
     node_append = (\<lambda>a b st. st),
     graph_search = (\<lambda>a q st. []) \<rparr>"

definition empty_heap :: heap where
  "empty_heap = \<lparr>
     nodes = (\<lambda>a. \<lparr>kind = '''', tags = None, attributes = 0, attributes_shared = False,
                   node_parent = None, next_sibling = None, first_child = None,
                   last_child = None\<rparr>),
     dicts = (\<lambda>a. Map.empty),
     funcs = (\<lambda>a. \<lparr>fname = '''', parameters = [], defaults = [],
                   fprogram = Program [] True None, flvars = 0, root_path = None\<rparr>),
     stacks = (\<lambda>a. []),
     next_addr = 0 \<rparr>"

definition empty_context :: Context where
  "empty_context = \<lparr> state = Map.empty, variables = Map.empty, graph = 0,
     pragmas = Map.empty, errors = {}, logs = {}, context_path = None, parents = [] \<rparr>"

definition initial_vm :: vm where
  "initial_vm = \<lparr> ctx = empty_context, store = empty_heap, pc = 0, node_scope = None,
     loop_source = None, loop_sources = [] \<rparr>"

text \<open>
  \<open>OpCode.Attribute\<close>.  \<open>attribute_node\<close> is the body of the loop for one element that is a
  \<open>Node\<close>, at address \<open>a\<close>: a shared attribute dictionary is copied first (\<open>PyDict_Copy\<close>
  allocates the copy at \<open>next_addr\<close>) and the node is pointed at its own copy; then a non-empty
  value is stored under \<open>name\<close>, and an empty one deletes the key when it is present.
\<close>

definition attribute_node :: "string \<Rightarrow> vector \<Rightarrow> heap \<Rightarrow> nat \<Rightarrow> heap" where
  "attribute_node name r2 h a =
    (let h1 = (if attributes_shared (nodes h a)
               then h\<lparr>dicts := (dicts h)(next_addr h := dicts h (attributes (nodes h a))),
                      nodes := (nodes h)(a := (nodes h a)\<lparr>attributes := next_addr h,
                                                           attributes_shared := False\<rparr>),
                      next_addr := Suc (next_addr h)\<rparr>
               else h);
         attrs = attributes (nodes h1 a)
     in if vlength r2 \<noteq> 0
        then h1\<lparr>dicts := (dicts h1)(attrs := (dicts h1 attrs)(name \<mapsto> r2))\<rparr>
        else if name \<in> dom (dicts h1 attrs)
        then h1\<lparr>dicts := (dicts h1)(attrs := (dicts h1 attrs)(name := None))\<rparr>
        else h1)"

definition attribute_step :: "string \<Rightarrow> vector \<Rightarrow> heap \<Rightarrow> obj \<Rightarrow> heap" where
  "attribute_step name r2 h x = (case x of ONode a \<Rightarrow> attribute_node name r2 h a | _ \<Rightarrow> h)"

definition exec_Attribute :: "string \<Rightarrow> nat \<Rightarrow> vm \<Rightarrow> exc + vm" where
  "exec_Attribute name stack s =
    (case pop (get_stack s stack) of
       Inl e \<Rightarrow> Inl e
     | Inr (r2, rest) \<Rightarrow>
        (let s1 = set_stack s stack rest in
         case peek (get_stack s1 stack) of
           Inl e \<Rightarrow> Inl e
         | Inr r1 \<Rightarrow>
            (case r1 of
               Objects os \<Rightarrow> Inr (s1\<lparr>store := foldl (attribute_step name r2) (store s1) os\<rparr>)
             | Numeric ns \<Rightarrow> Inr s1)))"

text \<open>The attribute mapping of the node at address \<open>a\<close>.\<close>

definition node_attributes :: "heap \<Rightarrow> nat \<Rightarrow> (string \<rightharpoonup> vector)" where
  "node_attributes h a = dicts h (attributes (nodes h a))"

text \<open>Every dictionary a node points at has been allocated.\<close>

definition wf_heap :: "heap \<Rightarrow> bool" where
  "wf_heap h = (\<forall>a. attributes (nodes h a) < next_addr h)"

text \<open>
  The relation between the store \<open>h0\<close> before the loop of \<open>Attribute\<close> and the store \<open>h\<close> after
  the nodes at the addresses \<open>P\<close> have been handled, for an empty value: it is what the loop
  maintains.
\<close>

definition attr_inv :: "string \<Rightarrow> heap \<Rightarrow> nat set \<Rightarrow> heap \<Rightarrow> bool" where
  "attr_inv name h0 P h =
    (wf_heap h \<and> next_addr h0 \<le> next_addr h \<and> stacks h = stacks h0 \<and> funcs h = funcs h0
     \<and> (\<forall>a. node_attributes h a = node_attributes h0 a
             \<or> node_attributes h a = (node_attributes h0 a)(name := None))
     \<and> (\<forall>a. a \<in> P \<longrightarrow> node_attributes h a = (node_attributes h0 a)(name := None)
             \<and> \<not> attributes_shared (nodes h a)
             \<and> (attributes_shared (nodes h0 a) \<longrightarrow> next_addr h0 \<le> attributes (nodes h a)))
     \<and> (\<forall>a. a \<notin> P \<longrightarrow> nodes h a = nodes h0 a)
     \<and> (\<forall>a. nodes h a = (nodes h0 a)\<lparr>attributes := attributes (nodes h a),
                                        attributes_shared := attributes_shared (nodes h a)\<rparr>)
     \<and> (\<forall>a. \<not> attributes_shared (nodes h0 a) \<longrightarrow> nodes h a = nodes h0 a)
     \<and> (\<forall>d. d < next_addr h0 \<longrightarrow>
            dicts h d = (if \<exists>a. a \<in> P \<and> \<not> attributes_shared (nodes h0 a)
                               \<and> attributes (nodes h0 a) = d
                         then (dicts h0 d)(name := None) else dicts h0 d)))"

text \<open>
  An example state: the nodes at addresses \<open>1\<close> and \<open>2\<close> share the attribute dictionary at
  address \<open>5\<close>, which binds \<open>x\<close> and \<open>y\<close>; the value stack, at address \<open>0\<close>, holds the vector of
  node \<open>1\<close> and a string, and above it the empty vector.
\<close>

definition shared_nodes_heap :: heap where
  "shared_nodes_heap = empty_heap\<lparr>
     nodes := (nodes empty_heap)
       (1 := (nodes empty_heap 1)\<lparr>kind := ''a'', attributes := 5, attributes_shared := True\<rparr>,
        2 := (nodes empty_heap 2)\<lparr>kind := ''a'', attributes := 5, attributes_shared := True\<rparr>),
     dicts := (dicts empty_heap)(5 := [''x'' \<mapsto> Numeric [1], ''y'' \<mapsto> Numeric [2]]),
     stacks := (stacks empty_heap)(0 := [Objects [ONode 1, OStr ''s''], null_vector]),
     next_addr := 10\<rparr>"

definition shared_nodes_vm :: vm where
  "shared_nodes_vm = initial_vm\<lparr>store := shared_nodes_heap\<rparr>"

section \<open>Calls, imports and the dispatch loop\<close>

text \<open>
  \<open>call_helper\<close> and \<open>import_module\<close> call \<open>Program._execute\<close> again, for the body of a
  function and for an imported module.  They are written over an \<open>executor\<close>, the function
  that runs a program on a value stack and a locals stack (given by their addresses) from a
  context and a store; the dispatch loop below supplies it.  A run that does not return is
  the value \<open>Inl Diverges\<close>.
\<close>

type_synonym executor = "program \<Rightarrow> nat \<Rightarrow> nat \<Rightarrow> Context \<times> heap \<Rightarrow> exc + (Context \<times> heap)"

definition Diverges :: exc where
  "Diverges = ValueError ''the run does not return''"

definition on_ok :: "exc + 'a \<Rightarrow> ('a \<Rightarrow> exc + 'b) \<Rightarrow> exc + 'b" where
  "on_ok r f = (case r of Inl e \<Rightarrow> Inl e | Inr x \<Rightarrow> f x)"

text \<open>
  The value bound to parameter \<open>i\<close> of a call: the positional argument, else the keyword
  argument of that name, else the default.
\<close>

definition call_argument ::
  "Function \<Rightarrow> vector list \<Rightarrow> (string \<rightharpoonup> vector) option \<Rightarrow> nat \<Rightarrow> vector" where
  "call_argument func args kwargs i =
    (if i < length args then args ! i
     else (case kwargs of
             None \<Rightarrow> defaults func ! i
           | Some kw \<Rightarrow> (case kw (parameters func ! i) of
                           Some v \<Rightarrow> v
                         | None \<Rightarrow> defaults func ! i)))"

definition set_heap_stack :: "heap \<Rightarrow> nat \<Rightarrow> vector list \<Rightarrow> heap" where
  "set_heap_stack st a xs = st\<lparr>stacks := (stacks st)(a := xs)\<rparr>"

text \<open>
  \<open>call_helper\<close>.  For a \<open>Function\<close> the parameter values are pushed onto the function's own
  locals stack, the body runs on the caller's value stack, and the two assertions at the
  return site compare the stack heights with the ones saved before the body ran.
\<close>

definition call_helper ::
  "executor \<Rightarrow> host \<Rightarrow> nat \<Rightarrow> obj \<Rightarrow> vector list \<Rightarrow> (string \<rightharpoonup> vector) option
    \<Rightarrow> Context \<times> heap \<Rightarrow> exc + (Context \<times> heap)" where
  "call_helper exec h stack function args kwargs cs =
    (let c = fst cs; st = snd cs; n = length args in
     case function of
       OFunction fa \<Rightarrow>
         (let func = funcs st fa;
              lvars = flvars func;
              m = length (parameters func);
              st1 = set_heap_stack st lvars
                      (stacks st lvars @ map (call_argument func args kwargs) [0..<m]);
              lvars_top = length (stacks st1 lvars);
              top = length (stacks st1 stack);
              saved_path = context_path c
          in case exec (fprogram func) stack lvars (c\<lparr>context_path := root_path func\<rparr>, st1) of
               Inl e \<Rightarrow> Inl e
             | Inr (c2, st2) \<Rightarrow>
                 if length (stacks st2 stack) \<noteq> top + 1
                 then Inl (AssertionError ''Bad function return stack'')
                 else if length (stacks st2 lvars) \<noteq> lvars_top
                 then Inl (AssertionError ''Bad function return lvars'')
                 else Inr (c2\<lparr>context_path := saved_path\<rparr>,
                           set_heap_stack st2 lvars (drop_stack (stacks st2 lvars) (int m))))
     | _ \<Rightarrow>
         if function = debug_func h \<and> n = 1 \<and> kwargs = None
         then Inr (c\<lparr>logs := insert (vrepr h (args ! 0) st) (logs c)\<rparr>,
                   set_heap_stack st stack (push (stacks st stack) (args ! 0)))
         else
           (case call_object h function (has_context_func h function) args kwargs (c, st) of
              (Inr v, c1, st1) \<Rightarrow> Inr (c1, set_heap_stack st1 stack (push (stacks st1 stack) v))
            | (Inl msg, c1, st1) \<Rightarrow>
                Inr (c1\<lparr>errors := insert (''Error calling '' @ orepr h function @ [CHR 0x0A] @ msg)
                                     (errors c1)\<rparr>,
                     set_heap_stack st1 stack (push (stacks st1 stack) null_vector))))"

text \<open>
  \<open>import_module\<close>.  The \<open>while\<close> loop walks the importing context and its ancestors and
  compares each \<open>path\<close> with the loaded program's.  When none is the same, the module runs in
  a child context with fresh \<open>variables\<close>, on the program's own two stacks (empty between
  runs, so they are allocated empty here); the child shares the state, pragmas, errors, logs
  and graph objects of the importing context, so what the module leaves in them is what the
  importing context holds afterwards.
\<close>

definition import_module ::
  "executor \<Rightarrow> host \<Rightarrow> string \<Rightarrow> Context \<times> heap
    \<Rightarrow> exc + ((string \<rightharpoonup> vector) option \<times> Context \<times> heap)" where
  "import_module exec h filename cs =
    (let c = fst cs; st = snd cs in
     case read_flitter_program h filename (context_path c) of
       None \<Rightarrow> Inr (None, c, st)
     | Some program \<Rightarrow>
         if path program \<in> set (context_path c # parents c)
         then Inr (None, c\<lparr>errors := insert (''Circular import of '' @ filename) (errors c)\<rparr>, st)
         else
           (let import_context = \<lparr>state = state c, variables = Map.empty, graph = graph c,
                  pragmas = pragmas c, errors = errors c, logs = logs c,
                  context_path = path program, parents = context_path c # parents c\<rparr>;
                pstack = next_addr st;
                plvars = Suc (next_addr st);
                st1 = st\<lparr>stacks := (stacks st)(pstack := [], plvars := []),
                         next_addr := Suc (Suc (next_addr st))\<rparr>
            in case exec program pstack plvars (import_context, st1) of
                 Inl e \<Rightarrow> Inl e
               | Inr (ic, st2) \<Rightarrow>
                   if stacks st2 pstack \<noteq> [] then Inl (AssertionError ''Bad stack'')
                   else if stacks st2 plvars \<noteq> [] then Inl (AssertionError ''Bad lvars'')
                   else Inr (Some (variables ic),
                             c\<lparr>state := state ic, pragmas := pragmas ic,
                               errors := errors ic, logs := logs ic\<rparr>,
                             st2)))"

text \<open>\<open>OpCode.Import\<close>.\<close>

definition quoted :: "string \<Rightarrow> string" where
  "quoted str = [CHR 0x27] @ str @ [CHR 0x27]"

definition import_name :: "string \<Rightarrow> (string \<rightharpoonup> vector) \<Rightarrow> nat \<Rightarrow> vm \<Rightarrow> string \<Rightarrow> vm" where
  "import_name filename import_variables lvars s name =
    (case import_variables name of
       Some v \<Rightarrow> set_stack s lvars (push (get_stack s lvars) v)
     | None \<Rightarrow> add_error (set_stack s lvars (push (get_stack s lvars) null_vector))
                 (''Unable to import '' @ quoted name @ '' from '' @ quoted filename))"

definition exec_Import :: "executor \<Rightarrow> host \<Rightarrow> string list \<Rightarrow> nat \<Rightarrow> nat \<Rightarrow> vm \<Rightarrow> exc + vm" where
  "exec_Import exec h names stack lvars s =
    on_ok (pop (get_stack s stack)) (\<lambda>(fv, rest).
      let filename = as_string h fv;
          s1 = set_stack s stack rest
      in on_ok (import_module exec h filename (ctx s1, store s1)) (\<lambda>(import_variables, c, st).
           let s2 = s1\<lparr>ctx := c, store := st\<rparr> in
           case import_variables of
             Some vars \<Rightarrow> Inr (foldl (import_name filename vars lvars) s2 names)
           | None \<Rightarrow>
               Inr (set_stack (add_error s2 (''Unable to import from '' @ quoted filename)) lvars
                      (get_stack s2 lvars @ replicate (length names) null_vector))))"

subsection \<open>The remaining instruction handlers\<close>

definition vm_push :: "vm \<Rightarrow> nat \<Rightarrow> vector \<Rightarrow> vm" where
  "vm_push s stack v = set_stack s stack (push (get_stack s stack) v)"

definition vm_pop :: "vm \<Rightarrow> nat \<Rightarrow> exc + (vector \<times> vm)" where
  "vm_pop s stack =
    on_ok (pop (get_stack s stack)) (\<lambda>(v, rest). Inr (v, set_stack s stack rest))"

definition vm_peek :: "vm \<Rightarrow> nat \<Rightarrow> exc + vector" where
  "vm_peek s stack = peek (get_stack s stack)"

definition vm_poke :: "vm \<Rightarrow> nat \<Rightarrow> vector \<Rightarrow> exc + vm" where
  "vm_poke s stack v = Inr (set_stack s stack (poke (get_stack s stack) v))"

text \<open>\<open>poke(stack, f(peek(stack)))\<close> and \<open>r1 = pop(stack); poke(stack, f(peek(stack), r1))\<close>.\<close>

definition unary_op :: "(vector \<Rightarrow> vector) \<Rightarrow> nat \<Rightarrow> vm \<Rightarrow> exc + vm" where
  "unary_op f stack s = on_ok (vm_peek s stack) (\<lambda>v. vm_poke s stack (f v))"

definition binary_op :: "(vector \<Rightarrow> vector \<Rightarrow> vector) \<Rightarrow> nat \<Rightarrow> vm \<Rightarrow> exc + vm" where
  "binary_op f stack s =
    on_ok (vm_pop s stack) (\<lambda>(r1, s1). on_ok (vm_peek s1 stack) (\<lambda>v. vm_poke s1 stack (f v r1)))"

definition state_lookup :: "vm \<Rightarrow> vector \<Rightarrow> vector" where
  "state_lookup s key = (case state (ctx s) key of Some v \<Rightarrow> v | None \<Rightarrow> null_vector)"

text \<open>\<open>OpCode.Call\<close>: every element of the callable vector is called in turn.\<close>

fun call_each ::
  "executor \<Rightarrow> host \<Rightarrow> nat \<Rightarrow> vector list \<Rightarrow> (string \<rightharpoonup> vector) option \<Rightarrow> obj list
    \<Rightarrow> Context \<times> heap \<Rightarrow> exc + (Context \<times> heap)" where
  "call_each exec h stack args kwargs [] cs = Inr cs"
| "call_each exec h stack args kwargs (f # fs) cs =
    on_ok (call_helper exec h stack f args kwargs cs) (call_each exec h stack args kwargs fs)"

definition exec_Call ::
  "executor \<Rightarrow> host \<Rightarrow> int \<Rightarrow> string list option \<Rightarrow> nat \<Rightarrow> vm \<Rightarrow> exc + vm" where
  "exec_Call exec h n names stack s =
    on_ok (vm_pop s stack) (\<lambda>(r1, s1).
      on_ok (case names of
               Some keys \<Rightarrow> on_ok (pop_dict (get_stack s1 stack) keys)
                              (\<lambda>(kw, rest). Inr (Some kw, set_stack s1 stack rest))
             | None \<Rightarrow> Inr (None, s1)) (\<lambda>(kwargs, s2).
        on_ok (if n \<noteq> 0
               then on_ok (pop_tuple (get_stack s2 stack) n)
                      (\<lambda>(args, rest). Inr (args, set_stack s2 stack rest))
               else Inr ([], s2)) (\<lambda>(args, s3).
          case r1 of
            Objects os \<Rightarrow>
              on_ok (call_each exec h stack args kwargs os (ctx s3, store s3)) (\<lambda>(c, st).
                let s4 = s3\<lparr>ctx := c, store := st\<rparr> in
                if 1 < length os
                then on_ok (pop_composed (get_stack s4 stack) (int (length os)))
                       (\<lambda>(v, rest). Inr (vm_push (set_stack s4 stack rest) stack v))
                else Inr s4)
          | Numeric ns \<Rightarrow> Inr (vm_push s3 stack null_vector))))"

text \<open>
  \<open>OpCode.CallFast\<close>.  The message of a failed call formats the local \<open>function\<close>, which is
  \<open>None\<close> at this point.
\<close>

definition exec_CallFast :: "host \<Rightarrow> obj \<Rightarrow> int \<Rightarrow> nat \<Rightarrow> vm \<Rightarrow> exc + vm" where
  "exec_CallFast h f n stack s =
    on_ok (pop_tuple (get_stack s stack) n) (\<lambda>(args, rest).
      let s1 = set_stack s stack rest in
      case call_object h f False args None (ctx s1, store s1) of
        (Inr v, c, st) \<Rightarrow> Inr (vm_push (s1\<lparr>ctx := c, store := st\<rparr>) stack v)
      | (Inl msg, c, st) \<Rightarrow>
          Inr (vm_push (add_error (s1\<lparr>ctx := c, store := st\<rparr>)
                          (''Error calling None'' @ [CHR 0x0A] @ msg)) stack null_vector))"

text \<open>
  \<open>OpCode.Func\<close>: the new \<open>Function\<close> gets a copy of the current locals stack as its own, at
  a new address, and is itself allocated at a new address.
\<close>

definition exec_Func :: "string \<Rightarrow> string list \<Rightarrow> nat \<Rightarrow> nat \<Rightarrow> vm \<Rightarrow> exc + vm" where
  "exec_Func fn params stack lvars s =
    on_ok (vm_pop s stack) (\<lambda>(pv, s1).
      case pv of
        Objects (OProgram body # others) \<Rightarrow>
          on_ok (if params \<noteq> []
                 then on_ok (pop_tuple (get_stack s1 stack) (int (length params)))
                        (\<lambda>(ds, rest). Inr (ds, set_stack s1 stack rest))
                 else Inr ([], s1)) (\<lambda>(ds, s2).
            let st = store s2;
                la = next_addr st;
                fa = Suc (next_addr st);
                function = \<lparr>fname = fn, parameters = params, defaults = ds, fprogram = body,
                            flvars = la, root_path = context_path (ctx s2)\<rparr>;
                st1 = st\<lparr>stacks := (stacks st)(la := stacks st lvars),
                         funcs := (funcs st)(fa := function),
                         next_addr := Suc (Suc (next_addr st))\<rparr>
            in Inr (vm_push (s2\<lparr>store := st1\<rparr>) stack (Objects [OFunction fa])))
      | _ \<Rightarrow> Inl (TypeError ''Func expects a program''))"

text \<open>\<open>OpCode.Tag\<close>.\<close>

definition tag_step :: "string \<Rightarrow> heap \<Rightarrow> obj \<Rightarrow> heap" where
  "tag_step name st x =
    (case x of
       ONode a \<Rightarrow> st\<lparr>nodes := (nodes st)(a := (nodes st a)\<lparr>tags :=
                     Some (insert name (case tags (nodes st a) of None \<Rightarrow> {} | Some t \<Rightarrow> t))\<rparr>)\<rparr>
     | _ \<Rightarrow> st)"

definition exec_Tag :: "string \<Rightarrow> nat \<Rightarrow> vm \<Rightarrow> exc + vm" where
  "exec_Tag name stack s =
    on_ok (vm_peek s stack) (\<lambda>r1.
      case r1 of
        Objects os \<Rightarrow> Inr (s\<lparr>store := foldl (tag_step name) (store s) os\<rparr>)
      | Numeric ns \<Rightarrow> Inr s)"

text \<open>
  \<open>OpCode.Append\<close>: the \<open>m\<close> child vectors, deepest first, are attached to every node of the
  parent vector; only the last parent node receives the originals (\<open>j != n\<close> asks
  \<open>append_vector\<close> for copies).
\<close>

definition append_children :: "host \<Rightarrow> obj list \<Rightarrow> heap \<Rightarrow> vector \<Rightarrow> heap" where
  "append_children h parents_objs st r2 =
    (case r2 of
       Objects cs \<Rightarrow>
         foldl (\<lambda>st1 j. case parents_objs ! j of
                          ONode a \<Rightarrow> append_vector h a r2 (j \<noteq> length parents_objs - 1) st1
                        | _ \<Rightarrow> st1)
           st [0..<length parents_objs]
     | Numeric ns \<Rightarrow> st)"

definition exec_Append :: "host \<Rightarrow> int \<Rightarrow> nat \<Rightarrow> vm \<Rightarrow> exc + vm" where
  "exec_Append h m stack s =
    on_ok (peek_at (get_stack s stack) m) (\<lambda>r1.
      on_ok (pop_tuple (get_stack s stack) m) (\<lambda>(children, rest).
        Inr (set_stack
               (case r1 of
                  Objects os \<Rightarrow> s\<lparr>store := foldl (append_children h os) (store s) children\<rparr>
                | Numeric ns \<Rightarrow> s)
               stack rest)))"

text \<open>\<open>OpCode.Prepend\<close>.\<close>

definition prepend_child :: "host \<Rightarrow> bool \<Rightarrow> nat \<Rightarrow> heap \<Rightarrow> obj \<Rightarrow> heap" where
  "prepend_child h is_last a st child =
    (case child of
       ONode child_addr \<Rightarrow>
         (if is_last then node_insert h a child_addr st
          else (let (copy_addr, st1) = node_copy h child_addr st in node_insert h a copy_addr st1))
     | _ \<Rightarrow> st)"

definition exec_Prepend :: "host \<Rightarrow> nat \<Rightarrow> vm \<Rightarrow> exc + vm" where
  "exec_Prepend h stack s =
    on_ok (vm_pop s stack) (\<lambda>(r2, s1).
      on_ok (vm_peek s1 stack) (\<lambda>r1.
        case (r1, r2) of
          (Objects os, Objects cs) \<Rightarrow>
            Inr (s1\<lparr>store :=
              foldl (\<lambda>st i. case os ! i of
                               ONode a \<Rightarrow> foldl (prepend_child h (i = length os - 1) a) st (rev cs)
                             | _ \<Rightarrow> st)
                (store s1) [0..<length os]\<rparr>)
        | _ \<Rightarrow> Inr s1))"

text \<open>The loop instructions.  \<open>loop_source\<close> is \<open>None\<close> outside every loop.\<close>

definition exec_BeginFor :: "nat \<Rightarrow> vm \<Rightarrow> exc + vm" where
  "exec_BeginFor stack s =
    on_ok (vm_pop s stack) (\<lambda>(v, s1).
      Inr (s1\<lparr>loop_sources := (case loop_source s1 of
                                   Some ls \<Rightarrow> loop_sources s1 @ [ls]
                                 | None \<Rightarrow> loop_sources s1),
              loop_source := Some \<lparr>source = v, position = 0, iterations = 0\<rparr>\<rparr>))"

text \<open>
  \<open>Next\<close> binds the \<open>n\<close> loop variables, the locals at depths \<open>n - 1\<close> down to \<open>0\<close>, to the next
  \<open>n\<close> items of the source.
\<close>

fun next_items :: "host \<Rightarrow> vector \<Rightarrow> nat \<Rightarrow> int \<Rightarrow> vector list \<Rightarrow> vector list" where
  "next_items h src 0 pos l = l"
| "next_items h src (Suc i) pos l =
    next_items h src i (pos + 1) (poke_at l (int i) (item h src pos))"

definition exec_Next :: "host \<Rightarrow> int \<Rightarrow> int \<Rightarrow> nat \<Rightarrow> vm \<Rightarrow> exc + vm" where
  "exec_Next h off n lvars s =
    (case loop_source s of
       None \<Rightarrow> Inl (TypeError ''no loop source'')
     | Some ls \<Rightarrow>
         if int (vlength (source ls)) \<le> position ls then Inr (s\<lparr>pc := pc s + off\<rparr>)
         else Inr ((set_stack s lvars
                      (next_items h (source ls) (nat n) (position ls) (get_stack s lvars)))
                    \<lparr>loop_source := Some (ls\<lparr>position := position ls + int (nat n),
                                               iterations := iterations ls + 1\<rparr>)\<rparr>))"

definition exec_PushNext :: "host \<Rightarrow> int \<Rightarrow> nat \<Rightarrow> vm \<Rightarrow> exc + vm" where
  "exec_PushNext h off stack s =
    (case loop_source s of
       None \<Rightarrow> Inl (TypeError ''no loop source'')
     | Some ls \<Rightarrow>
         if position ls = int (vlength (source ls)) then Inr (s\<lparr>pc := pc s + off\<rparr>)
         else Inr ((vm_push s stack (item h (source ls) (position ls)))\<lparr>loop_source :=
                     Some (ls\<lparr>position := position ls + 1,
                               iterations := iterations ls + 1\<rparr>)\<rparr>))"

definition exec_EndFor :: "vm \<Rightarrow> vm" where
  "exec_EndFor s =
    (if loop_sources s \<noteq> []
     then s\<lparr>loop_source := Some (last (loop_sources s)), loop_sources := butlast (loop_sources s)\<rparr>
     else s\<lparr>loop_source := None\<rparr>)"

definition exec_EndForCompose :: "nat \<Rightarrow> vm \<Rightarrow> exc + vm" where
  "exec_EndForCompose stack s =
    (case loop_source s of
       None \<Rightarrow> Inl (TypeError ''no loop source'')
     | Some ls \<Rightarrow>
         on_ok (pop_composed (get_stack s stack) (iterations ls))
           (\<lambda>(v, rest). Inr (exec_EndFor (vm_push (set_stack s stack rest) stack v))))"

text \<open>
  \<open>OpCode.SetNodeScope\<close>: the scope is the attribute dictionary of the single node on top of
  the stack, un-shared first.
\<close>

definition exec_SetNodeScope :: "nat \<Rightarrow> vm \<Rightarrow> exc + vm" where
  "exec_SetNodeScope stack s =
    on_ok (vm_peek s stack) (\<lambda>r1.
      case r1 of
        Objects [ONode a] \<Rightarrow>
          (let st = store s;
               st1 = (if attributes_shared (nodes st a)
                      then st\<lparr>dicts := (dicts st)(next_addr st := dicts st (attributes (nodes st a))),
                             nodes := (nodes st)(a := (nodes st a)\<lparr>attributes := next_addr st,
                                                                   attributes_shared := False\<rparr>),
                             next_addr := Suc (next_addr st)\<rparr>
                      else st)
           in Inr (s\<lparr>store := st1, node_scope := Some (attributes (nodes st1 a))\<rparr>))
      | _ \<Rightarrow> Inr s)"

text \<open>\<open>OpCode.Search\<close> and \<open>OpCode.AppendRoot\<close>.\<close>

definition exec_Search :: "host \<Rightarrow> query \<Rightarrow> nat \<Rightarrow> vm \<Rightarrow> vm" where
  "exec_Search h q stack s =
    (let values = graph_search h (graph (ctx s)) q (store s)
     in vm_push s stack (if values \<noteq> [] then Objects values else null_vector))"

definition append_root_step :: "host \<Rightarrow> nat \<Rightarrow> heap \<Rightarrow> obj \<Rightarrow> heap" where
  "append_root_step h root_addr st x =
    (case x of
       ONode a \<Rightarrow> (if node_parent (nodes st a) = None then node_append h root_addr a st else st)
     | _ \<Rightarrow> st)"

definition exec_AppendRoot :: "host \<Rightarrow> nat \<Rightarrow> vm \<Rightarrow> exc + vm" where
  "exec_AppendRoot h stack s =
    on_ok (vm_pop s stack) (\<lambda>(r1, s1).
      case r1 of
        Objects os \<Rightarrow>
          Inr (s1\<lparr>store := foldl (append_root_step h (graph (ctx s1))) (store s1) os\<rparr>)
      | Numeric ns \<Rightarrow> Inr s1)"

subsection \<open>The dispatch loop\<close>

text \<open>
  \<open>step\<close> is the body of the \<open>while\<close> loop of \<open>Program._execute\<close> after the fetch and
  \<open>pc += 1\<close>: the dispatch on the opcode.  An exception leaves the loop; the \<open>except\<close> clause
  logs the five instructions before \<open>pc\<close> and raises it again, so it is the result of the
  run.
\<close>

definition step :: "executor \<Rightarrow> host \<Rightarrow> nat \<Rightarrow> nat \<Rightarrow> instr \<Rightarrow> vm \<Rightarrow> exc + vm" where
  "step exec h stack lvars instruction s =
    (case instruction of
       Op_Dup \<Rightarrow> on_ok (vm_peek s stack) (\<lambda>v. Inr (vm_push s stack v))
     | Op_Drop n \<Rightarrow> Inr (set_stack s stack (drop_stack (get_stack s stack) n))
     | Op_Label l \<Rightarrow> Inr s
     | Op_Jump l off \<Rightarrow> Inr (s\<lparr>pc := pc s + off\<rparr>)
     | Op_BranchTrue l off \<Rightarrow>
         on_ok (vm_pop s stack) (\<lambda>(v, s1). Inr (if as_bool h v then s1\<lparr>pc := pc s1 + off\<rparr> else s1))
     | Op_BranchFalse l off \<Rightarrow>
         on_ok (vm_pop s stack) (\<lambda>(v, s1). Inr (if \<not> as_bool h v then s1\<lparr>pc := pc s1 + off\<rparr> else s1))
     | Op_Pragma name \<Rightarrow>
         on_ok (vm_pop s stack)
           (\<lambda>(v, s1). Inr (s1\<lparr>ctx := (ctx s1)\<lparr>pragmas := (pragmas (ctx s1))(name \<mapsto> v)\<rparr>\<rparr>))
     | Op_Import names \<Rightarrow> exec_Import exec h names stack lvars s
     | Op_Literal v \<Rightarrow> Inr (vm_push s stack v)
     | Op_LiteralNode a \<Rightarrow>
         (let (copy_addr, st) = node_copy h a (store s)
          in Inr (vm_push (s\<lparr>store := st\<rparr>) stack (Objects [ONode copy_addr])))
     | Op_LiteralNodes v \<Rightarrow>
         (let (v1, st) = copynodes h v (store s) in Inr (vm_push (s\<lparr>store := st\<rparr>) stack v1))
     | Op_LocalDrop n \<Rightarrow> exec_LocalDrop n lvars s
     | Op_LocalLoad k \<Rightarrow>
         on_ok (peek_at (get_stack s lvars) k) (\<lambda>v.
           let (v1, st) = copynodes h v (store s) in Inr (vm_push (s\<lparr>store := st\<rparr>) stack v1))
     | Op_LocalPush n \<Rightarrow> exec_LocalPush h n stack lvars s
     | Op_Name name \<Rightarrow> Inr (exec_Name h name stack s)
     | Op_Lookup \<Rightarrow> on_ok (vm_peek s stack) (\<lambda>key. vm_poke s stack (state_lookup s key))
     | Op_LookupLiteral key \<Rightarrow> Inr (vm_push s stack (state_lookup s key))
     | Op_Range \<Rightarrow>
         on_ok (vm_pop s stack) (\<lambda>(r3, s1).
           on_ok (vm_pop s1 stack) (\<lambda>(r2, s2).
             on_ok (vm_peek s2 stack) (\<lambda>start. vm_poke s2 stack (fill_range h start r2 r3))))
     | Op_Neg \<Rightarrow> unary_op (vneg h) stack s
     | Op_Pos \<Rightarrow>
         on_ok (vm_peek s stack) (\<lambda>v. if is_numeric v then Inr s else vm_poke s stack null_vector)
     | Op_Not \<Rightarrow> unary_op (\<lambda>v. if as_bool h v then false_vector else true_vector) stack s
     | Op_Add \<Rightarrow> binary_op (vadd h) stack s
     | Op_Sub \<Rightarrow> binary_op (vsub h) stack s
     | Op_Mul \<Rightarrow> binary_op (vmul h) stack s
     | Op_MulAdd \<Rightarrow>
         on_ok (vm_pop s stack) (\<lambda>(r2, s1).
           on_ok (vm_pop s1 stack) (\<lambda>(r1, s2).
             on_ok (vm_peek s2 stack) (\<lambda>v. vm_poke s2 stack (mul_add h v r1 r2))))
     | Op_TrueDiv \<Rightarrow> binary_op (truediv h) stack s
     | Op_FloorDiv \<Rightarrow> binary_op (floordiv h) stack s
     | Op_Mod \<Rightarrow> binary_op (vmod h) stack s
     | Op_Pow \<Rightarrow> binary_op (vpow h) stack s
     | Op_Eq \<Rightarrow> binary_op (veq h) stack s
     | Op_Ne \<Rightarrow> binary_op (vne h) stack s
     | Op_Gt \<Rightarrow> binary_op (vgt h) stack s
     | Op_Lt \<Rightarrow> binary_op (vlt h) stack s
     | Op_Ge \<Rightarrow> binary_op (vge h) stack s
     | Op_Le \<Rightarrow> binary_op (vle h) stack s
     | Op_Xor \<Rightarrow>
         on_ok (vm_pop s stack) (\<lambda>(r2, s1).
           on_ok (vm_peek s1 stack) (\<lambda>r1.
             if \<not> as_bool h r1 then vm_poke s1 stack r2
             else if as_bool h r2 then vm_poke s1 stack false_vector
             else Inr s1))
     | Op_Slice \<Rightarrow> binary_op (vslice h) stack s
     | Op_SliceLiteral index \<Rightarrow> unary_op (\<lambda>v. vslice h v index) stack s
     | Op_IndexLiteral i \<Rightarrow> unary_op (\<lambda>v. item h v i) stack s
     | Op_Call n names \<Rightarrow> exec_Call exec h n names stack s
     | Op_CallFast f n \<Rightarrow> exec_CallFast h f n stack s
     | Op_Func fn params \<Rightarrow> exec_Func fn params stack lvars s
     | Op_Tag name \<Rightarrow> exec_Tag name stack s
     | Op_Attribute name \<Rightarrow> exec_Attribute name stack s
     | Op_Append m \<Rightarrow> exec_Append h m stack s
     | Op_Prepend \<Rightarrow> exec_Prepend h stack s
     | Op_Compose m \<Rightarrow>
         on_ok (pop_composed (get_stack s stack) m)
           (\<lambda>(v, rest). Inr (vm_push (set_stack s stack rest) stack v))
     | Op_BeginFor \<Rightarrow> exec_BeginFor stack s
     | Op_Next l off n \<Rightarrow> exec_Next h off n lvars s
     | Op_PushNext l off \<Rightarrow> exec_PushNext h off stack s
     | Op_EndFor \<Rightarrow> Inr (exec_EndFor s)
     | Op_EndForCompose \<Rightarrow> exec_EndForCompose stack s
     | Op_SetNodeScope \<Rightarrow> exec_SetNodeScope stack s
     | Op_ClearNodeScope \<Rightarrow> Inr (s\<lparr>node_scope := None\<rparr>)
     | Op_StoreGlobal name \<Rightarrow>
         on_ok (vm_pop s stack)
           (\<lambda>(v, s1). Inr (s1\<lparr>ctx := (ctx s1)\<lparr>variables := (variables (ctx s1))(name \<mapsto> v)\<rparr>\<rparr>))
     | Op_Search q \<Rightarrow> Inr (exec_Search h q stack s)
     | Op_AppendRoot \<Rightarrow> exec_AppendRoot h stack s)"

text \<open>
  The \<open>while\<close> loop, with fuel: each instruction executed costs one unit.  After the loop,
  \<open>assert pc == program_end\<close>.
\<close>

fun execute_loop ::
  "nat \<Rightarrow> executor \<Rightarrow> host \<Rightarrow> instr list \<Rightarrow> nat \<Rightarrow> nat \<Rightarrow> vm \<Rightarrow> exc + vm" where
  "execute_loop 0 exec h instrs stack lvars s =
    (if 0 \<le> pc s \<and> pc s < int (length instrs) then Inl Diverges
     else if pc s = int (length instrs) then Inr s
     else Inl (AssertionError ''Jump outside of program''))"
| "execute_loop (Suc fuel) exec h instrs stack lvars s =
    (if 0 \<le> pc s \<and> pc s < int (length instrs)
     then on_ok (step exec h stack lvars (instrs ! nat (pc s)) (s\<lparr>pc := pc s + 1\<rparr>))
            (execute_loop fuel exec h instrs stack lvars)
     else if pc s = int (length instrs) then Inr s
     else Inl (AssertionError ''Jump outside of program''))"

text \<open>
  \<open>Program._execute\<close>: the assertion that the program is linked, the fresh locals of the
  invocation, the loop.
\<close>

definition execute_body :: "nat \<Rightarrow> executor \<Rightarrow> host \<Rightarrow> executor" where
  "execute_body fuel exec h self stack lvars cs =
    (if \<not> linked self then Inl (AssertionError ''Program has not been linked'')
     else on_ok (execute_loop fuel exec h (instructions self) stack lvars
                  \<lparr>ctx = fst cs, store = snd cs, pc = 0, node_scope = None,
                   loop_source = None, loop_sources = []\<rparr>)
            (\<lambda>s. Inr (ctx s, store s)))"

text \<open>
  The executor with fuel \<open>n\<close>: nested invocations (function bodies, imported modules) run with
  the fuel that is left for them.
\<close>

primrec execute :: "nat \<Rightarrow> host \<Rightarrow> executor" where
  "execute 0 h = (\<lambda>self stack lvars cs. Inl Diverges)"
| "execute (Suc fuel) h = execute_body (Suc fuel) (execute fuel h) h"

text \<open>
  \<open>Program.run\<close>: a new context for the given state and variables, with a new root node for
  the graph; the run uses the program's own stacks, and both must be empty afterwards.
  \<open>root_addr\<close> is the address of the root node and \<open>st\<close> the store.
\<close>

definition run ::
  "nat \<Rightarrow> host \<Rightarrow> program \<Rightarrow> (vector \<rightharpoonup> vector) \<Rightarrow> (string \<rightharpoonup> vector) \<Rightarrow> nat \<Rightarrow> heap
    \<Rightarrow> exc + (Context \<times> heap)" where
  "run fuel h self run_state run_variables root_addr st =
    (let c = \<lparr>state = run_state, variables = run_variables, graph = root_addr,
               pragmas = Map.empty, errors = {}, logs = {}, context_path = path self,
               parents = []\<rparr>;
         pstack = next_addr st;
         plvars = Suc (next_addr st);
         st1 = st\<lparr>stacks := (stacks st)(pstack := [], plvars := []),
                  next_addr := Suc (Suc (next_addr st))\<rparr>
     in on_ok (execute fuel h self pstack plvars (c, st1)) (\<lambda>(c1, st2).
          if stacks st2 pstack \<noteq> [] then Inl (AssertionError ''Bad stack'')
          else if stacks st2 plvars \<noteq> [] then Inl (AssertionError ''Bad lvars'')
          else Inr (c1, st2)))"

subsection \<open>Example programs\<close>

text \<open>
  A store with one \<open>Function\<close>, at address \<open>3\<close>, whose locals stack is at address \<open>4\<close>; its single
  parameter \<open>n\<close> has the default \<open>null_\<close>.  The caller's value stack is at address \<open>0\<close>.
\<close>

definition function_heap :: "program \<Rightarrow> heap" where
  "function_heap body = empty_heap\<lparr>
     funcs := (funcs empty_heap)(3 := \<lparr>fname = ''f'', parameters = [''n''],
                defaults = [null_vector], fprogram = body, flvars = 4, root_path = None\<rparr>),
     next_addr := 10\<rparr>"

text \<open>
  Two modules that import \<open>y\<close> from each other, as \<open>Top._compile\<close> lays them out
  (\<open>import y from ...\<close> at top level), and the host whose loader knows them.
\<close>

definition module_A :: program where
  "module_A = Program [Op_Literal (Objects [OStr ''b.fl'']), Op_Import [''y''],
     Op_LocalLoad 0, Op_StoreGlobal ''y'', Op_LocalDrop 1] True (Some ''a.fl'')"

definition module_B :: program where
  "module_B = Program [Op_Literal (Objects [OStr ''a.fl'']), Op_Import [''y''],
     Op_LocalLoad 0, Op_StoreGlobal ''y'', Op_LocalDrop 1] True (Some ''b.fl'')"

definition mutual_host :: host where
  "mutual_host = example_host\<lparr>read_flitter_program :=
     (\<lambda>filename root_path. if filename = ''a.fl'' then Some module_A
        else if filename = ''b.fl'' then Some module_B else None)\<rparr>"

text \<open>An error message \<^emph>\<open>matches\<close> \<open>Circular import\<close> when it starts with these words.\<close>

definition matches_circular :: "string \<Rightarrow> bool" where
  "matches_circular msg = (take 15 msg = ''Circular import'')"

section \<open>The abstract syntax tree\<close>

text \<open>
  One constructor for each class of expression.  The subclasses of \<open>UnaryOperation\<close> and of
  \<open>BinaryOperation\<close> share their fields and are told apart by a tag.  A \<open>Binding\<close> is a pair of
  a name and an expression (the expression of a parameter may be absent), a \<open>PolyBinding\<close> a
  pair of a list of names and an expression, a \<open>Test\<close> a pair of a condition and a branch.
  \<open>StoreGlobal\<close> is a subclass of \<open>Let\<close>, \<open>FunctionName\<close> of \<open>Name\<close>, \<open>InlineSequence\<close> of
  \<open>Sequence\<close>, \<open>FastAttributes\<close> of \<open>Attributes\<close> and \<open>Prepend\<close> of \<open>Append\<close>; \<open>Tag\<close>,
  \<open>Attributes\<close> and \<open>Append\<close> are the subclasses of \<open>NodeModifier\<close>.
\<close>

datatype unary_class = Negative | Positive | Not_op

datatype binary_class =
    Add | Subtract | Multiply | Divide | FloorDivide | Modulo | Power
  | EqualTo | NotEqualTo | LessThan | GreaterThan | LessThanOrEqualTo | GreaterThanOrEqualTo
  | And | Or | Xor

datatype (plugins only: code size) expr =
    Top "expr list"
  | Pragma string expr
  | Import "string list" expr
  | Sequence "expr list"
  | InlineSequence "expr list"
  | Literal_expr vector
  | Name string
  | FunctionName string
  | Lookup expr
  | LookupLiteral vector
  | Range_expr expr expr expr
  | UnaryOperation unary_class expr
  | BinaryOperation binary_class expr expr
  | Slice expr expr
  | FastSlice expr vector
  | Call expr "expr list" "(string \<times> expr) list option"
  | Tag expr string
  | Attributes expr "(string \<times> expr) list"
  | FastAttributes expr "(string \<times> expr) list"
  | Search query
  | Append expr expr
  | Prepend expr expr
  | Let_expr "(string list \<times> expr) list"
  | StoreGlobal "(string list \<times> expr) list"
  | InlineLet expr "(string list \<times> expr) list"
  | For "string list" expr expr
  | IfElse "(expr \<times> expr) list" "expr option"
  | Function_expr string "(string \<times> expr option) list" expr

subsection \<open>Compiling the root expression\<close>

text \<open>The tests \<open>isinstance(expr, NodeModifier)\<close> and \<open>isinstance(expr, (Let, Import, Function))\<close>.\<close>

fun is_NodeModifier :: "expr \<Rightarrow> bool" where
  "is_NodeModifier (Tag node tag) = True"
| "is_NodeModifier (Attributes node bindings) = True"
| "is_NodeModifier (FastAttributes node bindings) = True"
| "is_NodeModifier (Append node children) = True"
| "is_NodeModifier (Prepend node children) = True"
| "is_NodeModifier e = False"

fun is_Let_Import_Function :: "expr \<Rightarrow> bool" where
  "is_Let_Import_Function (Let_expr bindings) = True"
| "is_Let_Import_Function (StoreGlobal bindings) = True"
| "is_Let_Import_Function (Import names filename) = True"
| "is_Let_Import_Function (Function_expr name params body) = True"
| "is_Let_Import_Function e = False"

text \<open>The test \<open>isinstance(expr, (Let, Import, Function, Pragma))\<close>.\<close>

fun is_Let_Import_Function_Pragma :: "expr \<Rightarrow> bool" where
  "is_Let_Import_Function_Pragma (Pragma name e) = True"
| "is_Let_Import_Function_Pragma e = is_Let_Import_Function e"

fun is_Search :: "expr \<Rightarrow> bool" where
  "is_Search (Search q) = True"
| "is_Search e = False"

text \<open>The test \<open>isinstance(expr, Literal)\<close> and the field \<open>value\<close> read after it.\<close>

fun is_Literal_expr :: "expr \<Rightarrow> bool" where
  "is_Literal_expr (Literal_expr v) = True"
| "is_Literal_expr e = False"

fun literal_value :: "expr \<Rightarrow> vector" where
  "literal_value (Literal_expr v) = v"
| "literal_value e = null_vector"

text \<open>
  \<open>NodeModifier.ultimate_node\<close>: follow the \<open>node\<close> field while it is a \<open>NodeModifier\<close>.  For a
  \<open>NodeModifier\<close> this is the loop started at its own \<open>node\<close>.
\<close>

fun ultimate_node :: "expr \<Rightarrow> expr" where
  "ultimate_node (Tag node tag) = ultimate_node node"
| "ultimate_node (Attributes node bindings) = ultimate_node node"
| "ultimate_node (FastAttributes node bindings) = ultimate_node node"
| "ultimate_node (Append node children) = ultimate_node node"
| "ultimate_node (Prepend node children) = ultimate_node node"
| "ultimate_node e = e"

text \<open>
  Modelled from the spec: \<open>Program.extend\<close>, which is not among the sources; the compiler
  produces one linear instruction list, so \<open>extend\<close> appends the instructions of the
  sub-program.  (In the revision of the tree whose \<open>_compile\<close> writes into the program it is
  given, the children append to that one program.)

  \<open>Top._compile\<close>.  The method \<open>expr._compile(lvars)\<close> of a child is the parameter \<open>cmp\<close>: it
  returns the child's instructions and the list \<open>lvars\<close> as the call leaves it.
  \<open>top_tail\<close> is what the loop emits after a child: \<open>Drop 1\<close> for a node modifier over a search,
  \<open>AppendRoot\<close> for any other child that the second \<open>isinstance\<close> test does not name.  The two
  revisions of the tree among the sources differ in that test and in nothing else of this
  method: it names \<open>(Let, Import, Function)\<close> in the revision whose \<open>_compile\<close> returns a
  program, and \<open>(Let, Import, Function, Pragma)\<close> in the revision whose \<open>_compile\<close> writes into
  the program it is given.  The test is the parameter \<open>exempt\<close>.
\<close>

type_synonym compiler = "expr \<Rightarrow> string list \<Rightarrow> exc + (instr list \<times> string list)"

definition top_tail :: "(expr \<Rightarrow> bool) \<Rightarrow> expr \<Rightarrow> instr list" where
  "top_tail exempt e =
    (if is_NodeModifier e \<and> is_Search (ultimate_node e) then [Op_Drop 1]
     else if \<not> exempt e then [Op_AppendRoot]
     else [])"

fun Top_children :: "compiler \<Rightarrow> (expr \<Rightarrow> bool) \<Rightarrow> expr list \<Rightarrow> string list
    \<Rightarrow> exc + (instr list \<times> string list)" where
  "Top_children cmp exempt [] lvars = Inr ([], lvars)"
| "Top_children cmp exempt (e # es) lvars =
    on_ok (cmp e lvars) (\<lambda>(code, lvars1).
      on_ok (Top_children cmp exempt es lvars1) (\<lambda>(rest, lvars2).
        Inr (code @ top_tail exempt e @ rest, lvars2)))"

definition store_globals :: "string list \<Rightarrow> instr list" where
  "store_globals lvars =
    concat (map (\<lambda>(i, name). [Op_LocalLoad (int i), Op_StoreGlobal name])
              (zip [0..<length lvars] (rev lvars)))
    @ (if lvars \<noteq> [] then [Op_LocalDrop (int (length lvars))] else [])"

definition Top_compile :: "compiler \<Rightarrow> (expr \<Rightarrow> bool) \<Rightarrow> expr list \<Rightarrow> string list
    \<Rightarrow> exc + instr list" where
  "Top_compile cmp exempt expressions lvars =
    on_ok (Top_children cmp exempt expressions lvars)
      (\<lambda>(code, lvars1). Inr (code @ store_globals lvars1))"

text \<open>
  The codes of the children as \<open>Top._compile\<close> obtains them, each child compiled with the
  \<open>lvars\<close> the children before it have left.
\<close>

fun child_codes :: "compiler \<Rightarrow> expr list \<Rightarrow> string list \<Rightarrow> instr list list" where
  "child_codes cmp [] lvars = []"
| "child_codes cmp (e # es) lvars =
    (case cmp e lvars of
       Inl err \<Rightarrow> []
     | Inr (code, lvars1) \<Rightarrow> code # child_codes cmp es lvars1)"

subsection \<open>Compiling expressions\<close>

text \<open>
  \<open>Program.literal\<close>: a single node becomes \<open>LiteralNode\<close>, a longer vector that holds a node
  \<open>LiteralNodes\<close>, anything else \<open>Literal\<close>.
\<close>

definition is_Node :: "obj \<Rightarrow> bool" where
  "is_Node x = (case x of ONode a \<Rightarrow> True | _ \<Rightarrow> False)"

definition program_literal :: "vector \<Rightarrow> instr" where
  "program_literal v =
    (case v of
       Objects [ONode a] \<Rightarrow> Op_LiteralNode a
     | Objects os \<Rightarrow>
         (if length os \<noteq> 1 \<and> list_ex is_Node os then Op_LiteralNodes v else Op_Literal v)
     | Numeric ns \<Rightarrow> Op_Literal v)"

text \<open>
  \<open>Name._compile\<close>: the innermost local of that name, by its depth from the top of \<open>lvars\<close>,
  or a lookup by name.
\<close>

fun name_depth :: "string \<Rightarrow> string list \<Rightarrow> nat option" where
  "name_depth name [] = None"
| "name_depth name (x # xs) =
    (if name = x then Some 0 else map_option Suc (name_depth name xs))"

definition compile_Name :: "string \<Rightarrow> string list \<Rightarrow> instr" where
  "compile_Name name lvars =
    (case name_depth name (rev lvars) of
       Some i \<Rightarrow> Op_LocalLoad (int i)
     | None \<Rightarrow> Op_Name name)"

text \<open>
  \<open>_compile\<close> for the classes that emit no label: \<open>Pragma\<close>, \<open>Import\<close>, \<open>Literal\<close>, \<open>Name\<close>,
  \<open>FunctionName\<close>, \<open>Lookup\<close>, \<open>LookupLiteral\<close>, \<open>Search\<close>, \<open>Tag\<close>, \<open>FastAttributes\<close>, \<open>Append\<close>,
  \<open>Prepend\<close>, \<open>Let\<close> and \<open>StoreGlobal\<close>, and for \<open>Attributes\<close> on a literal of length one, which
  emits none either.  The method of every other class, and \<open>Attributes\<close> in its loop form, is
  the parameter \<open>other\<close>.  \<open>compile_polybindings\<close> is the loop of \<open>Let._compile\<close> and, with \<open>global\<close>, of
  \<open>StoreGlobal._compile\<close>; \<open>compile_bindings\<close> the loop over attribute bindings.
\<close>

fun compile_expr :: "compiler \<Rightarrow> expr \<Rightarrow> string list \<Rightarrow> exc + (instr list \<times> string list)"
and compile_polybindings ::
  "compiler \<Rightarrow> bool \<Rightarrow> (string list \<times> expr) list \<Rightarrow> string list
    \<Rightarrow> exc + (instr list \<times> string list)"
and compile_bindings ::
  "compiler \<Rightarrow> (string \<times> expr) list \<Rightarrow> string list \<Rightarrow> exc + (instr list \<times> string list)"
where
  "compile_expr other (Pragma name e) lvars =
    on_ok (compile_expr other e lvars) (\<lambda>(code, lvars1). Inr (code @ [Op_Pragma name], lvars1))"
| "compile_expr other (Import names filename) lvars =
    on_ok (compile_expr other filename lvars)
      (\<lambda>(code, lvars1). Inr (code @ [Op_Import names], lvars1 @ names))"
| "compile_expr other (Literal_expr v) lvars = Inr ([program_literal v], lvars)"
| "compile_expr other (Name name) lvars = Inr ([compile_Name name lvars], lvars)"
| "compile_expr other (FunctionName name) lvars = Inr ([compile_Name name lvars], lvars)"
| "compile_expr other (Lookup key) lvars =
    on_ok (compile_expr other key lvars) (\<lambda>(code, lvars1). Inr (code @ [Op_Lookup], lvars1))"
| "compile_expr other (LookupLiteral key) lvars = Inr ([Op_LookupLiteral key], lvars)"
| "compile_expr other (Search q) lvars = Inr ([Op_Search q], lvars)"
| "compile_expr other (Tag node tag) lvars =
    on_ok (compile_expr other node lvars) (\<lambda>(code, lvars1). Inr (code @ [Op_Tag tag], lvars1))"
| "compile_expr other (Attributes node bindings) lvars =
    (if is_Literal_expr node \<and> vlength (literal_value node) = 1
     then on_ok (compile_expr other node lvars) (\<lambda>(code, lvars1).
            on_ok (compile_bindings other bindings lvars1) (\<lambda>(code2, lvars2).
              Inr (code @ [Op_SetNodeScope] @ code2 @ [Op_ClearNodeScope], lvars2)))
     else other (Attributes node bindings) lvars)"
| "compile_expr other (FastAttributes node bindings) lvars =
    on_ok (compile_expr other node lvars) (\<lambda>(code, lvars1).
      on_ok (compile_bindings other bindings lvars1) (\<lambda>(code2, lvars2).
        Inr (code @ code2, lvars2)))"
| "compile_expr other (Append node children) lvars =
    on_ok (compile_expr other node lvars) (\<lambda>(code, lvars1).
      on_ok (compile_expr other children lvars1) (\<lambda>(code2, lvars2).
        Inr (code @ code2 @ [Op_Append 1], lvars2)))"
| "compile_expr other (Prepend node children) lvars =
    on_ok (compile_expr other node lvars) (\<lambda>(code, lvars1).
      on_ok (compile_expr other children lvars1) (\<lambda>(code2, lvars2).
        Inr (code @ code2 @ [Op_Prepend], lvars2)))"
| "compile_expr other (Let_expr bindings) lvars = compile_polybindings other False bindings lvars"
| "compile_expr other (StoreGlobal bindings) lvars = compile_polybindings other True bindings lvars"
| "compile_expr other e lvars = other e lvars"
| "compile_polybindings other global [] lvars = Inr ([], lvars)"
| "compile_polybindings other global ((names, e) # bs) lvars =
    on_ok (compile_expr other e lvars) (\<lambda>(code, lvars1).
      if global \<and> length names \<noteq> 1 then Inl (AssertionError ''StoreGlobal cannot multi-bind'')
      else on_ok (compile_polybindings other global bs (if global then lvars1 else lvars1 @ names))
             (\<lambda>(rest, lvars2).
                Inr (code @ [if global then Op_StoreGlobal (hd names)
                             else Op_LocalPush (int (length names))] @ rest, lvars2)))"
| "compile_bindings other [] lvars = Inr ([], lvars)"
| "compile_bindings other ((name, e) # bs) lvars =
    on_ok (compile_expr other e lvars) (\<lambda>(code, lvars1).
      on_ok (compile_bindings other bs lvars1) (\<lambda>(rest, lvars2).
        Inr (code @ [Op_Attribute name] @ rest, lvars2)))"

text \<open>The method of a class outside this list, for examples: it is never reached there.\<close>

definition no_compiler :: compiler where
  "no_compiler e lvars = Inl (ValueError ''class not compiled here'')"

definition example_query :: query where
  "example_query = Query (Some ''dot'') [] False False False None None"

section \<open>Partial evaluation\<close>

text \<open>
  The partial evaluator works on a \<open>Context\<close> of which it uses \<open>state\<close> (absent when
  \<open>simplify\<close> is given none), \<open>variables\<close>, \<open>unbound\<close> and \<open>errors\<close>.  Its \<open>variables\<close> is a
  Python dictionary read in insertion order by \<open>Top.evaluate\<close>, so it is an association list;
  a name is bound to \<open>None\<close>, to a \<open>Vector\<close>, or to an expression (a \<open>Name\<close> that it aliases, or a
  \<open>Function\<close>).  The nodes that literals hold live in the store.
\<close>

datatype binding_value = NoValue | VectorValue vector | ExprValue expr

record EvalContext =
  e_state :: "(vector \<rightharpoonup> vector) option"
  e_variables :: "(string \<times> binding_value) list"
  unbound :: "string set option"
  e_errors :: "string set"
  e_store :: heap

text \<open>
  What the evaluator uses of the modules that are not among the sources: the value that the
  constructor of \<open>Context\<close> gives to \<open>unbound\<close>, and the methods \<open>add_tag\<close>, \<open>__setitem__\<close>,
  \<open>__iter__\<close> and \<open>__getitem__\<close> of \<open>Node\<close>.  They are parameters.
\<close>

record tree_host =
  default_unbound :: "string set option"
  add_tag :: "nat \<Rightarrow> string \<Rightarrow> heap \<Rightarrow> heap"
  node_setitem :: "nat \<Rightarrow> string \<Rightarrow> vector \<Rightarrow> heap \<Rightarrow> heap"
  node_keys :: "nat \<Rightarrow> heap \<Rightarrow> string list"
  node_getitem :: "nat \<Rightarrow> string \<Rightarrow> heap \<Rightarrow> vector"

text \<open>\<open>d[k] = v\<close> on a dictionary: an existing key keeps its place, a new one goes last.\<close>

fun dict_set :: "string \<Rightarrow> 'v \<Rightarrow> (string \<times> 'v) list \<Rightarrow> (string \<times> 'v) list" where
  "dict_set k v [] = [(k, v)]"
| "dict_set k v ((k1, v1) # d) = (if k1 = k then (k, v) # d else (k1, v1) # dict_set k v d)"

type_synonym evaluator = "expr \<Rightarrow> EvalContext \<Rightarrow> exc + (expr \<times> EvalContext)"

text \<open>The tests \<open>isinstance(expr, Name)\<close> and \<open>isinstance(value, Function)\<close>, and the field \<open>name\<close>.\<close>

fun is_Name :: "expr \<Rightarrow> bool" where
  "is_Name (Name name) = True"
| "is_Name (FunctionName name) = True"
| "is_Name e = False"

fun name_of :: "expr \<Rightarrow> string" where
  "name_of (Name name) = name"
| "name_of (FunctionName name) = name"
| "name_of e = []"

fun is_Function :: "expr \<Rightarrow> bool" where
  "is_Function (Function_expr name params body) = True"
| "is_Function e = False"

definition NoOp :: expr where
  "NoOp = Literal_expr null_vector"

text \<open>
  The field \<open>objects\<close> of a vector, and \<open>Vector.isinstance(Node)\<close>: every element is a node.
\<close>

definition objects_of :: "vector \<Rightarrow> obj list" where
  "objects_of v = (case v of Objects os \<Rightarrow> os | Numeric ns \<Rightarrow> [])"

definition isinstance_Node :: "vector \<Rightarrow> bool" where
  "isinstance_Node v = (case v of Objects os \<Rightarrow> os \<noteq> [] \<and> list_all is_Node os | Numeric ns \<Rightarrow> False)"

text \<open>
  \<open>Literal.evaluate\<close>: the flag \<open>copynodes\<close> of a literal is set by its constructor when one of
  the objects is a node.
\<close>

definition has_nodes :: "vector \<Rightarrow> bool" where
  "has_nodes v = list_ex is_Node (objects_of v)"

definition Literal_evaluate :: "host \<Rightarrow> vector \<Rightarrow> EvalContext \<Rightarrow> expr \<times> EvalContext" where
  "Literal_evaluate h v c =
    (if has_nodes v
     then (let (v1, st) = copynodes h v (e_store c) in (Literal_expr v1, c\<lparr>e_store := st\<rparr>))
     else (Literal_expr v, c))"

text \<open>
  \<open>Name.evaluate\<close>, which \<open>FunctionName\<close> inherits; \<open>self\<close> is the expression itself.  A name
  bound to a \<open>Name\<close> is an alias and is evaluated in turn, through \<open>ev\<close>.
\<close>

definition Name_evaluate :: "evaluator \<Rightarrow> host \<Rightarrow> expr \<Rightarrow> string \<Rightarrow> EvalContext
    \<Rightarrow> exc + (expr \<times> EvalContext)" where
  "Name_evaluate ev h self name c =
    (case map_of (e_variables c) name of
       Some NoValue \<Rightarrow> Inr (self, c)
     | Some (ExprValue e) \<Rightarrow>
         (if is_Function e then Inr (FunctionName name, c)
          else if is_Name e then ev e c
          else Inl (TypeError ''Cannot convert to Vector''))
     | Some (VectorValue v) \<Rightarrow>
         (let (v1, st) = copynodes h v (e_store c) in Inr (Literal_expr v1, c\<lparr>e_store := st\<rparr>))
     | None \<Rightarrow>
         (case static_builtins h name of
            Some v \<Rightarrow> Inr (Literal_expr v, c)
          | None \<Rightarrow>
              (if name \<notin> dom (dynamic_builtins h)
               then (case unbound c of
                       Some u \<Rightarrow> Inr (self, c\<lparr>unbound := Some (insert name u)\<rparr>)
                     | None \<Rightarrow>
                         Inr (NoOp, c\<lparr>e_errors := insert (unbound_name_message name) (e_errors c)\<rparr>))
               else Inr (self, c))))"

text \<open>\<open>StateDict.get_item\<close>, as the \<open>Lookup\<close> instruction reads the state.\<close>

definition get_item :: "(vector \<rightharpoonup> vector) \<Rightarrow> vector \<Rightarrow> vector" where
  "get_item s key = (case s key of Some v \<Rightarrow> v | None \<Rightarrow> null_vector)"

definition Lookup_literal :: "vector \<Rightarrow> EvalContext \<Rightarrow> expr" where
  "Lookup_literal key c =
    (case e_state c of
       Some s \<Rightarrow> Literal_expr (get_item s key)
     | None \<Rightarrow> LookupLiteral key)"

text \<open>
  The loop of \<open>Let.evaluate\<close> and of \<open>InlineLet.evaluate\<close> over the bindings; the result is the
  list \<open>remaining\<close>.
\<close>

definition bind_names :: "host \<Rightarrow> string list \<Rightarrow> expr \<Rightarrow> EvalContext \<Rightarrow> bool \<times> EvalContext" where
  "bind_names h names expr c =
    (if is_Literal_expr expr then
       (False,
        if length names = 1
        then c\<lparr>e_variables := dict_set (hd names) (VectorValue (literal_value expr)) (e_variables c)\<rparr>
        else c\<lparr>e_variables :=
               foldl (\<lambda>d (i, name). dict_set name (VectorValue (item h (literal_value expr) (int i))) d)
                 (e_variables c) (zip [0..<length names] names)\<rparr>)
     else if is_Name expr \<and> length names = 1 then
       (False,
        if name_of expr \<noteq> hd names
        then c\<lparr>e_variables := dict_set (hd names) (ExprValue expr) (e_variables c)\<rparr>
        else c)
     else
       (True, c\<lparr>e_variables := foldl (\<lambda>d name. dict_set name NoValue d) (e_variables c) names\<rparr>))"

fun Let_bindings :: "evaluator \<Rightarrow> host \<Rightarrow> (string list \<times> expr) list \<Rightarrow> EvalContext
    \<Rightarrow> exc + ((string list \<times> expr) list \<times> EvalContext)" where
  "Let_bindings ev h [] c = Inr ([], c)"
| "Let_bindings ev h ((names, e) # bs) c =
    on_ok (ev e c) (\<lambda>(expr, c1).
      let (keep, c2) = bind_names h names expr c1
      in on_ok (Let_bindings ev h bs c2) (\<lambda>(rest, c3).
           Inr ((if keep then [(names, expr)] else []) @ rest, c3)))"

text \<open>
  \<open>Tag.evaluate\<close>, \<open>Append.evaluate\<close> and \<open>Prepend.evaluate\<close> on literal nodes.
\<close>

definition add_tags :: "tree_host \<Rightarrow> string \<Rightarrow> obj list \<Rightarrow> heap \<Rightarrow> heap" where
  "add_tags t tag os st = foldl (\<lambda>st x. case x of ONode a \<Rightarrow> add_tag t a tag st | _ \<Rightarrow> st) st os"

definition append_copy :: "host \<Rightarrow> nat \<Rightarrow> heap \<Rightarrow> obj \<Rightarrow> heap" where
  "append_copy h n st x =
    (case x of ONode a \<Rightarrow> (let (a1, st1) = node_copy h a st in node_append h n a1 st1) | _ \<Rightarrow> st)"

definition insert_copy :: "host \<Rightarrow> nat \<Rightarrow> heap \<Rightarrow> obj \<Rightarrow> heap" where
  "insert_copy h n st x =
    (case x of ONode a \<Rightarrow> (let (a1, st1) = node_copy h a st in node_insert h n a1 st1) | _ \<Rightarrow> st)"

definition append_all :: "host \<Rightarrow> obj list \<Rightarrow> obj list \<Rightarrow> heap \<Rightarrow> heap" where
  "append_all h os childs st =
    foldl (\<lambda>st x. case x of ONode n \<Rightarrow> foldl (append_copy h n) st childs | _ \<Rightarrow> st) st os"

definition prepend_all :: "host \<Rightarrow> obj list \<Rightarrow> obj list \<Rightarrow> heap \<Rightarrow> heap" where
  "prepend_all h os childs st =
    foldl (\<lambda>st x. case x of ONode n \<Rightarrow> foldl (insert_copy h n) st (rev childs) | _ \<Rightarrow> st) st os"

text \<open>
  \<open>Attributes.evaluate\<close>, which \<open>FastAttributes\<close> inherits.  \<open>Attributes_flatten\<close> is the \<open>while\<close>
  loop over nested \<open>Attributes\<close> without the evaluation: the bindings in the order in which
  the loop evaluates and appends them, and the innermost node.  \<open>evaluate_bindings\<close> evaluates
  them in that order.  After it, the Python list \<open>bindings\<close> is used as a stack with its top at
  the end; the model keeps it reversed, top first, so the final \<open>bindings.reverse()\<close> is the
  list itself.
\<close>

fun Attributes_flatten :: "expr \<Rightarrow> (string \<times> expr) list \<times> expr" where
  "Attributes_flatten (Attributes node bs) =
    (let (rest, n) = Attributes_flatten node in (rev bs @ rest, n))"
| "Attributes_flatten (FastAttributes node bs) =
    (let (rest, n) = Attributes_flatten node in (rev bs @ rest, n))"
| "Attributes_flatten e = ([], e)"

fun evaluate_bindings :: "evaluator \<Rightarrow> (string \<times> expr) list \<Rightarrow> EvalContext
    \<Rightarrow> exc + ((string \<times> expr) list \<times> EvalContext)" where
  "evaluate_bindings ev [] c = Inr ([], c)"
| "evaluate_bindings ev ((name, e) # bs) c =
    on_ok (ev e c) (\<lambda>(e1, c1).
      on_ok (evaluate_bindings ev bs c1) (\<lambda>(rest, c2). Inr ((name, e1) # rest, c2)))"

text \<open>The first \<open>while\<close> loop on a literal node: literal bindings on top of the stack are stored.\<close>

definition setitem_all :: "tree_host \<Rightarrow> obj list \<Rightarrow> string \<Rightarrow> vector \<Rightarrow> heap \<Rightarrow> heap" where
  "setitem_all t os name v st =
    foldl (\<lambda>st x. case x of ONode a \<Rightarrow> node_setitem t a name v st | _ \<Rightarrow> st) st os"

fun set_literal_bindings :: "tree_host \<Rightarrow> obj list \<Rightarrow> (string \<times> expr) list \<Rightarrow> heap
    \<Rightarrow> (string \<times> expr) list \<times> heap" where
  "set_literal_bindings t os [] st = ([], st)"
| "set_literal_bindings t os ((name, e) # stack) st =
    (if is_Literal_expr e
     then set_literal_bindings t os stack (setitem_all t os name (literal_value e) st)
     else ((name, e) # stack, st))"

text \<open>
  The attributes of the single node \<open>n\<close> join the scope: \<open>for attr in n\<close> adds those that are not
  variables already.
\<close>

definition node_scope_variables :: "tree_host \<Rightarrow> nat \<Rightarrow> heap \<Rightarrow> (string \<times> binding_value) list
    \<Rightarrow> (string \<times> binding_value) list" where
  "node_scope_variables t n st vars =
    foldl (\<lambda>d attr. if map_of d attr = None
                     then dict_set attr (VectorValue (node_getitem t n attr st)) d else d)
      vars (node_keys t n st)"

text \<open>
  The second \<open>while\<close> loop: the binding on top is evaluated again in the node's scope; a literal
  is stored and joins the scope, anything else is pushed back and ends the loop.
\<close>

fun scoped_bindings :: "evaluator \<Rightarrow> tree_host \<Rightarrow> nat \<Rightarrow> (string \<times> expr) list \<Rightarrow> EvalContext
    \<Rightarrow> exc + ((string \<times> expr) list \<times> EvalContext)" where
  "scoped_bindings ev t n [] c = Inr ([], c)"
| "scoped_bindings ev t n ((name, e) # stack) c =
    on_ok (ev e c) (\<lambda>(e1, c1).
      if is_Literal_expr e1
      then scoped_bindings ev t n stack
             (c1\<lparr>e_store := node_setitem t n name (literal_value e1) (e_store c1),
                 e_variables := (if map_of (e_variables c1) name = None
                                 then dict_set name (VectorValue (literal_value e1)) (e_variables c1)
                                 else e_variables c1)\<rparr>)
      else Inr ((name, e1) # stack, c1))"

definition fold_bindings :: "evaluator \<Rightarrow> tree_host \<Rightarrow> bool \<Rightarrow> expr \<Rightarrow> (string \<times> expr) list
    \<Rightarrow> EvalContext \<Rightarrow> exc + ((string \<times> expr) list \<times> EvalContext)" where
  "fold_bindings ev t unbound_names node stack c =
    (if is_Literal_expr node \<and> isinstance_Node (literal_value node) then
       (let os = objects_of (literal_value node);
            (stack1, st1) = set_literal_bindings t os stack (e_store c);
            c1 = c\<lparr>e_store := st1\<rparr>
        in if unbound_names \<and> stack1 \<noteq> [] \<and> vlength (literal_value node) = 1 then
             (case hd os of
                ONode n \<Rightarrow>
                  on_ok (scoped_bindings ev t n stack1
                           (c1\<lparr>e_variables := node_scope_variables t n st1 (e_variables c1)\<rparr>))
                    (\<lambda>(stack2, c2). Inr (stack2, c2\<lparr>e_variables := e_variables c1\<rparr>))
              | _ \<Rightarrow> Inr (stack1, c1))
           else Inr (stack1, c1))
     else Inr (stack, c))"

definition Attributes_evaluate :: "evaluator \<Rightarrow> tree_host \<Rightarrow> expr \<Rightarrow> EvalContext
    \<Rightarrow> exc + (expr \<times> EvalContext)" where
  "Attributes_evaluate ev t self c =
    (let (bs, node) = Attributes_flatten self
     in on_ok (evaluate_bindings ev bs (c\<lparr>unbound := Some {}\<rparr>)) (\<lambda>(evaluated, c1).
          let fast = (case unbound c1 of Some u \<Rightarrow> u = {} | None \<Rightarrow> True);
              unbound_names = \<not> fast
          in on_ok (ev node (c1\<lparr>unbound := unbound c\<rparr>)) (\<lambda>(node1, c2).
               on_ok (fold_bindings ev t unbound_names node1 (rev evaluated) c2) (\<lambda>(stack, c3).
                 Inr (if stack = [] then node1
                      else if fast then FastAttributes node1 stack
                      else Attributes node1 stack, c3)))))"

text \<open>
  \<open>Top.evaluate\<close>: the children in order, an empty literal dropped; then one \<open>StoreGlobal\<close> with
  a binding for every variable that holds a vector, in the order of the dictionary.
\<close>

fun Top_expressions :: "evaluator \<Rightarrow> expr list \<Rightarrow> EvalContext \<Rightarrow> exc + (expr list \<times> EvalContext)" where
  "Top_expressions ev [] c = Inr ([], c)"
| "Top_expressions ev (e # es) c =
    on_ok (ev e c) (\<lambda>(e1, c1).
      on_ok (Top_expressions ev es c1) (\<lambda>(rest, c2).
        Inr ((if \<not> is_Literal_expr e1 \<or> vlength (literal_value e1) \<noteq> 0 then [e1] else []) @ rest,
             c2)))"

definition global_bindings :: "(string \<times> binding_value) list \<Rightarrow> (string list \<times> expr) list" where
  "global_bindings vars =
    concat (map (\<lambda>(name, value). case value of VectorValue v \<Rightarrow> [([name], Literal_expr v)] | _ \<Rightarrow> [])
              vars)"

definition Top_evaluate :: "evaluator \<Rightarrow> expr list \<Rightarrow> EvalContext \<Rightarrow> exc + (expr \<times> EvalContext)" where
  "Top_evaluate ev es c =
    on_ok (Top_expressions ev es c) (\<lambda>(expressions, c1).
      let bindings = global_bindings (e_variables c1)
      in Inr (Top (expressions @ (if bindings \<noteq> [] then [StoreGlobal bindings] else [])), c1))"

text \<open>
  \<open>evaluate\<close>, one level: the method of the class of the expression, with \<open>ev\<close> for the calls on
  sub-expressions.  The classes embedded are \<open>Top\<close>, \<open>Pragma\<close>, \<open>Import\<close>, \<open>Literal\<close>, \<open>Name\<close>,
  \<open>FunctionName\<close>, \<open>Lookup\<close>, \<open>LookupLiteral\<close>, \<open>Search\<close>, \<open>Tag\<close>, \<open>Attributes\<close>, \<open>FastAttributes\<close>,
  \<open>Append\<close>, \<open>Prepend\<close>, \<open>Let\<close>, \<open>StoreGlobal\<close> (which inherits \<open>Let.evaluate\<close> and so returns a
  \<open>Let\<close>) and \<open>InlineLet\<close>; the method of any other class is the parameter \<open>other\<close>.
\<close>

fun evaluate_step :: "evaluator \<Rightarrow> (evaluator \<Rightarrow> evaluator) \<Rightarrow> host \<Rightarrow> tree_host \<Rightarrow> evaluator" where
  "evaluate_step ev other h t (Top es) c = Top_evaluate ev es c"
| "evaluate_step ev other h t (Pragma name e) c =
    on_ok (ev e c) (\<lambda>(e1, c1). Inr (Pragma name e1, c1))"
| "evaluate_step ev other h t (Import names filename) c =
    on_ok (ev filename (c\<lparr>e_variables := foldl (\<lambda>d name. dict_set name NoValue d) (e_variables c) names\<rparr>))
      (\<lambda>(filename1, c1). Inr (Import names filename1, c1))"
| "evaluate_step ev other h t (Literal_expr v) c = Inr (Literal_evaluate h v c)"
| "evaluate_step ev other h t (Name name) c = Name_evaluate ev h (Name name) name c"
| "evaluate_step ev other h t (FunctionName name) c = Name_evaluate ev h (FunctionName name) name c"
| "evaluate_step ev other h t (Lookup key) c =
    on_ok (ev key c) (\<lambda>(key1, c1).
      Inr (if is_Literal_expr key1 then Lookup_literal (literal_value key1) c1 else Lookup key1, c1))"
| "evaluate_step ev other h t (LookupLiteral key) c = Inr (Lookup_literal key c, c)"
| "evaluate_step ev other h t (Search q) c = Inr (Search q, c)"
| "evaluate_step ev other h t (Tag node tag) c =
    on_ok (ev node c) (\<lambda>(node1, c1).
      if is_Literal_expr node1 \<and> isinstance_Node (literal_value node1)
      then Inr (node1, c1\<lparr>e_store := add_tags t tag (objects_of (literal_value node1)) (e_store c1)\<rparr>)
      else Inr (Tag node1 tag, c1))"
| "evaluate_step ev other h t (Attributes node bs) c = Attributes_evaluate ev t (Attributes node bs) c"
| "evaluate_step ev other h t (FastAttributes node bs) c =
    Attributes_evaluate ev t (FastAttributes node bs) c"
| "evaluate_step ev other h t (Append node children) c =
    on_ok (ev node c) (\<lambda>(node1, c1).
      on_ok (ev children c1) (\<lambda>(children1, c2).
        if is_Literal_expr node1 \<and> is_Literal_expr children1
           \<and> isinstance_Node (literal_value node1) \<and> isinstance_Node (literal_value children1)
        then Inr (node1, c2\<lparr>e_store := append_all h (objects_of (literal_value node1))
                                         (objects_of (literal_value children1)) (e_store c2)\<rparr>)
        else Inr (Append node1 children1, c2)))"
| "evaluate_step ev other h t (Prepend node children) c =
    on_ok (ev node c) (\<lambda>(node1, c1).
      on_ok (ev children c1) (\<lambda>(children1, c2).
        if is_Literal_expr node1 \<and> is_Literal_expr children1
           \<and> isinstance_Node (literal_value node1) \<and> isinstance_Node (literal_value children1)
        then Inr (node1, c2\<lparr>e_store := prepend_all h (objects_of (literal_value node1))
                                         (objects_of (literal_value children1)) (e_store c2)\<rparr>)
        else Inr (Prepend node1 children1, c2)))"
| "evaluate_step ev other h t (Let_expr bs) c =
    on_ok (Let_bindings ev h bs c) (\<lambda>(remaining, c1).
      Inr (if remaining \<noteq> [] then Let_expr remaining else NoOp, c1))"
| "evaluate_step ev other h t (StoreGlobal bs) c =
    on_ok (Let_bindings ev h bs c) (\<lambda>(remaining, c1).
      Inr (if remaining \<noteq> [] then Let_expr remaining else NoOp, c1))"
| "evaluate_step ev other h t (InlineLet body bs) c =
    on_ok (Let_bindings ev h bs c) (\<lambda>(remaining, c1).
      on_ok (ev body c1) (\<lambda>(body1, c2).
        Inr (if remaining \<noteq> [] then InlineLet body1 remaining else body1,
             c2\<lparr>e_variables := e_variables c\<rparr>)))"
| "evaluate_step ev other h t e c = other ev e c"

text \<open>
  \<open>evaluate\<close> with fuel: each call of the method on a sub-expression costs one unit, and a call
  chain deeper than the fuel is the value \<open>Inl Diverges\<close>.
\<close>

primrec evaluate :: "nat \<Rightarrow> (evaluator \<Rightarrow> evaluator) \<Rightarrow> host \<Rightarrow> tree_host \<Rightarrow> evaluator" where
  "evaluate 0 other h t = (\<lambda>e c. Inl Diverges)"
| "evaluate (Suc fuel) other h t = evaluate_step (evaluate fuel other h t) other h t"

text \<open>
  \<open>Top.simplify\<close>.  \<open>variables\<close> are the static variables, already vectors, and \<open>undefined\<close> the
  names of the dynamic ones.  The result is \<open>Simplified\<close> with the new tree and the store after
  the evaluation; \<open>Unchanged\<close> when the evaluation raised, where \<open>simplify\<close> returns \<open>self\<close>;
  \<open>NoReturn\<close> when the evaluation did not return.
\<close>

datatype simplified = Simplified expr heap | Unchanged | NoReturn

definition simplify :: "nat \<Rightarrow> (evaluator \<Rightarrow> evaluator) \<Rightarrow> host \<Rightarrow> tree_host \<Rightarrow> expr
    \<Rightarrow> (vector \<rightharpoonup> vector) option \<Rightarrow> (string \<times> vector) list option \<Rightarrow> string list option
    \<Rightarrow> heap \<Rightarrow> simplified" where
  "simplify fuel other h t self state_arg variables_arg undefined_arg st =
    (let vars1 = (case variables_arg of
                    Some vs \<Rightarrow> foldl (\<lambda>d (key, v). dict_set key (VectorValue v) d) [] vs
                  | None \<Rightarrow> []);
         context_vars = (case undefined_arg of
                           Some names \<Rightarrow> foldl (\<lambda>d key. dict_set key NoValue d) vars1 names
                         | None \<Rightarrow> vars1);
         c = \<lparr>e_state = state_arg, e_variables = context_vars, unbound = default_unbound t,
              e_errors = {}, e_store = st\<rparr>
     in case evaluate fuel other h t self c of
          Inl e \<Rightarrow> if e = Diverges then NoReturn else Unchanged
        | Inr (top1, c1) \<Rightarrow> Simplified top1 (e_store c1))"

text \<open>The methods of the other classes, for examples that do not reach them.\<close>

definition no_evaluator :: "evaluator \<Rightarrow> evaluator" where
  "no_evaluator ev e c = Inl (TypeError ''class not evaluated here'')"

text \<open>An example root, \<open>!node b=zz c=$k\<close> with the node at address \<open>n\<close>, and a host for examples.\<close>

definition unbound_attribute :: "nat \<Rightarrow> expr" where
  "unbound_attribute n =
    Top [Attributes (Literal_expr (Objects [ONode n]))
           [(''b'', Name ''zz''), (''c'', LookupLiteral (Objects [OStr ''k'']))]]"

definition example_tree_host :: tree_host where
  "example_tree_host = \<lparr>default_unbound = None, add_tag = (\<lambda>a tag st. st),
     node_setitem = (\<lambda>a name v st. st), node_keys = (\<lambda>a st. []),
     node_getitem = (\<lambda>a name st. null_vector)\<rparr>"

section \<open>Linking and compiling a root\<close>

text \<open>
  \<open>Program.link\<close>.  The first loop records the address of every label (a later label of the
  same number replaces an earlier one) and the jumps; the second sets the offset of every jump
  to the distance from the jump to its label, and raises \<open>KeyError\<close> for a label that does not
  occur.  The jumps are the instructions of class \<open>InstructionJump\<close>.
\<close>

definition label_addresses :: "instr list \<Rightarrow> (int \<rightharpoonup> int)" where
  "label_addresses instrs =
    foldl (\<lambda>m (address, i). case i of Op_Label l \<Rightarrow> m(l \<mapsto> int address) | _ \<Rightarrow> m)
      Map.empty (zip [0..<length instrs] instrs)"

definition jump_label :: "instr \<Rightarrow> int option" where
  "jump_label i =
    (case i of
       Op_Jump l off \<Rightarrow> Some l
     | Op_BranchTrue l off \<Rightarrow> Some l
     | Op_BranchFalse l off \<Rightarrow> Some l
     | Op_Next l off n \<Rightarrow> Some l
     | Op_PushNext l off \<Rightarrow> Some l
     | _ \<Rightarrow> None)"

definition set_offset :: "instr \<Rightarrow> int \<Rightarrow> instr" where
  "set_offset i off =
    (case i of
       Op_Jump l off0 \<Rightarrow> Op_Jump l off
     | Op_BranchTrue l off0 \<Rightarrow> Op_BranchTrue l off
     | Op_BranchFalse l off0 \<Rightarrow> Op_BranchFalse l off
     | Op_Next l off0 n \<Rightarrow> Op_Next l off n
     | Op_PushNext l off0 \<Rightarrow> Op_PushNext l off
     | _ \<Rightarrow> i)"

fun link_instructions :: "(int \<rightharpoonup> int) \<Rightarrow> int \<Rightarrow> instr list \<Rightarrow> exc + instr list" where
  "link_instructions labels address [] = Inr []"
| "link_instructions labels address (i # rest) =
    (case jump_label i of
       None \<Rightarrow> on_ok (link_instructions labels (address + 1) rest) (\<lambda>r. Inr (i # r))
     | Some l \<Rightarrow>
         (case labels l of
            None \<Rightarrow> Inl (KeyError ''label'')
          | Some target \<Rightarrow>
              on_ok (link_instructions labels (address + 1) rest)
                (\<lambda>r. Inr (set_offset i (target - address) # r))))"

definition link :: "program \<Rightarrow> exc + program" where
  "link self =
    on_ok (link_instructions (label_addresses (instructions self)) 0 (instructions self))
      (\<lambda>instrs. Inr (Program instrs True (path self)))"

text \<open>
  \<open>Top.compile\<close>, of the revision whose \<open>_compile\<close> returns a program: \<open>_compile\<close> with no local
  names, \<open>optimize\<close>, \<open>link\<close>.  A new \<open>Program\<close> is not linked and has no path.
\<close>

definition compile :: "compiler \<Rightarrow> expr list \<Rightarrow> exc + program" where
  "compile other expressions =
    on_ok (Top_compile (compile_expr other) is_Let_Import_Function expressions [])
      (\<lambda>code. on_ok (optimize (Program code False None)) link)"

section \<open>A host with nodes\<close>

text \<open>
  Modelled from the spec: \<open>Node.copy\<close>, \<open>Vector.copynodes\<close> and \<open>Node.append\<close>, which are not
  among the sources.  The copy of a node is a new node of the same kind and tags that shares
  the attribute dictionary of the original (both are then marked shared) and has no parent, no
  sibling and no child; the children of the original are not copied here, the examples copy
  childless nodes only.  \<open>copynodes\<close> replaces every node of a vector by a copy.  \<open>append\<close> makes
  the node the last child of its new parent.
\<close>

definition Node_copy :: "nat \<Rightarrow> heap \<Rightarrow> nat \<times> heap" where
  "Node_copy a st =
    (let b = next_addr st; n = nodes st a
     in (b, st\<lparr>nodes := (nodes st)
                   (a := n\<lparr>attributes_shared := True\<rparr>,
                    b := n\<lparr>attributes_shared := True, node_parent := None, next_sibling := None,
                           first_child := None, last_child := None\<rparr>),
               next_addr := Suc b\<rparr>))"

fun copy_objects :: "obj list \<Rightarrow> heap \<Rightarrow> obj list \<times> heap" where
  "copy_objects [] st = ([], st)"
| "copy_objects (x # os) st =
    (case x of
       ONode a \<Rightarrow>
         (let (b, st1) = Node_copy a st; (rest, st2) = copy_objects os st1
          in (ONode b # rest, st2))
     | _ \<Rightarrow> (let (rest, st2) = copy_objects os st in (x # rest, st2)))"

definition Vector_copynodes :: "vector \<Rightarrow> heap \<Rightarrow> vector \<times> heap" where
  "Vector_copynodes v st =
    (case v of
       Objects os \<Rightarrow> (let (os1, st1) = copy_objects os st in (Objects os1, st1))
     | Numeric ns \<Rightarrow> (v, st))"

definition Node_append :: "nat \<Rightarrow> nat \<Rightarrow> heap \<Rightarrow> heap" where
  "Node_append p a st =
    (let st1 = st\<lparr>nodes := (nodes st)(a := (nodes st a)\<lparr>node_parent := Some p\<rparr>)\<rparr>
     in case last_child (nodes st1 p) of
          Some l \<Rightarrow>
            st1\<lparr>nodes := (nodes st1)
                   (l := (nodes st1 l)\<lparr>next_sibling := Some a\<rparr>,
                    p := (nodes st1 p)\<lparr>last_child := Some a\<rparr>)\<rparr>
        | None \<Rightarrow>
            st1\<lparr>nodes := (nodes st1)
                   (p := (nodes st1 p)\<lparr>first_child := Some a, last_child := Some a\<rparr>)\<rparr>)"

definition node_host :: host where
  "node_host = example_host\<lparr>copynodes := Vector_copynodes, node_copy := Node_copy,
     node_append := Node_append\<rparr>"

text \<open>
  The program
  \<^verbatim>\<open>let y = !node c=$k\<close>, \<^verbatim>\<open>let x = y\<close>, \<^verbatim>\<open>let y = 5\<close>, \<^verbatim>\<open>x\<close>
  with the literal node at address \<open>0\<close> of the store \<open>alias_heap\<close>, in which address \<open>1\<close> is a
  root node for the graph of a run.
\<close>

definition alias_program :: "expr list" where
  "alias_program =
    [Let_expr [([''y''], Attributes (Literal_expr (Objects [ONode 0]))
                           [(''c'', LookupLiteral (Objects [OStr ''k'']))])],
     Let_expr [([''x''], Name ''y'')],
     Let_expr [([''y''], Literal_expr (Numeric [5]))],
     Name ''x'']"

definition alias_heap :: heap where
  "alias_heap = empty_heap\<lparr>
     nodes := (nodes empty_heap)
       (0 := \<lparr>kind = ''node'', tags = None, attributes = 0, attributes_shared = False,
              node_parent = None, next_sibling = None, first_child = None, last_child = None\<rparr>,
        1 := \<lparr>kind = ''root'', tags = None, attributes = 1, attributes_shared = False,
              node_parent = None, next_sibling = None, first_child = None, last_child = None\<rparr>),
     next_addr := 2\<rparr>"

text \<open>What \<open>simplify\<close> makes of it; the copy of the literal node is at address \<open>2\<close>.\<close>

definition simplified_program :: "expr list" where
  "simplified_program =
    [Let_expr [([''y''], FastAttributes (Literal_expr (Objects [ONode 2]))
                 [(''c'', LookupLiteral (Objects [OStr ''k'']))])],
     Literal_expr (Numeric [5]),
     StoreGlobal [([''y''], Literal_expr (Numeric [5]))]]"

section \<open>Properties of the peephole optimiser\<close>

lemma is_Compose_iff: "is_Compose i \<longleftrightarrow> (\<exists>n. i = Op_Compose n)"
  by (cases i) (simp_all add: is_Compose_def)

lemma is_Append_iff: "is_Append i \<longleftrightarrow> (\<exists>n. i = Op_Append n)"
  by (cases i) (simp_all add: is_Append_def)

lemma is_Literal_iff: "is_Literal i \<longleftrightarrow> (\<exists>v. i = Op_Literal v)"
  by (cases i) (simp_all add: is_Literal_def)

lemma ivalue_simps [simp]: "ivalue (Op_Compose n) = n" "ivalue (Op_Append n) = n"
  by (simp_all add: ivalue_def)

lemma vvalue_simps [simp]: "vvalue (Op_Literal v) = v"
  by (simp add: vvalue_def)

lemmas is_iffs = is_Compose_iff is_Append_iff is_Literal_iff

lemma peephole_ctx: "peephole xs ys \<Longrightarrow> peephole (xs @ zs) (ys @ zs)"
proof (induction rule: peephole.induct)
  case (compose_compose xs n m ys)
  show ?case using peephole.compose_compose [of xs n m "ys @ zs"] by simp
next
  case (compose_append xs n m ys)
  show ?case using peephole.compose_append [of xs n m "ys @ zs"] by simp
next
  case (mul_add xs ys)
  show ?case using peephole.mul_add [of xs "ys @ zs"] by simp
next
  case (literal_append v xs m ys)
  then show ?case using peephole.literal_append [of v xs m "ys @ zs"] by simp
next
  case (literal_append_root v xs ys)
  then show ?case using peephole.literal_append_root [of v xs "ys @ zs"] by simp
qed

lemma peephole_rtrancl_ctx: "peephole\<^sup>*\<^sup>* xs ys \<Longrightarrow> peephole\<^sup>*\<^sup>* (xs @ zs) (ys @ zs)"
  by (induction rule: rtranclp_induct) (auto intro: peephole_ctx rtranclp.rtrancl_into_rtrancl)

lemma optimize_step_redex:
  "redex l i \<Longrightarrow> peephole (xs @ [l, i]) (optimize_step (xs @ [l]) i)"
proof -
  assume "redex l i"
  then consider
      (cc) n m where "l = Op_Compose n" "i = Op_Compose m"
    | (ca) n m where "l = Op_Compose n" "i = Op_Append m"
    | (ma) "l = Op_Mul" "i = Op_Add"
    | (la) v m where "l = Op_Literal v" "vlength v = 0" "i = Op_Append m"
    | (lr) v where "l = Op_Literal v" "vlength v = 0" "i = Op_AppendRoot"
    by (auto simp: redex_def is_iffs)
  then show ?thesis
  proof cases
    case cc
    then show ?thesis
      using peephole.compose_compose [of xs n m "[]"]
      by (simp add: optimize_step_def is_iffs add.commute add_diff_eq diff_add_eq)
  next
    case ca
    then show ?thesis
      using peephole.compose_append [of xs n m "[]"]
      by (simp add: optimize_step_def is_iffs add.commute add_diff_eq diff_add_eq)
  next
    case ma
    then show ?thesis
      using peephole.mul_add [of xs "[]"]
      by (simp add: optimize_step_def is_iffs)
  next
    case la
    then show ?thesis
      using peephole.literal_append [of v xs m "[]"]
      by (simp add: optimize_step_def is_iffs)
  next
    case lr
    then show ?thesis
      using peephole.literal_append_root [of v xs "[]"]
      by (simp add: optimize_step_def is_iffs)
  qed
qed

lemma optimize_step_no_redex:
  "\<not> redex l i \<Longrightarrow> optimize_step (xs @ [l]) i = xs @ [l, i]"
  by (auto simp: optimize_step_def redex_def)

lemma optimize_step_rewrites: "peephole\<^sup>*\<^sup>* (out @ [i]) (optimize_step out i)"
proof (cases "out = []")
  case True
  then show ?thesis by (simp add: optimize_step_def)
next
  case False
  then obtain xs l where out: "out = xs @ [l]" by (metis append_butlast_last_id)
  show ?thesis
  proof (cases "redex l i")
    case False
    then show ?thesis by (simp add: out optimize_step_no_redex)
  next
    case True
    from optimize_step_redex [OF this, of xs] show ?thesis by (simp add: out)
  qed
qed

lemma optimize_foldl_rewrites: "peephole\<^sup>*\<^sup>* (out @ xs) (foldl optimize_step out xs)"
proof (induction xs arbitrary: out)
  case Nil
  show ?case by simp
next
  case (Cons x xs)
  have "peephole\<^sup>*\<^sup>* ((out @ [x]) @ xs) (optimize_step out x @ xs)"
    by (rule peephole_rtrancl_ctx [OF optimize_step_rewrites])
  moreover have "peephole\<^sup>*\<^sup>* (optimize_step out x @ xs) (foldl optimize_step (optimize_step out x) xs)"
    by (rule Cons.IH)
  ultimately show ?case by simp
qed

lemma no_redex_snoc:
  "no_redex (xs @ [a]) \<longleftrightarrow> no_redex xs \<and> (xs = [] \<or> \<not> redex (last xs) a)"
  by (induction xs rule: no_redex.induct) auto

lemma no_redex_appendD: "no_redex (xs @ ys) \<Longrightarrow> no_redex xs"
  by (induction xs rule: no_redex.induct) auto

lemma optimize_foldl_no_redex:
  "no_redex (out @ xs) \<Longrightarrow> foldl optimize_step out xs = out @ xs"
proof (induction xs arbitrary: out)
  case Nil
  show ?case by simp
next
  case (Cons x xs)
  from Cons.prems have nr: "no_redex ((out @ [x]) @ xs)" by simp
  have "no_redex (out @ [x])" using nr by (rule no_redex_appendD)
  then have "out = [] \<or> \<not> redex (last out) x" by (simp add: no_redex_snoc)
  then have "optimize_step out x = out @ [x]"
  proof
    assume "out = []" then show ?thesis by (simp add: optimize_step_def)
  next
    assume r: "\<not> redex (last out) x"
    show ?thesis
    proof (cases "out = []")
      case True then show ?thesis by (simp add: optimize_step_def)
    next
      case False
      then have "out = butlast out @ [last out]" by simp
      then show ?thesis using optimize_step_no_redex [OF r, of "butlast out"] by simp
    qed
  qed
  then show ?case using Cons.IH [OF nr] by simp
qed

lemma c_int_id: "- 2147483648 \<le> x \<Longrightarrow> x < 2147483648 \<Longrightarrow> c_int x = x"
  by (simp add: c_int_def)

lemma optimize_loop_Cons: "optimize_loop (x # xs) = foldl optimize_step [x] xs"
  by (simp add: optimize_loop_def optimize_step_def)

lemma optimize_loop_snoc: "optimize_loop (xs @ [i]) = optimize_step (optimize_loop xs) i"
  by (simp add: optimize_loop_def)

lemma optimize_loop_no_redex: "no_redex xs \<Longrightarrow> optimize_loop xs = xs"
  using optimize_foldl_no_redex [of "[]" xs] by (simp add: optimize_loop_def)

lemma redex_iff:
  "redex l i \<longleftrightarrow>
     (\<exists>n m. l = Op_Compose n \<and> i = Op_Compose m)
     \<or> (\<exists>n m. l = Op_Compose n \<and> i = Op_Append m)
     \<or> (l = Op_Mul \<and> i = Op_Add)
     \<or> (\<exists>v. l = Op_Literal v \<and> vlength v = 0 \<and> ((\<exists>m. i = Op_Append m) \<or> i = Op_AppendRoot))"
  by (auto simp add: redex_def is_iffs)

lemma no_redex_nth:
  "no_redex xs \<longleftrightarrow> (\<forall>k. Suc k < length xs \<longrightarrow> \<not> redex (xs ! k) (xs ! Suc k))"
proof (induction xs rule: no_redex.induct)
  case 1
  show ?case by simp
next
  case (2 a)
  show ?case by simp
next
  case (3 a b xs)
  have "(\<forall>k. Suc k < length (a # b # xs) \<longrightarrow> \<not> redex ((a # b # xs) ! k) ((a # b # xs) ! Suc k))
      \<longleftrightarrow> (\<not> redex a b
           \<and> (\<forall>k. Suc k < length (b # xs) \<longrightarrow> \<not> redex ((b # xs) ! k) ((b # xs) ! Suc k)))"
    (is "?L \<longleftrightarrow> ?R")
  proof
    assume L: ?L
    have "\<not> redex a b" using L [rule_format, of 0] by simp
    moreover have "\<not> redex ((b # xs) ! k) ((b # xs) ! Suc k)" if "Suc k < length (b # xs)" for k
      using L [rule_format, of "Suc k"] that by simp
    ultimately show ?R by blast
  next
    assume R: ?R
    show ?L
    proof (intro allI impI)
      fix k assume k: "Suc k < length (a # b # xs)"
      show "\<not> redex ((a # b # xs) ! k) ((a # b # xs) ! Suc k)"
      proof (cases k)
        case 0
        then show ?thesis using R by simp
      next
        case (Suc j)
        then have "Suc j < length (b # xs)" using k by simp
        then have "\<not> redex ((b # xs) ! j) ((b # xs) ! Suc j)" using R by blast
        then show ?thesis using Suc by simp
      qed
    qed
  qed
  then show ?case using 3 by simp
qed

text \<open>
  Claim C4.  \<open>Program.optimize\<close> refuses a linked program.  On an unlinked program it
  returns the program whose instruction list is \<open>optimize_loop\<close> of the original one; that list
  is reached from the original one by the four rewrites on adjacent pairs and by nothing else
  (so every other instruction is kept, in order), and a list without such a pair is returned
  unchanged.

  The loop is one pass from left to right, and the theorem gives it exactly: the result for
  \<open>xs @ [i]\<close> is the result \<open>out\<close> for \<open>xs\<close> followed by \<open>i\<close> when \<open>out\<close> is empty or its last
  instruction and \<open>i\<close> are not a pair of the list; and when they are, the last instruction of
  \<open>out\<close> and \<open>i\<close> are rewritten: \<open>Compose n; Compose m\<close> to \<open>Compose (n + m - 1)\<close>,
  \<open>Compose n; Append m\<close> to \<open>Append (n + m - 1)\<close>, \<open>Mul; Add\<close> to \<open>MulAdd\<close>, and an empty \<open>Literal\<close>
  followed by \<open>Append\<close> or \<open>AppendRoot\<close> disappears together with it.  In particular a pair that
  follows any prefix without a pair is rewritten, and so is a pair at the head of the list,
  whatever follows it.  The pairs are these four and no other.  The sum is the C \<open>int\<close> sum,
  which is the exact one whenever it fits in 32 bits.
\<close>

theorem optimize_peephole:
  "(linked p \<longrightarrow> optimize p = Inl (AssertionError ''Cannot optimize a linked program''))
   \<and> (\<not> linked p \<longrightarrow>
        (\<exists>q. optimize p = Inr q \<and> linked q = linked p \<and> path q = path p
           \<and> instructions q = optimize_loop (instructions p)
           \<and> peephole\<^sup>*\<^sup>* (instructions p) (instructions q)
           \<and> (no_redex (instructions p) \<longrightarrow> instructions q = instructions p)))
   \<and> optimize_loop (Op_Compose n # Op_Compose m # ys) = optimize_loop (Op_Compose (c_int (n + m - 1)) # ys)
   \<and> optimize_loop (Op_Compose n # Op_Append m # ys) = optimize_loop (Op_Append (c_int (n + m - 1)) # ys)
   \<and> optimize_loop (Op_Mul # Op_Add # ys) = optimize_loop (Op_MulAdd # ys)
   \<and> (vlength v = 0 \<longrightarrow> optimize_loop (Op_Literal v # Op_Append m # ys) = optimize_loop ys)
   \<and> (vlength v = 0 \<longrightarrow> optimize_loop (Op_Literal v # Op_AppendRoot # ys) = optimize_loop ys)
   \<and> (- 2147483648 \<le> n + m - 1 \<and> n + m - 1 < 2147483648 \<longrightarrow> c_int (n + m - 1) = n + m - 1)
   \<and> optimize_loop [] = []
   \<and> (optimize_loop xs = [] \<or> \<not> redex (last (optimize_loop xs)) i \<longrightarrow>
        optimize_loop (xs @ [i]) = optimize_loop xs @ [i])
   \<and> (optimize_loop xs = out @ [Op_Compose n] \<longrightarrow>
        optimize_loop (xs @ [Op_Compose m]) = out @ [Op_Compose (c_int (n + m - 1))])
   \<and> (optimize_loop xs = out @ [Op_Compose n] \<longrightarrow>
        optimize_loop (xs @ [Op_Append m]) = out @ [Op_Append (c_int (n + m - 1))])
   \<and> (optimize_loop xs = out @ [Op_Mul] \<longrightarrow> optimize_loop (xs @ [Op_Add]) = out @ [Op_MulAdd])
   \<and> (optimize_loop xs = out @ [Op_Literal v] \<and> vlength v = 0 \<longrightarrow>
        optimize_loop (xs @ [Op_Append m]) = out)
   \<and> (optimize_loop xs = out @ [Op_Literal v] \<and> vlength v = 0 \<longrightarrow>
        optimize_loop (xs @ [Op_AppendRoot]) = out)
   \<and> (no_redex (xs @ [Op_Compose n]) \<longrightarrow>
        optimize_loop (xs @ [Op_Compose n, Op_Compose m]) = xs @ [Op_Compose (c_int (n + m - 1))])
   \<and> (no_redex (xs @ [Op_Compose n]) \<longrightarrow>
        optimize_loop (xs @ [Op_Compose n, Op_Append m]) = xs @ [Op_Append (c_int (n + m - 1))])
   \<and> (no_redex (xs @ [Op_Mul]) \<longrightarrow> optimize_loop (xs @ [Op_Mul, Op_Add]) = xs @ [Op_MulAdd])
   \<and> (no_redex (xs @ [Op_Literal v]) \<and> vlength v = 0 \<longrightarrow>
        optimize_loop (xs @ [Op_Literal v, Op_Append m]) = xs)
   \<and> (no_redex (xs @ [Op_Literal v]) \<and> vlength v = 0 \<longrightarrow>
        optimize_loop (xs @ [Op_Literal v, Op_AppendRoot]) = xs)
   \<and> (redex l i \<longleftrightarrow>
        (\<exists>n m. l = Op_Compose n \<and> i = Op_Compose m)
        \<or> (\<exists>n m. l = Op_Compose n \<and> i = Op_Append m)
        \<or> (l = Op_Mul \<and> i = Op_Add)
        \<or> (\<exists>v. l = Op_Literal v \<and> vlength v = 0
               \<and> ((\<exists>m. i = Op_Append m) \<or> i = Op_AppendRoot)))
   \<and> (no_redex xs \<longleftrightarrow> (\<forall>k. Suc k < length xs \<longrightarrow> \<not> redex (xs ! k) (xs ! Suc k)))"
proof -
  have a: "linked p \<longrightarrow> optimize p = Inl (AssertionError ''Cannot optimize a linked program'')"
    by (simp add: optimize_def)
  have b: "\<not> linked p \<longrightarrow>
        (\<exists>q. optimize p = Inr q \<and> linked q = linked p \<and> path q = path p
           \<and> instructions q = optimize_loop (instructions p)
           \<and> peephole\<^sup>*\<^sup>* (instructions p) (instructions q)
           \<and> (no_redex (instructions p) \<longrightarrow> instructions q = instructions p))"
    using optimize_foldl_rewrites [of "[]" "instructions p"]
      optimize_foldl_no_redex [of "[]" "instructions p"]
    by (simp add: optimize_def optimize_loop_def)
  have c: "optimize_loop (Op_Compose n # Op_Compose m # ys) = optimize_loop (Op_Compose (c_int (n + m - 1)) # ys)"
    by (simp add: optimize_loop_Cons optimize_step_def is_iffs add.commute add_diff_eq diff_add_eq)
  have d: "optimize_loop (Op_Compose n # Op_Append m # ys) = optimize_loop (Op_Append (c_int (n + m - 1)) # ys)"
    by (simp add: optimize_loop_Cons optimize_step_def is_iffs add.commute add_diff_eq diff_add_eq)
  have e: "optimize_loop (Op_Mul # Op_Add # ys) = optimize_loop (Op_MulAdd # ys)"
    by (simp add: optimize_loop_Cons optimize_step_def is_iffs)
  have f: "vlength v = 0 \<longrightarrow> optimize_loop (Op_Literal v # Op_Append m # ys) = optimize_loop ys"
    by (simp add: optimize_loop_Cons optimize_step_def is_iffs) (simp add: optimize_loop_def)
  have g: "vlength v = 0 \<longrightarrow> optimize_loop (Op_Literal v # Op_AppendRoot # ys) = optimize_loop ys"
    by (simp add: optimize_loop_Cons optimize_step_def is_iffs) (simp add: optimize_loop_def)
  have h: "- 2147483648 \<le> n + m - 1 \<and> n + m - 1 < 2147483648 \<longrightarrow> c_int (n + m - 1) = n + m - 1"
    by (simp add: c_int_id)
  have s0: "optimize_loop [] = []" by (simp add: optimize_loop_def)
  have s1: "optimize_loop xs = [] \<or> \<not> redex (last (optimize_loop xs)) i \<longrightarrow>
        optimize_loop (xs @ [i]) = optimize_loop xs @ [i]"
  proof
    assume h: "optimize_loop xs = [] \<or> \<not> redex (last (optimize_loop xs)) i"
    show "optimize_loop (xs @ [i]) = optimize_loop xs @ [i]"
    proof (cases "optimize_loop xs = []")
      case True
      then show ?thesis by (simp add: optimize_loop_snoc optimize_step_def)
    next
      case False
      then have r: "\<not> redex (last (optimize_loop xs)) i" using h by simp
      have "optimize_loop xs = butlast (optimize_loop xs) @ [last (optimize_loop xs)]"
        using False by simp
      then show ?thesis
        using optimize_step_no_redex [OF r, of "butlast (optimize_loop xs)"]
        by (simp add: optimize_loop_snoc)
    qed
  qed
  have s2: "optimize_loop xs = out @ [Op_Compose n] \<longrightarrow>
        optimize_loop (xs @ [Op_Compose m]) = out @ [Op_Compose (c_int (n + m - 1))]"
    by (simp add: optimize_loop_snoc optimize_step_def is_iffs add.commute add_diff_eq diff_add_eq)
  have s3: "optimize_loop xs = out @ [Op_Compose n] \<longrightarrow>
        optimize_loop (xs @ [Op_Append m]) = out @ [Op_Append (c_int (n + m - 1))]"
    by (simp add: optimize_loop_snoc optimize_step_def is_iffs add.commute add_diff_eq diff_add_eq)
  have s4: "optimize_loop xs = out @ [Op_Mul] \<longrightarrow> optimize_loop (xs @ [Op_Add]) = out @ [Op_MulAdd]"
    by (simp add: optimize_loop_snoc optimize_step_def is_iffs)
  have s5: "optimize_loop xs = out @ [Op_Literal v] \<and> vlength v = 0 \<longrightarrow>
        optimize_loop (xs @ [Op_Append m]) = out"
    by (simp add: optimize_loop_snoc optimize_step_def is_iffs)
  have s6: "optimize_loop xs = out @ [Op_Literal v] \<and> vlength v = 0 \<longrightarrow>
        optimize_loop (xs @ [Op_AppendRoot]) = out"
    by (simp add: optimize_loop_snoc optimize_step_def is_iffs)
  have snoc2: "optimize_loop (zs @ [l, i]) = optimize_step (optimize_loop (zs @ [l])) i" for zs l i
    using optimize_loop_snoc [of "zs @ [l]" i] by simp
  have t2: "no_redex (xs @ [Op_Compose n]) \<longrightarrow>
        optimize_loop (xs @ [Op_Compose n, Op_Compose m]) = xs @ [Op_Compose (c_int (n + m - 1))]"
    by (simp add: snoc2 optimize_loop_no_redex optimize_step_def is_iffs add.commute add_diff_eq
        diff_add_eq)
  have t3: "no_redex (xs @ [Op_Compose n]) \<longrightarrow>
        optimize_loop (xs @ [Op_Compose n, Op_Append m]) = xs @ [Op_Append (c_int (n + m - 1))]"
    by (simp add: snoc2 optimize_loop_no_redex optimize_step_def is_iffs add.commute add_diff_eq
        diff_add_eq)
  have t4: "no_redex (xs @ [Op_Mul]) \<longrightarrow> optimize_loop (xs @ [Op_Mul, Op_Add]) = xs @ [Op_MulAdd]"
    by (simp add: snoc2 optimize_loop_no_redex optimize_step_def is_iffs)
  have t5: "no_redex (xs @ [Op_Literal v]) \<and> vlength v = 0 \<longrightarrow>
        optimize_loop (xs @ [Op_Literal v, Op_Append m]) = xs"
    by (simp add: snoc2 optimize_loop_no_redex optimize_step_def is_iffs)
  have t6: "no_redex (xs @ [Op_Literal v]) \<and> vlength v = 0 \<longrightarrow>
        optimize_loop (xs @ [Op_Literal v, Op_AppendRoot]) = xs"
    by (simp add: snoc2 optimize_loop_no_redex optimize_step_def is_iffs)
  note r = redex_iff [of l i]
  note nr = no_redex_nth [of xs]
  show ?thesis
    apply (intro conjI)
    apply (rule a b c d e f g h s0 s1 s2 s3 s4 s5 s6 t2 t3 t4 t5 t6 r nr)+
    done
qed

theorem optimize_peephole_witness:
  "\<not> linked (Program [Op_Compose 2, Op_Compose 3, Op_Dup, Op_Mul, Op_Add, Op_Literal null_vector, Op_AppendRoot, Op_Compose 2, Op_Append 1] False None)
   \<and> optimize (Program [Op_Compose 2, Op_Compose 3, Op_Dup, Op_Mul, Op_Add, Op_Literal null_vector, Op_AppendRoot, Op_Compose 2, Op_Append 1] False None)
       = Inr (Program [Op_Compose 4, Op_Dup, Op_MulAdd, Op_Append 2] False None)
   \<and> peephole\<^sup>*\<^sup>* [Op_Compose 2, Op_Compose 3, Op_Dup, Op_Mul, Op_Add, Op_Literal null_vector, Op_AppendRoot, Op_Compose 2, Op_Append 1]
         [Op_Compose 4, Op_Dup, Op_MulAdd, Op_Append 2]
   \<and> vlength null_vector = 0
   \<and> optimize_loop [Op_Literal null_vector, Op_Append 3, Op_Dup] = [Op_Dup]
   \<and> c_int (2 + 3 - 1) = 4
   \<and> no_redex [Op_Dup, Op_Mul]
   \<and> optimize_loop [Op_Dup, Op_Mul, Op_Add] = [Op_Dup, Op_MulAdd]
   \<and> optimize_loop [Op_Dup, Op_Compose 2, Op_Compose 3] = [Op_Dup, Op_Compose 4]
   \<and> optimize_loop [Op_Dup, Op_Compose 2, Op_Append 3] = [Op_Dup, Op_Append 4]
   \<and> optimize_loop [Op_Dup, Op_Literal null_vector, Op_Append 3] = [Op_Dup]
   \<and> optimize_loop [Op_Dup, Op_Literal null_vector, Op_AppendRoot] = [Op_Dup]
   \<and> optimize_loop [Op_Dup, Op_Mul, Op_Dup] = [Op_Dup, Op_Mul, Op_Dup]"
proof -
  let ?p = "Program [Op_Compose 2, Op_Compose 3, Op_Dup, Op_Mul, Op_Add, Op_Literal null_vector, Op_AppendRoot, Op_Compose 2, Op_Append 1] False None"
  have ev: "optimize ?p = Inr (Program [Op_Compose 4, Op_Dup, Op_MulAdd, Op_Append 2] False None)"
    by (simp add: optimize_def optimize_loop_def optimize_step_def is_Compose_def is_Append_def
        is_Literal_def ivalue_def vvalue_def c_int_def null_vector_def)
  have ol: "optimize_loop [Op_Compose 2, Op_Compose 3, Op_Dup, Op_Mul, Op_Add, Op_Literal null_vector, Op_AppendRoot, Op_Compose 2, Op_Append 1]
      = [Op_Compose 4, Op_Dup, Op_MulAdd, Op_Append 2]"
    by (simp add: optimize_loop_def optimize_step_def is_Compose_def is_Append_def
        is_Literal_def ivalue_def vvalue_def c_int_def null_vector_def)
  have dup: "optimize_loop [Op_Dup] = [Op_Dup]"
    by (simp add: optimize_loop_def optimize_step_def)
  have dm: "optimize_loop [Op_Dup, Op_Mul] = [Op_Dup, Op_Mul]"
    by (simp add: optimize_loop_def optimize_step_def is_Compose_def is_Literal_def)
  have nr: "no_redex [Op_Dup, Op_Mul]" "no_redex [Op_Dup, Op_Compose 2]"
    "no_redex [Op_Dup, Op_Literal null_vector]" "\<not> redex Op_Mul Op_Dup"
    by (simp_all add: redex_def is_Compose_def is_Literal_def)
  show ?thesis
    using optimize_peephole [where p = ?p and n = 2 and m = 3 and ys = "[Op_Dup]"
          and v = null_vector and xs = "[Op_Dup]" and i = Op_Mul and out = "[Op_Dup]"
          and l = Op_Mul]
      optimize_peephole [where p = ?p and n = 2 and m = 3 and ys = "[Op_Dup]"
          and v = null_vector and xs = "[Op_Dup, Op_Mul]" and i = Op_Dup and out = "[Op_Dup]"
          and l = Op_Mul]
      ev ol dup dm nr
    by (simp add: null_vector_def c_int_def)
qed

section \<open>Properties of \<open>pop_composed\<close>\<close>

lemma boxed_length: "length (boxed v) = vlength v"
  by (cases v) simp_all

lemma numbers_of_boxed: "is_numeric v \<Longrightarrow> boxed v = map OFloat (numbers_of v)"
  by (cases v) simp_all

lemma concat_boxed_numeric:
  "list_all is_numeric vs \<Longrightarrow> concat (map boxed vs) = map OFloat (concat (map numbers_of vs))"
  by (induction vs) (simp_all add: numbers_of_boxed)

lemma sum_vlength_boxed: "sum_list (map vlength vs) = length (concat (map boxed vs))"
  by (induction vs) (simp_all add: boxed_length)

lemma not_numeric_nonempty:
  "\<not> list_all is_numeric vs \<Longrightarrow> list_all wf_vector vs \<Longrightarrow> sum_list (map vlength vs) \<noteq> 0"
proof (induction vs)
  case Nil
  then show ?case by simp
next
  case (Cons v vs)
  then show ?case by (cases v) auto
qed

text \<open>
  Claim C6.  Let \<open>inputs\<close> be the top \<open>m\<close> vectors of the stack, bottom first.
  \<open>pop_composed stack m\<close> removes them and returns one vector whose elements are the inputs'
  elements concatenated in order (numbers boxed for the comparison).  If all inputs are
  numeric the result is the packed numeric vector of their numbers; if some input is an
  object vector the result is the object vector of the boxed elements.  \<open>pop_composed stack 0\<close>
  returns \<open>null_\<close> and leaves the stack alone.
\<close>

theorem pop_composed_correct:
  "pop_composed stack 0 = Inr (null_vector, stack)
   \<and> (0 < m \<and> m \<le> int (length stack) \<longrightarrow>
        (\<exists>result. pop_composed stack m = Inr (result, take (length stack - nat m) stack)
           \<and> boxed result = concat (map boxed (drop (length stack - nat m) stack))
           \<and> (list_all is_numeric (drop (length stack - nat m) stack) \<longrightarrow>
                 result = Numeric (concat (map numbers_of (drop (length stack - nat m) stack))))
           \<and> (\<not> list_all is_numeric (drop (length stack - nat m) stack)
                \<and> list_all wf_vector (drop (length stack - nat m) stack) \<longrightarrow>
                 result = Objects (concat (map boxed (drop (length stack - nat m) stack))))))"
proof -
  have zero: "pop_composed stack 0 = Inr (null_vector, stack)"
    by (simp add: pop_composed_def)
  have pos: "\<exists>result. pop_composed stack m = Inr (result, take (length stack - nat m) stack)
           \<and> boxed result = concat (map boxed (drop (length stack - nat m) stack))
           \<and> (list_all is_numeric (drop (length stack - nat m) stack) \<longrightarrow>
                 result = Numeric (concat (map numbers_of (drop (length stack - nat m) stack))))
           \<and> (\<not> list_all is_numeric (drop (length stack - nat m) stack)
                \<and> list_all wf_vector (drop (length stack - nat m) stack) \<longrightarrow>
                 result = Objects (concat (map boxed (drop (length stack - nat m) stack))))"
    if m: "0 < m" "m \<le> int (length stack)"
  proof (cases "m = 1")
    case True
    from m True have ne: "stack \<noteq> []" by auto
    then have d: "drop (length stack - nat m) stack = [last stack]"
      using True by (cases stack rule: rev_cases) simp_all
    have t: "take (length stack - nat m) stack = butlast stack"
      using True by (simp add: butlast_conv_take)
    show ?thesis using ne True d t
      by (cases "last stack") (simp_all add: pop_composed_def pop_def)
  next
    case False
    let ?inputs = "drop (length stack - nat m) stack"
    show ?thesis
    proof (cases "sum_list (map vlength ?inputs) = 0")
      case True
      then have e: "concat (map boxed ?inputs) = []"
        by (simp add: sum_vlength_boxed)
      then have n: "concat (map numbers_of ?inputs) = []" if "list_all is_numeric ?inputs"
        using concat_boxed_numeric [OF that] by simp
      show ?thesis using m False True e n not_numeric_nonempty [of ?inputs]
        by (auto simp add: pop_composed_def Let_def null_vector_def simp del: sum_list_eq_0_iff)
    next
      case nz: False
      show ?thesis
      proof (cases "list_all is_numeric ?inputs")
        case True
        then show ?thesis using m False nz
          by (simp add: pop_composed_def Let_def concat_boxed_numeric del: sum_list_eq_0_iff)
      next
        case False
        then show ?thesis using m \<open>m \<noteq> 1\<close> nz
          by (simp add: pop_composed_def Let_def del: sum_list_eq_0_iff)
      qed
    qed
  qed
  from zero pos show ?thesis by blast
qed

theorem pop_composed_correct_witness:
  "0 < (2::int) \<and> 2 \<le> int (length [Numeric [7], Numeric [1, 2], Objects [OStr ''a'']])
   \<and> pop_composed [Numeric [7], Numeric [1, 2], Objects [OStr ''a'']] 2
       = Inr (Objects [OFloat 1, OFloat 2, OStr ''a''], [Numeric [7]])
   \<and> pop_composed [Numeric [7], Numeric [1, 2], Numeric [3]] 2
       = Inr (Numeric [1, 2, 3], [Numeric [7]])
   \<and> \<not> list_all is_numeric (drop 1 [Numeric [7], Numeric [1, 2], Objects [OStr ''a'']])
   \<and> list_all wf_vector (drop 1 [Numeric [7], Numeric [1, 2], Objects [OStr ''a'']])
   \<and> list_all is_numeric (drop 1 [Numeric [7], Numeric [1, 2], Numeric [3]])"
  using pop_composed_correct [of "[Numeric [7], Numeric [1, 2], Objects [OStr ''a'']]" 2]
    pop_composed_correct [of "[Numeric [7], Numeric [1, 2], Numeric [3]]" 2]
  by simp

section \<open>Properties of the instruction handlers\<close>

lemma get_set_stack [simp]: "get_stack (set_stack s a xs) b = (if b = a then xs else get_stack s b)"
  by (simp add: get_stack_def set_stack_def)

lemma foldl_push_item:
  "foldl (\<lambda>l i. l @ [f i]) l0 is = l0 @ map f is"
  by (induction "is" arbitrary: l0) simp_all

text \<open>
  Claim C8, as the code has it.  \<open>LocalPush n\<close> pops exactly one vector \<open>r1\<close> from the value
  stack, whatever \<open>n\<close> is.  For \<open>n = 1\<close> that vector becomes the new top local; otherwise the
  locals stack grows by the \<open>n\<close> items \<open>r1.item(0)\<close>, ..., \<open>r1.item(n - 1)\<close>, pushed in index order, so
  the last item is on top.  On an empty value stack the assertion of \<open>pop\<close> fails.
  \<open>LocalDrop n\<close> removes the top \<open>n\<close> locals when there are that many.
\<close>

theorem LocalPush_LocalDrop:
  "(get_stack s stack = rest @ [r1] \<and> stack \<noteq> lvars \<longrightarrow>
      exec_LocalPush h n stack lvars s
        = Inr (set_stack (set_stack s stack rest) lvars
                 (get_stack s lvars
                    @ (if n = 1 then [r1] else map (\<lambda>i. item h r1 (int i)) [0..<nat n]))))
   \<and> (get_stack s stack = [] \<longrightarrow>
      exec_LocalPush h n stack lvars s = Inl (AssertionError ''Stack empty''))
   \<and> (0 \<le> k \<and> k \<le> int (length (get_stack s lvars)) \<longrightarrow>
      exec_LocalDrop k lvars s
        = Inr (set_stack s lvars (take (length (get_stack s lvars) - nat k) (get_stack s lvars))))"
  by (auto simp add: exec_LocalPush_def exec_LocalDrop_def pop_def drop_stack_def Let_def
      foldl_push_item push_def)

theorem LocalPush_LocalDrop_witness:
  "get_stack (set_stack initial_vm 0 [Numeric [5], Numeric [6, 7]]) 0 = [Numeric [5]] @ [Numeric [6, 7]]
   \<and> (0::nat) \<noteq> 1
   \<and> exec_LocalPush example_host 1 0 1 (set_stack initial_vm 0 [Numeric [5], Numeric [6, 7]])
       = Inr (set_stack (set_stack (set_stack initial_vm 0 [Numeric [5], Numeric [6, 7]]) 0 [Numeric [5]]) 1 [Numeric [6, 7]])
   \<and> (0::int) \<le> 1 \<and> 1 \<le> int (length (get_stack (set_stack initial_vm 1 [Numeric [5], Numeric [6, 7]]) 1))
   \<and> exec_LocalDrop 1 1 (set_stack initial_vm 1 [Numeric [5], Numeric [6, 7]])
       = Inr (set_stack (set_stack initial_vm 1 [Numeric [5], Numeric [6, 7]]) 1 [Numeric [5]])"
  using LocalPush_LocalDrop [of "set_stack initial_vm 0 [Numeric [5], Numeric [6, 7]]" 0
      "[Numeric [5]]" "Numeric [6, 7]" 1 example_host 1 1]
    LocalPush_LocalDrop [of "set_stack initial_vm 1 [Numeric [5], Numeric [6, 7]]" 0
      "[]" "Numeric [6, 7]" 1 example_host 1 1]
  by (simp add: initial_vm_def empty_heap_def get_stack_def set_stack_def)

text \<open>
  The claim as written fails for \<open>n = 2\<close>: with the two vectors \<open>[5]\<close> and \<open>[6, 7]\<close> on the value
  stack, \<open>LocalPush 2\<close> pops only \<open>[6, 7]\<close>; \<open>[5]\<close> stays on the value stack, and the two new
  locals are the items of \<open>[6, 7]\<close> (both \<open>null_\<close> for the example host), not the two vectors.
\<close>

theorem LocalPush_counterexample:
  "exec_LocalPush example_host 2 0 1 (set_stack initial_vm 0 [Numeric [5], Numeric [6, 7]])
     = Inr (set_stack (set_stack (set_stack initial_vm 0 [Numeric [5], Numeric [6, 7]]) 0 [Numeric [5]]) 1
              [null_vector, null_vector])"
  by (simp add: exec_LocalPush_def pop_def push_def Let_def example_host_def
      initial_vm_def empty_heap_def get_stack_def set_stack_def upt_rec)




section \<open>The \<open>Attribute\<close> instruction with an empty value\<close>

lemma fun_upd_None_same: "m k = None \<Longrightarrow> m(k := None) = m"
  by (rule ext) simp

lemma attribute_node_empty:
  assumes "vlength r2 = 0"
  shows "attribute_node name r2 h a =
    (if attributes_shared (nodes h a)
     then h\<lparr>dicts := (dicts h)(next_addr h := (dicts h (attributes (nodes h a)))(name := None)),
            nodes := (nodes h)(a := (nodes h a)\<lparr>attributes := next_addr h,
                                                 attributes_shared := False\<rparr>),
            next_addr := Suc (next_addr h)\<rparr>
     else h\<lparr>dicts := (dicts h)(attributes (nodes h a)
                         := (dicts h (attributes (nodes h a)))(name := None))\<rparr>)"
proof (cases "dicts h (attributes (nodes h a)) name")
  case None
  then have "(dicts h (attributes (nodes h a)))(name := None) = dicts h (attributes (nodes h a))"
    by (rule fun_upd_None_same)
  then show ?thesis using assms None
    by (simp add: attribute_node_def Let_def domIff)
next
  case (Some v)
  then show ?thesis using assms
    by (simp add: attribute_node_def Let_def domIff)
qed

lemma attr_inv_init: "wf_heap h0 \<Longrightarrow> attr_inv name h0 {} h0"
  by (simp add: attr_inv_def)

lemma attr_inv_step:
  assumes inv: "attr_inv name h0 P h" and r2: "vlength r2 = 0"
  shows "attr_inv name h0 (insert a P) (attribute_node name r2 h a)"
proof -
  from inv have wf: "\<And>b. attributes (nodes h b) < next_addr h"
    and le: "next_addr h0 \<le> next_addr h"
    and st: "stacks h = stacks h0" and fu: "funcs h = funcs h0"
    and i3: "\<And>b. node_attributes h b = node_attributes h0 b
             \<or> node_attributes h b = (node_attributes h0 b)(name := None)"
    and i4: "\<And>b. b \<in> P \<Longrightarrow> node_attributes h b = (node_attributes h0 b)(name := None)
             \<and> \<not> attributes_shared (nodes h b)
             \<and> (attributes_shared (nodes h0 b) \<longrightarrow> next_addr h0 \<le> attributes (nodes h b))"
    and i5: "\<And>b. b \<notin> P \<Longrightarrow> nodes h b = nodes h0 b"
    and i6: "\<And>b. nodes h b = (nodes h0 b)\<lparr>attributes := attributes (nodes h b),
                                        attributes_shared := attributes_shared (nodes h b)\<rparr>"
    and i7: "\<And>b. \<not> attributes_shared (nodes h0 b) \<Longrightarrow> nodes h b = nodes h0 b"
    and i8: "\<And>d. d < next_addr h0 \<Longrightarrow>
            dicts h d = (if \<exists>b. b \<in> P \<and> \<not> attributes_shared (nodes h0 b)
                               \<and> attributes (nodes h0 b) = d
                         then (dicts h0 d)(name := None) else dicts h0 d)"
    by (simp_all add: attr_inv_def wf_heap_def)
  have del: "\<And>b. (node_attributes h b)(name := None) = (node_attributes h0 b)(name := None)"
    using i3 by (metis fun_upd_upd)
  let ?h = "attribute_node name r2 h a"
  show ?thesis
  proof (cases "attributes_shared (nodes h a)")
    case True
    let ?d = "next_addr h"
    have fresh: "\<And>b. attributes (nodes h b) \<noteq> ?d"
      using wf by (metis less_irrefl_nat)
    have p: "a \<notin> P" using i4 True by blast
    have h': "?h = h\<lparr>dicts := (dicts h)(?d := (dicts h (attributes (nodes h a)))(name := None)),
            nodes := (nodes h)(a := (nodes h a)\<lparr>attributes := ?d, attributes_shared := False\<rparr>),
            next_addr := Suc ?d\<rparr>"
      using True by (simp add: attribute_node_empty [OF r2])
    have na: "node_attributes ?h a = (node_attributes h0 a)(name := None)"
      using del [of a] by (simp add: h' node_attributes_def)
    have nb: "\<And>b. b \<noteq> a \<Longrightarrow> node_attributes ?h b = node_attributes h b"
      using fresh by (simp add: h' node_attributes_def)
    have nodes_b: "\<And>b. b \<noteq> a \<Longrightarrow> nodes ?h b = nodes h b"
      by (simp add: h')
    have nodes_a: "nodes ?h a = (nodes h a)\<lparr>attributes := ?d, attributes_shared := False\<rparr>"
      by (simp add: h')
    have c1: "wf_heap ?h"
      unfolding wf_heap_def
    proof
      fix b show "attributes (nodes ?h b) < next_addr ?h"
        using wf [of b] by (cases "b = a") (simp_all add: h' less_Suc_eq)
    qed
    have c2: "next_addr h0 \<le> next_addr ?h" using le by (simp add: h')
    have c3: "stacks ?h = stacks h0" "funcs ?h = funcs h0" using st fu by (simp_all add: h')
    have c4: "\<forall>b. node_attributes ?h b = node_attributes h0 b
             \<or> node_attributes ?h b = (node_attributes h0 b)(name := None)"
    proof
      fix b show "node_attributes ?h b = node_attributes h0 b
             \<or> node_attributes ?h b = (node_attributes h0 b)(name := None)"
        using na nb [of b] i3 [of b] by (cases "b = a") simp_all
    qed
    have c5: "\<forall>b. b \<in> insert a P \<longrightarrow> node_attributes ?h b = (node_attributes h0 b)(name := None)
             \<and> \<not> attributes_shared (nodes ?h b)
             \<and> (attributes_shared (nodes h0 b) \<longrightarrow> next_addr h0 \<le> attributes (nodes ?h b))"
    proof (intro allI impI)
      fix b assume b: "b \<in> insert a P"
      show "node_attributes ?h b = (node_attributes h0 b)(name := None)
             \<and> \<not> attributes_shared (nodes ?h b)
             \<and> (attributes_shared (nodes h0 b) \<longrightarrow> next_addr h0 \<le> attributes (nodes ?h b))"
      proof (cases "b = a")
        case True
        then show ?thesis using na nodes_a le by simp
      next
        case False
        then have "b \<in> P" using b by simp
        then show ?thesis using i4 [of b] nb [OF False] nodes_b [OF False] by simp
      qed
    qed
    have c6: "\<forall>b. b \<notin> insert a P \<longrightarrow> nodes ?h b = nodes h0 b"
      using i5 nodes_b by simp
    have c7: "\<forall>b. nodes ?h b = (nodes h0 b)\<lparr>attributes := attributes (nodes ?h b),
                                        attributes_shared := attributes_shared (nodes ?h b)\<rparr>"
    proof
      fix b show "nodes ?h b = (nodes h0 b)\<lparr>attributes := attributes (nodes ?h b),
                                        attributes_shared := attributes_shared (nodes ?h b)\<rparr>"
      proof (cases "b = a")
        case True
        have "nodes h a = nodes h0 a" using i5 p by simp
        then show ?thesis using True nodes_a by simp
      next
        case False
        then show ?thesis using i6 [of b] nodes_b [OF False] by simp
      qed
    qed
    have a0: "nodes h a = nodes h0 a" using i5 p by simp
    have sh0: "attributes_shared (nodes h0 a)" using True a0 by simp
    have c8: "\<forall>b. \<not> attributes_shared (nodes h0 b) \<longrightarrow> nodes ?h b = nodes h0 b"
    proof (intro allI impI)
      fix b assume b: "\<not> attributes_shared (nodes h0 b)"
      then have "b \<noteq> a" using sh0 by auto
      then show "nodes ?h b = nodes h0 b" using nodes_b i7 [OF b] by simp
    qed
    have c9: "\<forall>d. d < next_addr h0 \<longrightarrow>
            dicts ?h d = (if \<exists>b. b \<in> insert a P \<and> \<not> attributes_shared (nodes h0 b)
                               \<and> attributes (nodes h0 b) = d
                          then (dicts h0 d)(name := None) else dicts h0 d)"
    proof (intro allI impI)
      fix d assume d: "d < next_addr h0"
      then have "d \<noteq> ?d" using le by simp
      then have same: "dicts ?h d = dicts h d" by (simp add: h')
      have "(\<exists>b. b \<in> insert a P \<and> \<not> attributes_shared (nodes h0 b) \<and> attributes (nodes h0 b) = d)
          \<longleftrightarrow> (\<exists>b. b \<in> P \<and> \<not> attributes_shared (nodes h0 b) \<and> attributes (nodes h0 b) = d)"
        using sh0 by auto
      then show "dicts ?h d = (if \<exists>b. b \<in> insert a P \<and> \<not> attributes_shared (nodes h0 b)
                               \<and> attributes (nodes h0 b) = d
                          then (dicts h0 d)(name := None) else dicts h0 d)"
        using i8 [OF d] same by simp
    qed
    show ?thesis
      unfolding attr_inv_def
      using c1 c2 c3 c4 c5 c6 c7 c8 c9 by (intro conjI) assumption+
  next
    case False
    let ?d = "attributes (nodes h a)"
    have h': "?h = h\<lparr>dicts := (dicts h)(?d := (dicts h ?d)(name := None))\<rparr>"
      using False by (simp add: attribute_node_empty [OF r2])
    have nodes_b: "\<And>b. nodes ?h b = nodes h b" by (simp add: h')
    have nb: "\<And>b. node_attributes ?h b = node_attributes h b
                \<or> node_attributes ?h b = (node_attributes h b)(name := None)"
      by (simp add: h' node_attributes_def)
    have na: "node_attributes ?h a = (node_attributes h a)(name := None)"
      by (simp add: h' node_attributes_def)
    have keep: "\<And>b. node_attributes h b = (node_attributes h0 b)(name := None)
                \<Longrightarrow> node_attributes ?h b = (node_attributes h0 b)(name := None)"
      using nb by (metis fun_upd_upd)
    have c1: "wf_heap ?h" using wf by (simp add: wf_heap_def h')
    have c2: "next_addr h0 \<le> next_addr ?h" using le by (simp add: h')
    have c3: "stacks ?h = stacks h0" "funcs ?h = funcs h0" using st fu by (simp_all add: h')
    have c4: "\<forall>b. node_attributes ?h b = node_attributes h0 b
             \<or> node_attributes ?h b = (node_attributes h0 b)(name := None)"
      using nb i3 del by metis
    have c5: "\<forall>b. b \<in> insert a P \<longrightarrow> node_attributes ?h b = (node_attributes h0 b)(name := None)
             \<and> \<not> attributes_shared (nodes ?h b)
             \<and> (attributes_shared (nodes h0 b) \<longrightarrow> next_addr h0 \<le> attributes (nodes ?h b))"
    proof (intro allI impI)
      fix b assume b: "b \<in> insert a P"
      show "node_attributes ?h b = (node_attributes h0 b)(name := None)
             \<and> \<not> attributes_shared (nodes ?h b)
             \<and> (attributes_shared (nodes h0 b) \<longrightarrow> next_addr h0 \<le> attributes (nodes ?h b))"
      proof (cases "b \<in> P")
        case True
        then show ?thesis using i4 [of b] keep [of b] nodes_b by simp
      next
        case np: False
        then have ba: "b = a" using b by simp
        have "nodes h a = nodes h0 a" using i5 np ba by simp
        then show ?thesis using ba na del [of a] False nodes_b by simp
      qed
    qed
    have c6: "\<forall>b. b \<notin> insert a P \<longrightarrow> nodes ?h b = nodes h0 b"
      using i5 nodes_b by simp
    have c7: "\<forall>b. nodes ?h b = (nodes h0 b)\<lparr>attributes := attributes (nodes ?h b),
                                        attributes_shared := attributes_shared (nodes ?h b)\<rparr>"
      using i6 nodes_b by simp
    have c8: "\<forall>b. \<not> attributes_shared (nodes h0 b) \<longrightarrow> nodes ?h b = nodes h0 b"
      using i7 nodes_b by simp
    have c9: "\<forall>d. d < next_addr h0 \<longrightarrow>
            dicts ?h d = (if \<exists>b. b \<in> insert a P \<and> \<not> attributes_shared (nodes h0 b)
                               \<and> attributes (nodes h0 b) = d
                          then (dicts h0 d)(name := None) else dicts h0 d)"
    proof (intro allI impI)
      fix d assume d: "d < next_addr h0"
      let ?C = "\<lambda>Q. \<exists>b. b \<in> Q \<and> \<not> attributes_shared (nodes h0 b) \<and> attributes (nodes h0 b) = d"
      have old: "dicts h d = (if ?C P then (dicts h0 d)(name := None) else dicts h0 d)"
        by (rule i8 [OF d])
      show "dicts ?h d = (if ?C (insert a P) then (dicts h0 d)(name := None) else dicts h0 d)"
      proof (cases "attributes_shared (nodes h0 a)")
        case sh: True
        have "a \<in> P"
        proof (rule ccontr)
          assume "a \<notin> P"
          then have "nodes h a = nodes h0 a" by (rule i5)
          then show False using sh False by simp
        qed
        then have le_d: "next_addr h0 \<le> ?d" and eq: "insert a P = P"
          using i4 [of a] sh by auto
        have "d \<noteq> ?d" using d le_d by simp
        then have "dicts ?h d = dicts h d" by (simp add: h')
        then show ?thesis using old eq by simp
      next
        case ns: False
        have na0: "nodes h a = nodes h0 a" using i7 [OF ns] .
        show ?thesis
        proof (cases "d = ?d")
          case True
          have cond: "?C (insert a P)" using ns na0 True by auto
          have "dicts ?h d = (dicts h d)(name := None)" using True by (simp add: h')
          also have "\<dots> = (dicts h0 d)(name := None)" using old by (simp split: if_splits)
          finally show ?thesis using cond by simp
        next
          case nd: False
          have "dicts ?h d = dicts h d" using nd by (simp add: h')
          moreover have "?C (insert a P) \<longleftrightarrow> ?C P" using nd na0 by auto
          ultimately show ?thesis using old by simp
        qed
      qed
    qed
    show ?thesis
      unfolding attr_inv_def
      using c1 c2 c3 c4 c5 c6 c7 c8 c9 by (intro conjI) assumption+
  qed
qed

lemma attribute_step_simps:
  "attribute_step name r2 h (ONode a) = attribute_node name r2 h a"
  "attribute_step name r2 h (OFloat r) = h"
  "attribute_step name r2 h (OStr str) = h"
  "attribute_step name r2 h (OFunction f) = h"
  "attribute_step name r2 h (OHost f) = h"
  "attribute_step name r2 h (OProgram p) = h"
  by (simp_all add: attribute_step_def)

lemma attr_inv_fold:
  "attr_inv name h0 P h \<Longrightarrow> vlength r2 = 0 \<Longrightarrow>
   attr_inv name h0 (P \<union> {a. ONode a \<in> set os}) (foldl (attribute_step name r2) h os)"
proof (induction os arbitrary: P h)
  case Nil
  then show ?case by simp
next
  case (Cons x os)
  show ?case
  proof (cases x)
    case (ONode a)
    have "attr_inv name h0 (insert a P) (attribute_node name r2 h a)"
      using Cons.prems by (rule attr_inv_step)
    from Cons.IH [OF this Cons.prems(2)]
    have "attr_inv name h0 (insert a P \<union> {a. ONode a \<in> set os})
            (foldl (attribute_step name r2) (attribute_node name r2 h a) os)" .
    moreover have "insert a P \<union> {a. ONode a \<in> set os} = P \<union> {b. ONode b \<in> set (x # os)}"
      using ONode by auto
    ultimately show ?thesis using ONode by (simp add: attribute_step_simps)
  next
    case (OFloat r)
    then have "{b. ONode b \<in> set (x # os)} = {b. ONode b \<in> set os}" by auto
    then show ?thesis using Cons.IH [OF Cons.prems] OFloat by (simp add: attribute_step_simps)
  next
    case (OStr r)
    then have "{b. ONode b \<in> set (x # os)} = {b. ONode b \<in> set os}" by auto
    then show ?thesis using Cons.IH [OF Cons.prems] OStr by (simp add: attribute_step_simps)
  next
    case (OFunction r)
    then have "{b. ONode b \<in> set (x # os)} = {b. ONode b \<in> set os}" by auto
    then show ?thesis using Cons.IH [OF Cons.prems] OFunction by (simp add: attribute_step_simps)
  next
    case (OHost r)
    then have "{b. ONode b \<in> set (x # os)} = {b. ONode b \<in> set os}" by auto
    then show ?thesis using Cons.IH [OF Cons.prems] OHost by (simp add: attribute_step_simps)
  next
    case (OProgram r)
    then have "{b. ONode b \<in> set (x # os)} = {b. ONode b \<in> set os}" by auto
    then show ?thesis using Cons.IH [OF Cons.prems] OProgram by (simp add: attribute_step_simps)
  qed
qed

text \<open>
  Claim C10.  Let the value stack end with the vector \<open>r1\<close> and, on top of it, an empty value
  \<open>r2\<close>.  \<open>Attribute name\<close> pops \<open>r2\<close>, leaves \<open>r1\<close> on the stack and records no error (the
  context is unchanged).  For every node that is an element of \<open>r1\<close>, the attribute mapping
  afterwards is the one before with \<open>name\<close> removed, nothing is stored under \<open>name\<close>, the node
  no longer shares its dictionary, and a node that did share it now points at a dictionary
  allocated by this instruction.  Every other node is left as it was, and no field of a node
  other than the dictionary pointer and the sharing flag changes.  A dictionary that existed
  before loses \<open>name\<close> exactly when a node of \<open>r1\<close> that was not marked as sharing points at it,
  and is unchanged otherwise: the dictionary of a node marked as sharing is cloned, not
  written.  So every node outside \<open>r1\<close> keeps all its attributes, \<open>name\<close> included, unless it
  points at the dictionary of a node of \<open>r1\<close> that was not marked as sharing.  When \<open>r1\<close> is a
  numeric vector nothing but the value stack changes.
\<close>

theorem Attribute_empty_value:
  "get_stack s stack = rest @ [r1, r2] \<and> vlength r2 = 0 \<and> wf_heap (store s) \<longrightarrow>
    (\<exists>s'. exec_Attribute name stack s = Inr s'
       \<and> get_stack s' stack = rest @ [r1]
       \<and> ctx s' = ctx s
       \<and> (is_numeric r1 \<longrightarrow> s' = set_stack s stack (rest @ [r1]))
       \<and> (\<forall>a. ONode a \<in> set (boxed r1) \<longrightarrow>
             node_attributes (store s') a = (node_attributes (store s) a)(name := None)
             \<and> node_attributes (store s') a name = None
             \<and> \<not> attributes_shared (nodes (store s') a)
             \<and> (attributes_shared (nodes (store s) a) \<longrightarrow>
                   next_addr (store s) \<le> attributes (nodes (store s') a)))
       \<and> (\<forall>a. ONode a \<notin> set (boxed r1) \<longrightarrow> nodes (store s') a = nodes (store s) a)
       \<and> (\<forall>a. nodes (store s') a
               = (nodes (store s) a)\<lparr>attributes := attributes (nodes (store s') a),
                    attributes_shared := attributes_shared (nodes (store s') a)\<rparr>)
       \<and> (\<forall>d. d < next_addr (store s) \<longrightarrow>
              dicts (store s') d
                = (if \<exists>a. ONode a \<in> set (boxed r1) \<and> \<not> attributes_shared (nodes (store s) a)
                         \<and> attributes (nodes (store s) a) = d
                   then (dicts (store s) d)(name := None) else dicts (store s) d))
       \<and> (\<forall>b. ONode b \<notin> set (boxed r1)
              \<and> (\<forall>a. ONode a \<in> set (boxed r1) \<and> \<not> attributes_shared (nodes (store s) a)
                     \<longrightarrow> attributes (nodes (store s) a) \<noteq> attributes (nodes (store s) b))
              \<longrightarrow> node_attributes (store s') b = node_attributes (store s) b))"
proof (intro impI, elim conjE)
  assume stk: "get_stack s stack = rest @ [r1, r2]" and r2: "vlength r2 = 0"
    and wf: "wf_heap (store s)"
  let ?s1 = "set_stack s stack (rest @ [r1])"
  have pop: "pop (get_stack s stack) = Inr (r2, rest @ [r1])"
    using stk by (simp add: pop_def butlast_append)
  have peek: "peek (get_stack ?s1 stack) = Inr r1"
    by (simp add: peek_def)
  have wf1: "wf_heap (store ?s1)"
    using wf by (simp add: wf_heap_def set_stack_def)
  have same_attr: "\<And>a. node_attributes (store ?s1) a = node_attributes (store s) a"
    by (simp add: node_attributes_def set_stack_def)
  have same_nodes: "nodes (store ?s1) = nodes (store s)" "dicts (store ?s1) = dicts (store s)"
    "next_addr (store ?s1) = next_addr (store s)"
    by (simp_all add: set_stack_def)
  let ?C = "\<lambda>d. \<exists>a. ONode a \<in> set (boxed r1) \<and> \<not> attributes_shared (nodes (store s) a)
                         \<and> attributes (nodes (store s) a) = d"
  have main: "\<exists>s'. exec_Attribute name stack s = Inr s'
       \<and> get_stack s' stack = rest @ [r1]
       \<and> ctx s' = ctx s
       \<and> (is_numeric r1 \<longrightarrow> s' = set_stack s stack (rest @ [r1]))
       \<and> (\<forall>a. ONode a \<in> set (boxed r1) \<longrightarrow>
             node_attributes (store s') a = (node_attributes (store s) a)(name := None)
             \<and> node_attributes (store s') a name = None
             \<and> \<not> attributes_shared (nodes (store s') a)
             \<and> (attributes_shared (nodes (store s) a) \<longrightarrow>
                   next_addr (store s) \<le> attributes (nodes (store s') a)))
       \<and> (\<forall>a. ONode a \<notin> set (boxed r1) \<longrightarrow> nodes (store s') a = nodes (store s) a)
       \<and> (\<forall>a. nodes (store s') a
               = (nodes (store s) a)\<lparr>attributes := attributes (nodes (store s') a),
                    attributes_shared := attributes_shared (nodes (store s') a)\<rparr>)
       \<and> (\<forall>d. d < next_addr (store s) \<longrightarrow>
              dicts (store s') d
                = (if ?C d then (dicts (store s) d)(name := None) else dicts (store s) d))"
  proof (cases r1)
    case (Numeric ns)
    have ex: "exec_Attribute name stack s = Inr ?s1"
      using pop peek Numeric by (simp add: exec_Attribute_def Let_def)
    have no: "ONode a \<notin> set (boxed r1)" for a using Numeric by auto
    have g: "get_stack ?s1 stack = rest @ [r1]" by simp
    have c: "ctx ?s1 = ctx s" by (simp add: set_stack_def)
    have d: "\<forall>d. d < next_addr (store s) \<longrightarrow>
              dicts (store ?s1) d
                = (if ?C d then (dicts (store s) d)(name := None) else dicts (store s) d)"
      using no same_nodes by simp
    have n: "\<forall>a. nodes (store ?s1) a
               = (nodes (store s) a)\<lparr>attributes := attributes (nodes (store ?s1) a),
                    attributes_shared := attributes_shared (nodes (store ?s1) a)\<rparr>"
      using same_nodes by simp
    have m: "\<forall>a. ONode a \<notin> set (boxed r1) \<longrightarrow> nodes (store ?s1) a = nodes (store s) a"
      using same_nodes by simp
    from ex g c no d n m show ?thesis by blast
  next
    case (Objects os)
    let ?h = "foldl (attribute_step name r2) (store ?s1) os"
    let ?s' = "?s1\<lparr>store := ?h\<rparr>"
    have ex: "exec_Attribute name stack s = Inr ?s'"
      using pop peek Objects by (simp add: exec_Attribute_def Let_def)
    have "attr_inv name (store ?s1) ({} \<union> {a. ONode a \<in> set os}) ?h"
      by (rule attr_inv_fold [OF attr_inv_init [OF wf1] r2])
    then have inv: "attr_inv name (store ?s1) {a. ONode a \<in> set os} ?h" by simp
    have b: "boxed r1 = os" using Objects by simp
    have st: "store ?s' = ?h" by simp
    have g: "get_stack ?s' stack = rest @ [r1]"
      using inv by (simp add: attr_inv_def get_stack_def set_stack_def)
    have c: "ctx ?s' = ctx s" by (simp add: set_stack_def)
    have n: "is_numeric r1 \<longrightarrow> ?s' = set_stack s stack (rest @ [r1])" using Objects by simp
    have f4: "\<forall>a. ONode a \<in> set (boxed r1) \<longrightarrow>
             node_attributes (store ?s') a = (node_attributes (store s) a)(name := None)
             \<and> node_attributes (store ?s') a name = None
             \<and> \<not> attributes_shared (nodes (store ?s') a)
             \<and> (attributes_shared (nodes (store s) a) \<longrightarrow>
                   next_addr (store s) \<le> attributes (nodes (store ?s') a))"
      using inv unfolding attr_inv_def b st same_attr same_nodes by simp
    have f5: "\<forall>a. ONode a \<notin> set (boxed r1) \<longrightarrow> nodes (store ?s') a = nodes (store s) a"
      using inv unfolding attr_inv_def b st same_attr same_nodes by simp
    have f6: "\<forall>a. nodes (store ?s') a
               = (nodes (store s) a)\<lparr>attributes := attributes (nodes (store ?s') a),
                    attributes_shared := attributes_shared (nodes (store ?s') a)\<rparr>"
      using inv unfolding attr_inv_def b st same_attr same_nodes by simp
    have f8: "\<forall>d. d < next_addr (store s) \<longrightarrow>
              dicts (store ?s') d
                = (if ?C d then (dicts (store s) d)(name := None) else dicts (store s) d)"
      using inv unfolding attr_inv_def b st same_attr same_nodes by simp
    from ex g c n f4 f5 f6 f8 show ?thesis by blast
  qed
  then obtain s' where s': "exec_Attribute name stack s = Inr s'"
    and r1: "get_stack s' stack = rest @ [r1]"
    and r2': "ctx s' = ctx s"
    and r3: "is_numeric r1 \<longrightarrow> s' = set_stack s stack (rest @ [r1])"
    and r4: "\<forall>a. ONode a \<in> set (boxed r1) \<longrightarrow>
             node_attributes (store s') a = (node_attributes (store s) a)(name := None)
             \<and> node_attributes (store s') a name = None
             \<and> \<not> attributes_shared (nodes (store s') a)
             \<and> (attributes_shared (nodes (store s) a) \<longrightarrow>
                   next_addr (store s) \<le> attributes (nodes (store s') a))"
    and r5: "\<forall>a. ONode a \<notin> set (boxed r1) \<longrightarrow> nodes (store s') a = nodes (store s) a"
    and r6: "\<forall>a. nodes (store s') a
               = (nodes (store s) a)\<lparr>attributes := attributes (nodes (store s') a),
                    attributes_shared := attributes_shared (nodes (store s') a)\<rparr>"
    and r7: "\<forall>d. d < next_addr (store s) \<longrightarrow>
              dicts (store s') d
                = (if ?C d then (dicts (store s) d)(name := None) else dicts (store s) d)"
    by blast
  have r8: "\<forall>b. ONode b \<notin> set (boxed r1)
              \<and> (\<forall>a. ONode a \<in> set (boxed r1) \<and> \<not> attributes_shared (nodes (store s) a)
                     \<longrightarrow> attributes (nodes (store s) a) \<noteq> attributes (nodes (store s) b))
              \<longrightarrow> node_attributes (store s') b = node_attributes (store s) b"
  proof (intro allI impI, elim conjE)
    fix b
    assume nb: "ONode b \<notin> set (boxed r1)"
      and other: "\<forall>a. ONode a \<in> set (boxed r1) \<and> \<not> attributes_shared (nodes (store s) a)
                     \<longrightarrow> attributes (nodes (store s) a) \<noteq> attributes (nodes (store s) b)"
    let ?d = "attributes (nodes (store s) b)"
    have same: "nodes (store s') b = nodes (store s) b" using r5 nb by simp
    have lt: "?d < next_addr (store s)" using wf by (simp add: wf_heap_def)
    have nc: "\<not> ?C ?d" using other by blast
    have "dicts (store s') ?d
        = (if ?C ?d then (dicts (store s) ?d)(name := None) else dicts (store s) ?d)"
      using r7 lt by blast
    then have "dicts (store s') ?d = dicts (store s) ?d"
      unfolding if_not_P [OF nc] .
    then show "node_attributes (store s') b = node_attributes (store s) b"
      using same by (simp add: node_attributes_def)
  qed
  from s' r1 r2' r3 r4 r5 r6 r7 r8
  show "\<exists>s'. exec_Attribute name stack s = Inr s'
       \<and> get_stack s' stack = rest @ [r1]
       \<and> ctx s' = ctx s
       \<and> (is_numeric r1 \<longrightarrow> s' = set_stack s stack (rest @ [r1]))
       \<and> (\<forall>a. ONode a \<in> set (boxed r1) \<longrightarrow>
             node_attributes (store s') a = (node_attributes (store s) a)(name := None)
             \<and> node_attributes (store s') a name = None
             \<and> \<not> attributes_shared (nodes (store s') a)
             \<and> (attributes_shared (nodes (store s) a) \<longrightarrow>
                   next_addr (store s) \<le> attributes (nodes (store s') a)))
       \<and> (\<forall>a. ONode a \<notin> set (boxed r1) \<longrightarrow> nodes (store s') a = nodes (store s) a)
       \<and> (\<forall>a. nodes (store s') a
               = (nodes (store s) a)\<lparr>attributes := attributes (nodes (store s') a),
                    attributes_shared := attributes_shared (nodes (store s') a)\<rparr>)
       \<and> (\<forall>d. d < next_addr (store s) \<longrightarrow>
              dicts (store s') d
                = (if ?C d then (dicts (store s) d)(name := None) else dicts (store s) d))
       \<and> (\<forall>b. ONode b \<notin> set (boxed r1)
              \<and> (\<forall>a. ONode a \<in> set (boxed r1) \<and> \<not> attributes_shared (nodes (store s) a)
                     \<longrightarrow> attributes (nodes (store s) a) \<noteq> attributes (nodes (store s) b))
              \<longrightarrow> node_attributes (store s') b = node_attributes (store s) b)"
    by blast
qed

theorem Attribute_empty_value_witness:
  "get_stack shared_nodes_vm 0 = [] @ [Objects [ONode 1, OStr ''s''], null_vector]
   \<and> vlength null_vector = 0
   \<and> wf_heap (store shared_nodes_vm)
   \<and> (\<exists>s'. exec_Attribute ''x'' 0 shared_nodes_vm = Inr s'
         \<and> get_stack s' 0 = [Objects [ONode 1, OStr ''s'']]
         \<and> node_attributes (store s') 1 ''x'' = None
         \<and> node_attributes (store s') 1 ''y'' = Some (Numeric [2])
         \<and> nodes (store s') 2 = nodes (store shared_nodes_vm) 2
         \<and> node_attributes (store s') 2 ''x'' = Some (Numeric [1])
         \<and> node_attributes (store s') 2 ''y'' = Some (Numeric [2])
         \<and> dicts (store s') 5 = [''x'' \<mapsto> Numeric [1], ''y'' \<mapsto> Numeric [2]]
         \<and> attributes (nodes (store s') 1) \<noteq> 5
         \<and> errors (ctx s') = {})"
proof -
  have a: "get_stack shared_nodes_vm 0 = [] @ [Objects [ONode 1, OStr ''s''], null_vector]"
    by (simp add: shared_nodes_vm_def shared_nodes_heap_def get_stack_def)
  have b: "vlength null_vector = 0" by (simp add: null_vector_def)
  have c: "wf_heap (store shared_nodes_vm)"
    by (simp add: wf_heap_def shared_nodes_vm_def shared_nodes_heap_def empty_heap_def)
  have y: "node_attributes (store shared_nodes_vm) 1 ''y'' = Some (Numeric [2])"
    by (simp add: node_attributes_def shared_nodes_vm_def shared_nodes_heap_def)
  have n2: "node_attributes (store shared_nodes_vm) 2 = [''x'' \<mapsto> Numeric [1], ''y'' \<mapsto> Numeric [2]]"
    by (simp add: node_attributes_def shared_nodes_vm_def shared_nodes_heap_def)
  have d5: "dicts (store shared_nodes_vm) 5 = [''x'' \<mapsto> Numeric [1], ''y'' \<mapsto> Numeric [2]]"
    by (simp add: shared_nodes_vm_def shared_nodes_heap_def)
  have sh: "attributes_shared (nodes (store shared_nodes_vm) 1)"
    "next_addr (store shared_nodes_vm) = 10"
    by (simp_all add: shared_nodes_vm_def shared_nodes_heap_def)
  have e: "errors (ctx shared_nodes_vm) = {}"
    by (simp add: shared_nodes_vm_def initial_vm_def empty_context_def)
  from Attribute_empty_value [of shared_nodes_vm 0 "[]" "Objects [ONode 1, OStr ''s'']"
      null_vector "''x''"] a b c
  obtain s' where s': "exec_Attribute ''x'' 0 shared_nodes_vm = Inr s'"
      "get_stack s' 0 = [] @ [Objects [ONode 1, OStr ''s'']]"
      "ctx s' = ctx shared_nodes_vm"
      "\<forall>a. ONode a \<in> set (boxed (Objects [ONode 1, OStr ''s''])) \<longrightarrow>
             node_attributes (store s') a = (node_attributes (store shared_nodes_vm) a)(''x'' := None)
             \<and> node_attributes (store s') a ''x'' = None
             \<and> \<not> attributes_shared (nodes (store s') a)
             \<and> (attributes_shared (nodes (store shared_nodes_vm) a) \<longrightarrow>
                   next_addr (store shared_nodes_vm) \<le> attributes (nodes (store s') a))"
      "\<forall>a. ONode a \<notin> set (boxed (Objects [ONode 1, OStr ''s''])) \<longrightarrow>
             nodes (store s') a = nodes (store shared_nodes_vm) a"
      "\<forall>d. d < next_addr (store shared_nodes_vm) \<longrightarrow>
              dicts (store s') d
                = (if \<exists>a. ONode a \<in> set (boxed (Objects [ONode 1, OStr ''s'']))
                         \<and> \<not> attributes_shared (nodes (store shared_nodes_vm) a)
                         \<and> attributes (nodes (store shared_nodes_vm) a) = d
                   then (dicts (store shared_nodes_vm) d)(''x'' := None)
                   else dicts (store shared_nodes_vm) d)"
      "\<forall>b. ONode b \<notin> set (boxed (Objects [ONode 1, OStr ''s'']))
              \<and> (\<forall>a. ONode a \<in> set (boxed (Objects [ONode 1, OStr ''s'']))
                       \<and> \<not> attributes_shared (nodes (store shared_nodes_vm) a)
                     \<longrightarrow> attributes (nodes (store shared_nodes_vm) a)
                           \<noteq> attributes (nodes (store shared_nodes_vm) b))
              \<longrightarrow> node_attributes (store s') b = node_attributes (store shared_nodes_vm) b"
    by blast
  from s'(4) have "node_attributes (store s') 1 = (node_attributes (store shared_nodes_vm) 1)(''x'' := None)"
    and le: "next_addr (store shared_nodes_vm) \<le> attributes (nodes (store s') 1)"
    using sh by simp_all
  then have y': "node_attributes (store s') 1 ''y'' = Some (Numeric [2])"
    and x': "node_attributes (store s') 1 ''x'' = None" using y by simp_all
  have a1: "attributes (nodes (store s') 1) \<noteq> 5" using le sh by simp
  from s'(5) have k2: "nodes (store s') 2 = nodes (store shared_nodes_vm) 2" by simp
  from s'(7) sh have "node_attributes (store s') 2 = node_attributes (store shared_nodes_vm) 2"
    by simp
  then have x2: "node_attributes (store s') 2 ''x'' = Some (Numeric [1])"
    and y2: "node_attributes (store s') 2 ''y'' = Some (Numeric [2])"
    using n2 by simp_all
  from s'(6) sh have d5': "dicts (store s') 5 = dicts (store shared_nodes_vm) 5" by simp
  show ?thesis using a b c s'(1,2,3) x' y' k2 x2 y2 d5 d5' a1 e by auto
qed

section \<open>Function calls\<close>

lemma stacks_set_heap_stack [simp]:
  "stacks (set_heap_stack st a xs) b = (if b = a then xs else stacks st b)"
  by (simp add: set_heap_stack_def)

lemma on_ok_simps [simp]: "on_ok (Inl e) f = Inl e" "on_ok (Inr x) f = f x"
  by (simp_all add: on_ok_def)

lemma execute_loop_abort:
  "0 \<le> pc s \<Longrightarrow> pc s < int (length instrs) \<Longrightarrow>
   step exec h stack lvars (instrs ! nat (pc s)) (s\<lparr>pc := pc s + 1\<rparr>) = Inl e \<Longrightarrow>
   execute_loop (Suc fuel) exec h instrs stack lvars s = Inl e"
  by simp

text \<open>
  Claim C2.  When \<open>call_helper\<close> returns from a call of the \<open>Function\<close> at address \<open>fa\<close>, the
  caller's value stack is exactly one entry taller than before the call, and the function's
  locals stack has the height it had before the parameters were pushed.  If the body returns
  with any other value-stack height, or with a locals stack that is not at its height after
  the parameters were pushed, the call is the exception \<open>AssertionError\<close> and not a state with
  a recorded error; an exception of the body is the exception of the call; and an exception of
  an instruction ends the dispatch loop with that exception.
\<close>

theorem function_call_stack_discipline:
  "(call_helper exec h stack (OFunction fa) args kwargs (c, st) = Inr (c', st') \<longrightarrow>
      length (stacks st' stack) = length (stacks st stack) + 1
      \<and> length (stacks st' (flvars (funcs st fa))) = length (stacks st (flvars (funcs st fa))))
   \<and> (exec (fprogram (funcs st fa)) stack (flvars (funcs st fa))
         (c\<lparr>context_path := root_path (funcs st fa)\<rparr>,
          set_heap_stack st (flvars (funcs st fa))
            (stacks st (flvars (funcs st fa))
               @ map (call_argument (funcs st fa) args kwargs) [0..<length (parameters (funcs st fa))]))
        = Inr (c2, st2)
       \<and> (length (stacks st2 stack)
             \<noteq> length (stacks (set_heap_stack st (flvars (funcs st fa))
                  (stacks st (flvars (funcs st fa))
                     @ map (call_argument (funcs st fa) args kwargs)
                         [0..<length (parameters (funcs st fa))])) stack) + 1
           \<or> length (stacks st2 (flvars (funcs st fa)))
             \<noteq> length (stacks st (flvars (funcs st fa))) + length (parameters (funcs st fa)))
       \<longrightarrow> (\<exists>msg. call_helper exec h stack (OFunction fa) args kwargs (c, st)
                    = Inl (AssertionError msg)))
   \<and> (exec (fprogram (funcs st fa)) stack (flvars (funcs st fa))
         (c\<lparr>context_path := root_path (funcs st fa)\<rparr>,
          set_heap_stack st (flvars (funcs st fa))
            (stacks st (flvars (funcs st fa))
               @ map (call_argument (funcs st fa) args kwargs) [0..<length (parameters (funcs st fa))]))
        = Inl e
       \<longrightarrow> call_helper exec h stack (OFunction fa) args kwargs (c, st) = Inl e)
   \<and> (0 \<le> pc s \<and> pc s < int (length instrs)
       \<and> step exec h stack lvars (instrs ! nat (pc s)) (s\<lparr>pc := pc s + 1\<rparr>) = Inl e
       \<longrightarrow> execute_loop (Suc fuel) exec h instrs stack lvars s = Inl e)"
proof -
  let ?func = "funcs st fa"
  let ?lv = "flvars ?func"
  let ?m = "length (parameters ?func)"
  let ?st1 = "set_heap_stack st ?lv (stacks st ?lv @ map (call_argument ?func args kwargs) [0..<?m])"
  let ?r = "exec (fprogram ?func) stack ?lv (c\<lparr>context_path := root_path ?func\<rparr>, ?st1)"
  have unfold: "call_helper exec h stack (OFunction fa) args kwargs (c, st) =
    (case ?r of
       Inl e \<Rightarrow> Inl e
     | Inr (c2, st2) \<Rightarrow>
         if length (stacks st2 stack) \<noteq> length (stacks ?st1 stack) + 1
         then Inl (AssertionError ''Bad function return stack'')
         else if length (stacks st2 ?lv) \<noteq> length (stacks ?st1 ?lv)
         then Inl (AssertionError ''Bad function return lvars'')
         else Inr (c2\<lparr>context_path := context_path c\<rparr>,
                   set_heap_stack st2 ?lv (drop_stack (stacks st2 ?lv) (int ?m))))"
    by (simp add: call_helper_def Let_def)
  have len1: "length (stacks ?st1 ?lv) = length (stacks st ?lv) + ?m" by simp
  have a: "call_helper exec h stack (OFunction fa) args kwargs (c, st) = Inr (c', st') \<longrightarrow>
      length (stacks st' stack) = length (stacks st stack) + 1
      \<and> length (stacks st' ?lv) = length (stacks st ?lv)"
  proof
    assume ok: "call_helper exec h stack (OFunction fa) args kwargs (c, st) = Inr (c', st')"
    then obtain c2 st2 where r: "?r = Inr (c2, st2)"
      unfolding unfold by (cases ?r) auto
    from ok r have h1: "length (stacks st2 stack) = length (stacks ?st1 stack) + 1"
      and h2: "length (stacks st2 ?lv) = length (stacks ?st1 ?lv)"
      unfolding unfold by (auto split: if_splits)
    have ne: "stack \<noteq> ?lv" using h1 h2 by auto
    from ok r h1 h2 have st': "st' = set_heap_stack st2 ?lv (take (length (stacks st2 ?lv) - ?m) (stacks st2 ?lv))"
      unfolding unfold by (auto simp: drop_stack_def split: if_splits)
    show "length (stacks st' stack) = length (stacks st stack) + 1
      \<and> length (stacks st' ?lv) = length (stacks st ?lv)"
      using ne h1 h2 st' by simp
  qed
  have b: "?r = Inr (c2, st2)
       \<and> (length (stacks st2 stack) \<noteq> length (stacks ?st1 stack) + 1
           \<or> length (stacks st2 ?lv) \<noteq> length (stacks st ?lv) + ?m)
       \<longrightarrow> (\<exists>msg. call_helper exec h stack (OFunction fa) args kwargs (c, st)
                    = Inl (AssertionError msg))"
    unfolding unfold by auto
  have d: "?r = Inl e \<longrightarrow> call_helper exec h stack (OFunction fa) args kwargs (c, st) = Inl e"
    unfolding unfold by simp
  have f: "0 \<le> pc s \<and> pc s < int (length instrs)
       \<and> step exec h stack lvars (instrs ! nat (pc s)) (s\<lparr>pc := pc s + 1\<rparr>) = Inl e
       \<longrightarrow> execute_loop (Suc fuel) exec h instrs stack lvars s = Inl e"
    by simp
  from a b d f show ?thesis by blast
qed


lemma example_host_simps:
  "copynodes example_host v st = (v, st)"
  "item example_host v i = null_vector"
  "as_string example_host (Objects [OStr str]) = str"
  "debug_func example_host = OHost 0"
  "STATIC_FUNCTIONS example_host = Map.empty"
  "NOISE_FUNCTIONS example_host = Map.empty"
  "DYNAMIC_FUNCTIONS example_host = Map.empty"
  by (simp_all add: example_host_def)

theorem function_call_stack_discipline_witness:
  "(\<exists>c' st'. call_helper (execute (Suc (Suc 0)) example_host) example_host 0 (OFunction 3)
        [Numeric [7]] None (empty_context, function_heap (Program [Op_LocalLoad 0] True None))
        = Inr (c', st')
      \<and> stacks st' 0 = [Numeric [7]] \<and> stacks st' 4 = [] \<and> errors c' = {}
      \<and> length (stacks st' 0)
          = length (stacks (function_heap (Program [Op_LocalLoad 0] True None)) 0) + 1
      \<and> length (stacks st' (flvars (funcs (function_heap (Program [Op_LocalLoad 0] True None)) 3)))
          = length (stacks (function_heap (Program [Op_LocalLoad 0] True None))
              (flvars (funcs (function_heap (Program [Op_LocalLoad 0] True None)) 3))))
   \<and> call_helper (execute (Suc (Suc 0)) example_host) example_host 0 (OFunction 3)
        [Numeric [7]] None (empty_context, function_heap (Program [] True None))
        = Inl (AssertionError ''Bad function return stack'')"
proof -
  let ?g = "function_heap (Program [Op_LocalLoad 0] True None)"
  let ?call = "call_helper (execute (Suc (Suc 0)) example_host) example_host 0 (OFunction 3)
        [Numeric [7]] None (empty_context, ?g)"
  have ev: "?call = Inr (empty_context,
      set_heap_stack (set_heap_stack (set_heap_stack ?g 4 [Numeric [7]]) 0 [Numeric [7]]) 4 [])"
    by (simp add: call_helper_def Let_def function_heap_def empty_heap_def call_argument_def
        execute_body_def step_def peek_at_def example_host_simps vm_push_def push_def
        get_stack_def set_stack_def set_heap_stack_def drop_stack_def empty_context_def)
  have bad: "call_helper (execute (Suc (Suc 0)) example_host) example_host 0 (OFunction 3)
        [Numeric [7]] None (empty_context, function_heap (Program [] True None))
        = Inl (AssertionError ''Bad function return stack'')"
    by (simp add: call_helper_def Let_def function_heap_def empty_heap_def call_argument_def
        execute_body_def set_heap_stack_def empty_context_def)
  have e: "errors empty_context = {}" by (simp add: empty_context_def)
  show ?thesis
    using function_call_stack_discipline [of "execute (Suc (Suc 0)) example_host" example_host 0 3
        "[Numeric [7]]" None empty_context ?g empty_context
        "set_heap_stack (set_heap_stack (set_heap_stack ?g 4 [Numeric [7]]) 0 [Numeric [7]]) 4 []"]
      ev bad e
    by (simp add: function_heap_def)
qed

section \<open>Circular imports\<close>

lemma import_module_circular:
  "read_flitter_program h filename (context_path c) = Some prog \<Longrightarrow>
   path prog \<in> set (context_path c # parents c) \<Longrightarrow>
   import_module exec h filename (c, st)
     = Inr (None, c\<lparr>errors := insert (''Circular import of '' @ filename) (errors c)\<rparr>, st)"
  by (simp add: import_module_def Let_def)

lemma mutual_host_simps:
  "copynodes mutual_host v st = (v, st)"
  "as_string mutual_host (Objects [OStr str]) = str"
  "read_flitter_program mutual_host filename r =
     (if filename = ''a.fl'' then Some module_A
      else if filename = ''b.fl'' then Some module_B else None)"
  by (simp_all add: mutual_host_def example_host_def)

lemma mutual_import_run:
  "\<exists>st. run (Suc (Suc (Suc (Suc (Suc (Suc (Suc 0))))))) mutual_host module_A Map.empty Map.empty 0 empty_heap
    = Inr (\<lparr>state = Map.empty, variables = [''y'' \<mapsto> null_vector], graph = 0,
            pragmas = Map.empty,
            errors = {''Unable to import from '' @ quoted ''a.fl'', ''Circular import of a.fl''},
            logs = {}, context_path = Some ''a.fl'', parents = []\<rparr>, st)"
  by (simp add: run_def Let_def execute_body_def module_A_def module_B_def step_def
      exec_Import_def import_module_def mutual_host_simps vm_push_def vm_pop_def pop_def push_def
      peek_at_def exec_LocalDrop_def drop_stack_def import_name_def add_error_def
      get_stack_def set_stack_def empty_heap_def quoted_def)

lemma matches_circular_simps:
  "matches_circular (''Circular import of '' @ filename)"
  "\<not> matches_circular (''Unable to import from '' @ str)"
  "\<not> matches_circular (''Unable to import '' @ str)"
  by (simp_all add: matches_circular_def)

text \<open>
  Claim C5.  Let the loader return a program for the imported file, and let the path of that
  program be the path of the importing context or of one of its ancestors.  Then
  \<open>import_module\<close> runs nothing: it records \<open>Circular import of <filename>\<close> and answers
  \<open>None\<close>.  The \<open>Import\<close> instruction pops the file name, records a second message
  (\<open>Unable to import from '<filename>'\<close>, which does not match \<open>Circular import\<close>), and binds
  every requested name to \<open>null_\<close>: it pushes one \<open>null_\<close> local per name.  Its variables and
  pragmas are untouched.  In the run of module \<open>a.fl\<close>, where \<open>a.fl\<close> and \<open>b.fl\<close> import \<open>y\<close> from
  each other, the run returns, exactly one recorded error matches \<open>Circular import\<close>, and the
  imported name \<open>y\<close> is bound to \<open>null_\<close>.
\<close>

theorem circular_import:
  "(read_flitter_program h filename (context_path c) = Some prog
      \<and> path prog \<in> set (context_path c # parents c) \<longrightarrow>
      import_module exec h filename (c, st)
        = Inr (None, c\<lparr>errors := insert (''Circular import of '' @ filename) (errors c)\<rparr>, st))
   \<and> (get_stack s stack = rest @ [fv] \<and> stack \<noteq> lvars
       \<and> read_flitter_program h (as_string h fv) (context_path (ctx s)) = Some prog
       \<and> path prog \<in> set (context_path (ctx s) # parents (ctx s)) \<longrightarrow>
       (\<exists>s'. exec_Import exec h names stack lvars s = Inr s'
          \<and> get_stack s' stack = rest
          \<and> get_stack s' lvars = get_stack s lvars @ replicate (length names) null_vector
          \<and> errors (ctx s')
              = insert (''Unable to import from '' @ quoted (as_string h fv))
                  (insert (''Circular import of '' @ as_string h fv) (errors (ctx s)))
          \<and> matches_circular (''Circular import of '' @ as_string h fv)
          \<and> \<not> matches_circular (''Unable to import from '' @ quoted (as_string h fv))
          \<and> variables (ctx s') = variables (ctx s)
          \<and> pragmas (ctx s') = pragmas (ctx s)))
   \<and> (\<exists>c1 st1.
         run (Suc (Suc (Suc (Suc (Suc (Suc (Suc 0))))))) mutual_host module_A Map.empty Map.empty 0 empty_heap
           = Inr (c1, st1)
         \<and> {e. e \<in> errors c1 \<and> matches_circular e} = {''Circular import of a.fl''}
         \<and> errors c1 = {''Unable to import from '' @ quoted ''a.fl'', ''Circular import of a.fl''}
         \<and> variables c1 ''y'' = Some null_vector)"
proof -
  have a: "read_flitter_program h filename (context_path c) = Some prog
      \<and> path prog \<in> set (context_path c # parents c) \<longrightarrow>
      import_module exec h filename (c, st)
        = Inr (None, c\<lparr>errors := insert (''Circular import of '' @ filename) (errors c)\<rparr>, st)"
    using import_module_circular by blast
  have b: "get_stack s stack = rest @ [fv] \<and> stack \<noteq> lvars
       \<and> read_flitter_program h (as_string h fv) (context_path (ctx s)) = Some prog
       \<and> path prog \<in> set (context_path (ctx s) # parents (ctx s)) \<longrightarrow>
       (\<exists>s'. exec_Import exec h names stack lvars s = Inr s'
          \<and> get_stack s' stack = rest
          \<and> get_stack s' lvars = get_stack s lvars @ replicate (length names) null_vector
          \<and> errors (ctx s')
              = insert (''Unable to import from '' @ quoted (as_string h fv))
                  (insert (''Circular import of '' @ as_string h fv) (errors (ctx s)))
          \<and> matches_circular (''Circular import of '' @ as_string h fv)
          \<and> \<not> matches_circular (''Unable to import from '' @ quoted (as_string h fv))
          \<and> variables (ctx s') = variables (ctx s)
          \<and> pragmas (ctx s') = pragmas (ctx s))"
  proof (intro impI, elim conjE)
    assume stk: "get_stack s stack = rest @ [fv]" and ne: "stack \<noteq> lvars"
      and ld: "read_flitter_program h (as_string h fv) (context_path (ctx s)) = Some prog"
      and cyc: "path prog \<in> set (context_path (ctx s) # parents (ctx s))"
    let ?s1 = "set_stack s stack rest"
    have c1: "ctx ?s1 = ctx s" by (simp add: set_stack_def)
    have im: "import_module exec h (as_string h fv) (ctx ?s1, store ?s1)
        = Inr (None, (ctx s)\<lparr>errors := insert (''Circular import of '' @ as_string h fv)
                                        (errors (ctx s))\<rparr>, store ?s1)"
      using import_module_circular [of h "as_string h fv" "ctx s" prog exec "store ?s1"] ld cyc
      by (simp add: c1)
    have core: "\<exists>s'. exec_Import exec h names stack lvars s = Inr s'
          \<and> get_stack s' stack = rest
          \<and> get_stack s' lvars = get_stack s lvars @ replicate (length names) null_vector
          \<and> errors (ctx s')
              = insert (''Unable to import from '' @ quoted (as_string h fv))
                  (insert (''Circular import of '' @ as_string h fv) (errors (ctx s)))
          \<and> variables (ctx s') = variables (ctx s)
          \<and> pragmas (ctx s') = pragmas (ctx s)"
      using stk ne im
      by (simp add: exec_Import_def pop_def Let_def butlast_append
          add_error_def get_stack_def set_stack_def)
    have m1: "matches_circular (''Circular import of '' @ as_string h fv)"
      by (rule matches_circular_simps)
    have m2: "\<not> matches_circular (''Unable to import from '' @ quoted (as_string h fv))"
      by (rule matches_circular_simps)
    from core m1 m2
    show "\<exists>s'. exec_Import exec h names stack lvars s = Inr s'
          \<and> get_stack s' stack = rest
          \<and> get_stack s' lvars = get_stack s lvars @ replicate (length names) null_vector
          \<and> errors (ctx s')
              = insert (''Unable to import from '' @ quoted (as_string h fv))
                  (insert (''Circular import of '' @ as_string h fv) (errors (ctx s)))
          \<and> matches_circular (''Circular import of '' @ as_string h fv)
          \<and> \<not> matches_circular (''Unable to import from '' @ quoted (as_string h fv))
          \<and> variables (ctx s') = variables (ctx s)
          \<and> pragmas (ctx s') = pragmas (ctx s)"
      by blast
  qed
  from mutual_import_run obtain st1 where
    r: "run (Suc (Suc (Suc (Suc (Suc (Suc (Suc 0))))))) mutual_host module_A Map.empty Map.empty 0 empty_heap
    = Inr (\<lparr>state = Map.empty, variables = [''y'' \<mapsto> null_vector], graph = 0,
            pragmas = Map.empty,
            errors = {''Unable to import from '' @ quoted ''a.fl'', ''Circular import of a.fl''},
            logs = {}, context_path = Some ''a.fl'', parents = []\<rparr>, st1)" by blast
  have m: "{e. e \<in> {''Unable to import from '' @ quoted ''a.fl'', ''Circular import of a.fl''}
              \<and> matches_circular e} = {''Circular import of a.fl''}"
    using matches_circular_simps(1) [of "''a.fl''"] matches_circular_simps(2) [of "quoted ''a.fl''"]
    by auto
  have d: "\<exists>c1 st1.
         run (Suc (Suc (Suc (Suc (Suc (Suc (Suc 0))))))) mutual_host module_A Map.empty Map.empty 0 empty_heap
           = Inr (c1, st1)
         \<and> {e. e \<in> errors c1 \<and> matches_circular e} = {''Circular import of a.fl''}
         \<and> errors c1 = {''Unable to import from '' @ quoted ''a.fl'', ''Circular import of a.fl''}
         \<and> variables c1 ''y'' = Some null_vector"
    using r m by simp
  from a b d show ?thesis by blast
qed

theorem circular_import_witness:
  "get_stack (set_stack (initial_vm\<lparr>ctx := empty_context\<lparr>context_path := Some ''a.fl''\<rparr>\<rparr>) 0
       [Objects [OStr ''a.fl'']]) 0 = [] @ [Objects [OStr ''a.fl'']]
   \<and> (0::nat) \<noteq> 1
   \<and> read_flitter_program mutual_host (as_string mutual_host (Objects [OStr ''a.fl'']))
        (Some ''a.fl'') = Some module_A
   \<and> path module_A \<in> set [Some ''a.fl'']
   \<and> (\<exists>s'. exec_Import (execute 0 mutual_host) mutual_host [''p'', ''q''] 0 1
          (set_stack (initial_vm\<lparr>ctx := empty_context\<lparr>context_path := Some ''a.fl''\<rparr>\<rparr>) 0
             [Objects [OStr ''a.fl'']]) = Inr s'
        \<and> get_stack s' 1 = [null_vector, null_vector]
        \<and> errors (ctx s') = {''Unable to import from '' @ quoted ''a.fl'', ''Circular import of a.fl''})"
proof -
  let ?s = "set_stack (initial_vm\<lparr>ctx := empty_context\<lparr>context_path := Some ''a.fl''\<rparr>\<rparr>) 0
       [Objects [OStr ''a.fl'']]"
  have a: "get_stack ?s 0 = [] @ [Objects [OStr ''a.fl'']]" by simp
  have b: "read_flitter_program mutual_host (as_string mutual_host (Objects [OStr ''a.fl'']))
        (context_path (ctx ?s)) = Some module_A"
    by (simp add: mutual_host_simps)
  have b': "read_flitter_program mutual_host (as_string mutual_host (Objects [OStr ''a.fl'']))
        (Some ''a.fl'') = Some module_A"
    by (simp add: mutual_host_simps)
  have c: "path module_A \<in> set (context_path (ctx ?s) # parents (ctx ?s))"
    by (simp add: module_A_def set_stack_def initial_vm_def empty_context_def)
  have c': "path module_A \<in> set [Some ''a.fl'']" by (simp add: module_A_def)
  have l: "get_stack ?s 1 = []"
    by (simp add: initial_vm_def empty_heap_def get_stack_def set_stack_def)
  have e: "errors (ctx ?s) = {}"
    by (simp add: set_stack_def initial_vm_def empty_context_def)
  from circular_import [of mutual_host "''a.fl''" empty_context module_A "execute 0 mutual_host"
      empty_heap ?s 0 "[]" "Objects [OStr ''a.fl'']" 1 "[''p'', ''q'']"] a b c
  obtain s' where s': "exec_Import (execute 0 mutual_host) mutual_host [''p'', ''q''] 0 1 ?s = Inr s'"
    "get_stack s' 1 = get_stack ?s 1 @ replicate (length [''p'', ''q'']) null_vector"
    "errors (ctx s') = insert (''Unable to import from '' @ quoted (as_string mutual_host (Objects [OStr ''a.fl''])))
                  (insert (''Circular import of '' @ as_string mutual_host (Objects [OStr ''a.fl''])) (errors (ctx ?s)))"
    by auto
  have "get_stack s' 1 = [null_vector, null_vector]" using s'(2) l by (simp add: numeral_2_eq_2)
  moreover have "errors (ctx s') = {''Unable to import from '' @ quoted ''a.fl'', ''Circular import of a.fl''}"
    using s'(3) e by (simp add: mutual_host_simps)
  ultimately show ?thesis using a b' c' s'(1) by auto
qed

section \<open>Compiling the root expression\<close>

lemma Top_children_shape:
  "Top_children cmp exempt es lvars = Inr (code, lvars1) \<Longrightarrow>
   code = concat (map (\<lambda>(e, c). c @ top_tail exempt e) (zip es (child_codes cmp es lvars)))
   \<and> length (child_codes cmp es lvars) = length es"
proof (induction es arbitrary: lvars code lvars1)
  case Nil
  then show ?case by simp
next
  case (Cons e es)
  from Cons.prems obtain c l1 where c: "cmp e lvars = Inr (c, l1)"
    by (cases "cmp e lvars") auto
  from Cons.prems c obtain rest l2 where r: "Top_children cmp exempt es l1 = Inr (rest, l2)"
    by (cases "Top_children cmp exempt es l1") auto
  from Cons.prems c r have code: "code = c @ top_tail exempt e @ rest" by simp
  from Cons.IH [OF r] show ?case using c code by simp
qed

lemma concat_map_split:
  "i < length zs \<Longrightarrow>
   concat (map f zs) = concat (map f (take i zs)) @ f (zs ! i) @ concat (map f (drop (Suc i) zs))"
proof (induction zs arbitrary: i)
  case Nil
  then show ?case by simp
next
  case (Cons z zs)
  then show ?case by (cases i) simp_all
qed

lemma store_globals_pairs:
  assumes i: "i < length l"
  shows "\<exists>pre post. store_globals l
            = pre @ [Op_LocalLoad (int i), Op_StoreGlobal (rev l ! i)] @ post"
proof -
  let ?f = "\<lambda>(i, name). [Op_LocalLoad (int i), Op_StoreGlobal name]"
  let ?z = "zip [0..<length l] (rev l)"
  have len: "i < length ?z" using i by simp
  have nth: "?f (?z ! i) = [Op_LocalLoad (int i), Op_StoreGlobal (rev l ! i)]"
    using i by simp
  have "store_globals l
      = concat (map ?f (take i ?z)) @ [Op_LocalLoad (int i), Op_StoreGlobal (rev l ! i)]
        @ (concat (map ?f (drop (Suc i) ?z))
           @ (if l \<noteq> [] then [Op_LocalDrop (int (length l))] else []))"
    unfolding store_globals_def concat_map_split [OF len, of ?f] nth by simp
  then show ?thesis by blast
qed

lemma exempt_tests:
  "is_Let_Import_Function e \<Longrightarrow> is_Let_Import_Function_Pragma e"
  "is_Let_Import_Function_Pragma e \<longleftrightarrow> is_Let_Import_Function e \<or> (\<exists>name body. e = Pragma name body)"
  by (cases e; simp)+

text \<open>
  Claim C7, as the code has it.  Let \<open>exempt\<close> be the second \<open>isinstance\<close> test of
  \<open>Top._compile\<close>, in either revision of the tree: it is true of every \<open>Let\<close>, \<open>Import\<close> and
  \<open>Function\<close>, and false of every child that is not a \<open>Let\<close>, \<open>Import\<close>, \<open>Function\<close> or
  \<open>Pragma\<close>; whether it is true of a \<open>Pragma\<close> is left open, the revisions differ there.  When
  the root compiles, its program is the children's codes in order, each followed by what the
  loop emits for that child, and then the global stores: for every local name left at top
  level a \<open>LocalLoad\<close> of its depth followed by a \<open>StoreGlobal\<close> of its name, and a final
  \<open>LocalDrop\<close> of all of them when there is at least one.  After a child, the root emits
  \<open>Drop 1\<close> and no \<open>AppendRoot\<close> when the child is a node modifier whose ultimate node is a
  search; otherwise it emits \<open>AppendRoot\<close> when the child is not a \<open>Let\<close>, \<open>Import\<close>, \<open>Function\<close>
  or \<open>Pragma\<close>, and nothing when the child is a \<open>Let\<close>, \<open>Import\<close> or \<open>Function\<close>.  Both tests of
  the sources are such an \<open>exempt\<close>.
\<close>

theorem Top_compile_root:
  "((\<forall>e. is_Let_Import_Function e \<longrightarrow> exempt e)
      \<and> (\<forall>e. exempt e \<longrightarrow> is_Let_Import_Function_Pragma e) \<longrightarrow>
      (Top_compile cmp exempt es lvars = Inr prog \<longrightarrow>
         (\<exists>lvars1.
            Top_children cmp exempt es lvars
              = Inr (concat (map (\<lambda>(e, c). c @ top_tail exempt e)
                               (zip es (child_codes cmp es lvars))), lvars1)
            \<and> length (child_codes cmp es lvars) = length es
            \<and> prog = concat (map (\<lambda>(e, c). c @ top_tail exempt e)
                                 (zip es (child_codes cmp es lvars)))
                       @ store_globals lvars1
            \<and> (\<forall>i. i < length lvars1 \<longrightarrow>
                  (\<exists>pre post. store_globals lvars1
                      = pre @ [Op_LocalLoad (int i), Op_StoreGlobal (rev lvars1 ! i)] @ post))
            \<and> (lvars1 \<noteq> [] \<longrightarrow> last prog = Op_LocalDrop (int (length lvars1)))))
      \<and> (is_NodeModifier e \<and> is_Search (ultimate_node e) \<longrightarrow> top_tail exempt e = [Op_Drop 1])
      \<and> (\<not> (is_NodeModifier e \<and> is_Search (ultimate_node e))
            \<and> \<not> is_Let_Import_Function_Pragma e \<longrightarrow> top_tail exempt e = [Op_AppendRoot])
      \<and> (\<not> (is_NodeModifier e \<and> is_Search (ultimate_node e)) \<and> is_Let_Import_Function e
            \<longrightarrow> top_tail exempt e = []))
   \<and> (\<forall>e. is_Let_Import_Function e \<longrightarrow> is_Let_Import_Function_Pragma e)
   \<and> (is_Let_Import_Function e \<longleftrightarrow>
         (\<exists>bs. e = Let_expr bs) \<or> (\<exists>bs. e = StoreGlobal bs)
         \<or> (\<exists>names f. e = Import names f) \<or> (\<exists>name ps body. e = Function_expr name ps body))
   \<and> (is_Let_Import_Function_Pragma e \<longleftrightarrow>
         is_Let_Import_Function e \<or> (\<exists>name body. e = Pragma name body))"
proof -
  have a: "Top_compile cmp exempt es lvars = Inr prog \<longrightarrow>
     (\<exists>lvars1.
        Top_children cmp exempt es lvars
          = Inr (concat (map (\<lambda>(e, c). c @ top_tail exempt e)
                           (zip es (child_codes cmp es lvars))), lvars1)
        \<and> length (child_codes cmp es lvars) = length es
        \<and> prog = concat (map (\<lambda>(e, c). c @ top_tail exempt e)
                             (zip es (child_codes cmp es lvars)))
                   @ store_globals lvars1
        \<and> (\<forall>i. i < length lvars1 \<longrightarrow>
              (\<exists>pre post. store_globals lvars1
                  = pre @ [Op_LocalLoad (int i), Op_StoreGlobal (rev lvars1 ! i)] @ post))
        \<and> (lvars1 \<noteq> [] \<longrightarrow> last prog = Op_LocalDrop (int (length lvars1))))"
  proof
    assume ok: "Top_compile cmp exempt es lvars = Inr prog"
    then obtain code lvars1 where ch: "Top_children cmp exempt es lvars = Inr (code, lvars1)"
      and prog: "prog = code @ store_globals lvars1"
      unfolding Top_compile_def by (cases "Top_children cmp exempt es lvars") auto
    from Top_children_shape [OF ch]
    have code: "code = concat (map (\<lambda>(e, c). c @ top_tail exempt e)
                                (zip es (child_codes cmp es lvars)))"
      and len: "length (child_codes cmp es lvars) = length es" by simp_all
    have last: "lvars1 \<noteq> [] \<longrightarrow> last prog = Op_LocalDrop (int (length lvars1))"
      by (simp add: prog store_globals_def)
    show "\<exists>lvars1.
        Top_children cmp exempt es lvars
          = Inr (concat (map (\<lambda>(e, c). c @ top_tail exempt e)
                           (zip es (child_codes cmp es lvars))), lvars1)
        \<and> length (child_codes cmp es lvars) = length es
        \<and> prog = concat (map (\<lambda>(e, c). c @ top_tail exempt e)
                             (zip es (child_codes cmp es lvars)))
                   @ store_globals lvars1
        \<and> (\<forall>i. i < length lvars1 \<longrightarrow>
              (\<exists>pre post. store_globals lvars1
                  = pre @ [Op_LocalLoad (int i), Op_StoreGlobal (rev lvars1 ! i)] @ post))
        \<and> (lvars1 \<noteq> [] \<longrightarrow> last prog = Op_LocalDrop (int (length lvars1)))"
      using ch code len prog last store_globals_pairs by blast
  qed
  have b: "is_NodeModifier e \<and> is_Search (ultimate_node e) \<longrightarrow> top_tail exempt e = [Op_Drop 1]"
    by (simp add: top_tail_def)
  have c: "(\<forall>e. exempt e \<longrightarrow> is_Let_Import_Function_Pragma e) \<longrightarrow>
        \<not> (is_NodeModifier e \<and> is_Search (ultimate_node e))
        \<and> \<not> is_Let_Import_Function_Pragma e \<longrightarrow> top_tail exempt e = [Op_AppendRoot]"
    by (auto simp add: top_tail_def)
  have d: "(\<forall>e. is_Let_Import_Function e \<longrightarrow> exempt e) \<longrightarrow>
        \<not> (is_NodeModifier e \<and> is_Search (ultimate_node e)) \<and> is_Let_Import_Function e
        \<longrightarrow> top_tail exempt e = []"
    by (auto simp add: top_tail_def)
  have f: "\<forall>e. is_Let_Import_Function e \<longrightarrow> is_Let_Import_Function_Pragma e"
    by (simp add: exempt_tests)
  have g: "is_Let_Import_Function e \<longleftrightarrow>
         (\<exists>bs. e = Let_expr bs) \<or> (\<exists>bs. e = StoreGlobal bs)
         \<or> (\<exists>names f. e = Import names f) \<or> (\<exists>name ps body. e = Function_expr name ps body)"
    by (cases e) simp_all
  have h: "is_Let_Import_Function_Pragma e \<longleftrightarrow>
         is_Let_Import_Function e \<or> (\<exists>name body. e = Pragma name body)"
    by (rule exempt_tests)
  from a b c d f g h show ?thesis by blast
qed

lemma compile_root_example:
  "(\<forall>e. is_Let_Import_Function e \<longrightarrow> exempt e) \<Longrightarrow>
   (\<forall>e. exempt e \<longrightarrow> is_Let_Import_Function_Pragma e) \<Longrightarrow>
   Top_compile (compile_expr no_compiler) exempt
     [Let_expr [([''x''], Literal_expr (Numeric [5]))], Tag (Search example_query) ''t'',
      Name ''x''] []
   = Inr [Op_Literal (Numeric [5]), Op_LocalPush 1,
          Op_Search example_query, Op_Tag ''t'', Op_Drop 1,
          Op_LocalLoad 0, Op_AppendRoot,
          Op_LocalLoad 0, Op_StoreGlobal ''x'', Op_LocalDrop 1]"
proof -
  assume lo: "\<forall>e. is_Let_Import_Function e \<longrightarrow> exempt e"
    and up: "\<forall>e. exempt e \<longrightarrow> is_Let_Import_Function_Pragma e"
  have l: "exempt (Let_expr [([''x''], Literal_expr (Numeric [5]))])" using lo by simp
  have n: "\<not> exempt (Name ''x'')" using up by auto
  show ?thesis
    using l n
    by (simp add: Top_compile_def program_literal_def compile_Name_def top_tail_def
        store_globals_def)
qed

theorem Top_compile_root_witness:
  "Top_compile (compile_expr no_compiler) is_Let_Import_Function
     [Let_expr [([''x''], Literal_expr (Numeric [5]))], Tag (Search example_query) ''t'',
      Name ''x''] []
   = Inr [Op_Literal (Numeric [5]), Op_LocalPush 1,
          Op_Search example_query, Op_Tag ''t'', Op_Drop 1,
          Op_LocalLoad 0, Op_AppendRoot,
          Op_LocalLoad 0, Op_StoreGlobal ''x'', Op_LocalDrop 1]
   \<and> Top_compile (compile_expr no_compiler) is_Let_Import_Function_Pragma
     [Let_expr [([''x''], Literal_expr (Numeric [5]))], Tag (Search example_query) ''t'',
      Name ''x''] []
   = Inr [Op_Literal (Numeric [5]), Op_LocalPush 1,
          Op_Search example_query, Op_Tag ''t'', Op_Drop 1,
          Op_LocalLoad 0, Op_AppendRoot,
          Op_LocalLoad 0, Op_StoreGlobal ''x'', Op_LocalDrop 1]
   \<and> is_NodeModifier (Tag (Search example_query) ''t'')
   \<and> is_Search (ultimate_node (Tag (Search example_query) ''t''))
   \<and> top_tail is_Let_Import_Function (Tag (Search example_query) ''t'') = [Op_Drop 1]
   \<and> top_tail is_Let_Import_Function_Pragma (Tag (Search example_query) ''t'') = [Op_Drop 1]
   \<and> \<not> is_Let_Import_Function_Pragma (Name ''x'')
   \<and> top_tail is_Let_Import_Function (Name ''x'') = [Op_AppendRoot]
   \<and> top_tail is_Let_Import_Function_Pragma (Name ''x'') = [Op_AppendRoot]
   \<and> is_Let_Import_Function (Let_expr [([''x''], Literal_expr (Numeric [5]))])
   \<and> top_tail is_Let_Import_Function (Let_expr [([''x''], Literal_expr (Numeric [5]))]) = []
   \<and> top_tail is_Let_Import_Function_Pragma (Let_expr [([''x''], Literal_expr (Numeric [5]))]) = []
   \<and> (\<exists>lvars1. Top_children (compile_expr no_compiler) is_Let_Import_Function_Pragma
         [Let_expr [([''x''], Literal_expr (Numeric [5]))], Tag (Search example_query) ''t'',
          Name ''x''] []
          = Inr ([Op_Literal (Numeric [5]), Op_LocalPush 1,
                  Op_Search example_query, Op_Tag ''t'', Op_Drop 1,
                  Op_LocalLoad 0, Op_AppendRoot], lvars1))"
proof -
  let ?es = "[Let_expr [([''x''], Literal_expr (Numeric [5]))], Tag (Search example_query) ''t'',
      Name ''x'']"
  have lo1: "\<forall>e. is_Let_Import_Function e \<longrightarrow> is_Let_Import_Function e" by simp
  have up1: "\<forall>e. is_Let_Import_Function e \<longrightarrow> is_Let_Import_Function_Pragma e"
    by (simp add: exempt_tests)
  have up2: "\<forall>e. is_Let_Import_Function_Pragma e \<longrightarrow> is_Let_Import_Function_Pragma e"
    by simp
  have ch: "Top_children (compile_expr no_compiler) is_Let_Import_Function_Pragma ?es []
      = Inr ([Op_Literal (Numeric [5]), Op_LocalPush 1,
          Op_Search example_query, Op_Tag ''t'', Op_Drop 1,
          Op_LocalLoad 0, Op_AppendRoot], [''x''])"
    by (simp add: program_literal_def compile_Name_def top_tail_def)
  show ?thesis
    using compile_root_example [OF lo1 up1] compile_root_example [OF up1 up2] ch lo1 up1 up2
      Top_compile_root [of is_Let_Import_Function "compile_expr no_compiler" ?es "[]" _
        "Tag (Search example_query) ''t''"]
      Top_compile_root [of is_Let_Import_Function_Pragma "compile_expr no_compiler" ?es "[]" _
        "Tag (Search example_query) ''t''"]
      Top_compile_root [of is_Let_Import_Function "compile_expr no_compiler" ?es "[]" _
        "Name ''x''"]
      Top_compile_root [of is_Let_Import_Function_Pragma "compile_expr no_compiler" ?es "[]" _
        "Name ''x''"]
      Top_compile_root [of is_Let_Import_Function "compile_expr no_compiler" ?es "[]" _
        "Let_expr [([''x''], Literal_expr (Numeric [5]))]"]
      Top_compile_root [of is_Let_Import_Function_Pragma "compile_expr no_compiler" ?es "[]" _
        "Let_expr [([''x''], Literal_expr (Numeric [5]))]"]
    by simp
qed

text \<open>
  The claim as written fails for a child that is a node modifier over a search.  It is not a
  \<open>Let\<close>, \<open>Import\<close>, \<open>Function\<close> or \<open>Pragma\<close>, and the root emits \<open>Drop 1\<close> after it, not
  \<open>AppendRoot\<close>: the program has no \<open>AppendRoot\<close> at all, with either test.
\<close>

theorem Top_compile_counterexample:
  "Top_compile (compile_expr no_compiler) is_Let_Import_Function
       [Tag (Search example_query) ''t''] []
     = Inr [Op_Search example_query, Op_Tag ''t'', Op_Drop 1]
   \<and> Top_compile (compile_expr no_compiler) is_Let_Import_Function_Pragma
       [Tag (Search example_query) ''t''] []
     = Inr [Op_Search example_query, Op_Tag ''t'', Op_Drop 1]"
  by (simp add: Top_compile_def top_tail_def store_globals_def)

section \<open>Partial evaluation is not idempotent\<close>

lemma map_of_dict_set: "map_of (dict_set k v d) = (map_of d)(k \<mapsto> v)"
  by (induction d) (auto simp add: fun_eq_iff)

lemma vector_bound_dict_set:
  "\<forall>k b. map_of d k = Some b \<longrightarrow> (\<exists>v. b = VectorValue v) \<Longrightarrow>
   \<forall>k b. map_of (dict_set key (VectorValue w) d) k = Some b \<longrightarrow> (\<exists>v. b = VectorValue v)"
  by (simp add: map_of_dict_set)

lemma vector_bound_foldl:
  "\<forall>k b. map_of d k = Some b \<longrightarrow> (\<exists>v. b = VectorValue v) \<Longrightarrow>
   \<forall>k b. map_of (foldl (\<lambda>d attr. if map_of d attr = None
                     then dict_set attr (VectorValue (f attr)) d else d) d ks) k = Some b
     \<longrightarrow> (\<exists>v. b = VectorValue v)"
proof (induction ks arbitrary: d)
  case Nil
  then show ?case by simp
next
  case (Cons attr ks)
  show ?case
  proof (cases "map_of d attr = None")
    case True
    have "\<forall>k b. map_of (dict_set attr (VectorValue (f attr)) d) k = Some b
            \<longrightarrow> (\<exists>v. b = VectorValue v)"
      using Cons.prems by (rule vector_bound_dict_set)
    from Cons.IH [OF this] True show ?thesis by simp
  next
    case False
    from Cons.IH [OF Cons.prems] False show ?thesis by auto
  qed
qed

lemma vector_bound_scope:
  "\<forall>k b. map_of (node_scope_variables t n st []) k = Some b \<longrightarrow> (\<exists>v. b = VectorValue v)"
  unfolding node_scope_variables_def
  by (rule vector_bound_foldl) simp

lemma Name_in_scope:
  assumes "\<forall>k b. map_of (e_variables c) k = Some b \<longrightarrow> (\<exists>v. b = VectorValue v)"
    and "unbound c = None"
    and "static_builtins h name = None" "dynamic_builtins h name = None"
  shows "\<exists>w st er. Name_evaluate ev h (Name name) name c
           = Inr (Literal_expr w, c\<lparr>e_store := st, e_errors := er\<rparr>)"
proof (cases "map_of (e_variables c) name")
  case None
  have eq: "c\<lparr>e_errors := insert (unbound_name_message name) (e_errors c)\<rparr>
      = c\<lparr>e_store := e_store c, e_errors := insert (unbound_name_message name) (e_errors c)\<rparr>"
    by simp
  have "Name_evaluate ev h (Name name) name c
      = Inr (Literal_expr null_vector,
             c\<lparr>e_errors := insert (unbound_name_message name) (e_errors c)\<rparr>)"
    using None assms by (simp add: Name_evaluate_def NoOp_def domIff)
  with eq show ?thesis by metis
next
  case (Some b)
  with assms(1) obtain v where b: "b = VectorValue v"
    by blast
  obtain v1 st1 where cp: "copynodes h v (e_store c) = (v1, st1)"
    by (cases "copynodes h v (e_store c)")
  have eq: "c\<lparr>e_store := st1\<rparr> = c\<lparr>e_store := st1, e_errors := e_errors c\<rparr>" by simp
  have "Name_evaluate ev h (Name name) name c = Inr (Literal_expr v1, c\<lparr>e_store := st1\<rparr>)"
    using Some b cp by (simp add: Name_evaluate_def)
  with eq show ?thesis by metis
qed


lemma evaluate_Attributes_unbound:
  assumes sb: "static_builtins h ''zz'' = None" and db: "dynamic_builtins h ''zz'' = None"
    and copy: "\<And>a st. \<exists>a1 st1. copynodes h (Objects [ONode a]) st = (Objects [ONode a1], st1)"
  shows "\<exists>n1 st1 er.
    evaluate (Suc (Suc fuel)) other h t
      (Attributes (Literal_expr (Objects [ONode n]))
         [(''b'', Name ''zz''), (''c'', LookupLiteral k)])
      \<lparr>e_state = None, e_variables = [], unbound = None, e_errors = {}, e_store = st\<rparr>
    = Inr (Attributes (Literal_expr (Objects [ONode n1])) [(''c'', LookupLiteral k)],
           \<lparr>e_state = None, e_variables = [], unbound = None, e_errors = er, e_store = st1\<rparr>)"
proof -
  obtain n1 s1 where cp: "copynodes h (Objects [ONode n]) st = (Objects [ONode n1], s1)"
    using copy by blast
  let ?c = "\<lparr>e_state = None, e_variables = node_scope_variables t n1 s1 [], unbound = None,
             e_errors = {}, e_store = s1\<rparr>"
  have "\<exists>w st er. Name_evaluate (evaluate fuel other h t) h (Name ''zz'') ''zz'' ?c
           = Inr (Literal_expr w, ?c\<lparr>e_store := st, e_errors := er\<rparr>)"
    by (rule Name_in_scope) (simp_all add: vector_bound_scope sb db)
  then obtain w s2 er where nm:
    "Name_evaluate (evaluate fuel other h t) h (Name ''zz'') ''zz'' ?c
       = Inr (Literal_expr w, \<lparr>e_state = None, e_variables = node_scope_variables t n1 s1 [],
                unbound = None, e_errors = er, e_store = s2\<rparr>)"
    by auto
  have nm0: "Name_evaluate (evaluate fuel other h t) h (Name ''zz'') ''zz''
      \<lparr>e_state = None, e_variables = [], unbound = Some {}, e_errors = {}, e_store = st\<rparr>
     = Inr (Name ''zz'', \<lparr>e_state = None, e_variables = [], unbound = Some {''zz''},
              e_errors = {}, e_store = st\<rparr>)"
    using sb db by (simp add: Name_evaluate_def domIff)
  show ?thesis
    using cp nm nm0
    by (simp add: Attributes_evaluate_def fold_bindings_def Literal_evaluate_def has_nodes_def
        objects_of_def is_Node_def isinstance_Node_def Lookup_literal_def)
qed


lemma evaluate_Attributes_closed:
  assumes copy: "\<And>a st. \<exists>a1 st1. copynodes h (Objects [ONode a]) st = (Objects [ONode a1], st1)"
  shows "\<exists>n2 st2.
    evaluate (Suc (Suc fuel)) other h t
      (Attributes (Literal_expr (Objects [ONode n])) [(''c'', LookupLiteral k)])
      \<lparr>e_state = None, e_variables = [], unbound = None, e_errors = {}, e_store = st\<rparr>
    = Inr (FastAttributes (Literal_expr (Objects [ONode n2])) [(''c'', LookupLiteral k)],
           \<lparr>e_state = None, e_variables = [], unbound = None, e_errors = {}, e_store = st2\<rparr>)"
proof -
  obtain n2 s2 where cp: "copynodes h (Objects [ONode n]) st = (Objects [ONode n2], s2)"
    using copy by blast
  show ?thesis
    using cp
    by (simp add: Attributes_evaluate_def fold_bindings_def Literal_evaluate_def has_nodes_def
        objects_of_def is_Node_def isinstance_Node_def Lookup_literal_def)
qed

text \<open>
  Claim C9 fails on the code.  Take the root with the single child
  \<open>!node b=zz c=$k\<close>: a literal node with the attribute \<open>b\<close> bound to a name that nothing
  binds and the attribute \<open>c\<close> bound to a state lookup, and simplify it with no state, no
  variables and no dynamic names.  \<open>Attributes.evaluate\<close> decides \<open>fast\<close> after its first round,
  in which \<open>zz\<close> is recorded as unbound; its second round then folds \<open>b\<close> away (an unbound name
  becomes the empty literal), so the first pass returns an \<open>Attributes\<close> whose bindings have no
  unbound name left.  The second pass finds no unbound name and returns a \<open>FastAttributes\<close>: a
  different tree.  This holds for every host in which \<open>zz\<close> is not a builtin, the copy of a
  one-node vector is a one-node vector, and a new \<open>Context\<close> has no \<open>unbound\<close> set.
\<close>

theorem simplify_not_idempotent:
  assumes "default_unbound t = None"
    and "static_builtins h ''zz'' = None" and "dynamic_builtins h ''zz'' = None"
    and "\<And>a st. \<exists>a1 st1. copynodes h (Objects [ONode a]) st = (Objects [ONode a1], st1)"
  shows "\<exists>n1 st1 n2 st2.
    simplify (Suc (Suc (Suc fuel))) other h t (unbound_attribute n) None None None st
      = Simplified (Top [Attributes (Literal_expr (Objects [ONode n1]))
                           [(''c'', LookupLiteral (Objects [OStr ''k'']))]]) st1
    \<and> simplify (Suc (Suc (Suc fuel))) other h t
          (Top [Attributes (Literal_expr (Objects [ONode n1]))
                  [(''c'', LookupLiteral (Objects [OStr ''k'']))]]) None None None st1
      = Simplified (Top [FastAttributes (Literal_expr (Objects [ONode n2]))
                           [(''c'', LookupLiteral (Objects [OStr ''k'']))]]) st2
    \<and> Top [FastAttributes (Literal_expr (Objects [ONode n2]))
              [(''c'', LookupLiteral (Objects [OStr ''k'']))]]
      \<noteq> Top [Attributes (Literal_expr (Objects [ONode n1]))
              [(''c'', LookupLiteral (Objects [OStr ''k'']))]]"
proof -
  let ?k = "Objects [OStr ''k'']"
  from evaluate_Attributes_unbound [OF assms(2) assms(3) assms(4), of fuel other t n ?k st]
  obtain n1 st1 er where p1:
    "evaluate (Suc (Suc fuel)) other h t
      (Attributes (Literal_expr (Objects [ONode n])) [(''b'', Name ''zz''), (''c'', LookupLiteral ?k)])
      \<lparr>e_state = None, e_variables = [], unbound = None, e_errors = {}, e_store = st\<rparr>
    = Inr (Attributes (Literal_expr (Objects [ONode n1])) [(''c'', LookupLiteral ?k)],
           \<lparr>e_state = None, e_variables = [], unbound = None, e_errors = er, e_store = st1\<rparr>)"
    by blast
  from evaluate_Attributes_closed [OF assms(4), of fuel other t n1 ?k st1]
  obtain n2 st2 where p2:
    "evaluate (Suc (Suc fuel)) other h t
      (Attributes (Literal_expr (Objects [ONode n1])) [(''c'', LookupLiteral ?k)])
      \<lparr>e_state = None, e_variables = [], unbound = None, e_errors = {}, e_store = st1\<rparr>
    = Inr (FastAttributes (Literal_expr (Objects [ONode n2])) [(''c'', LookupLiteral ?k)],
           \<lparr>e_state = None, e_variables = [], unbound = None, e_errors = {}, e_store = st2\<rparr>)"
    by blast
  have s1: "simplify (Suc (Suc (Suc fuel))) other h t (unbound_attribute n) None None None st
      = Simplified (Top [Attributes (Literal_expr (Objects [ONode n1]))
                           [(''c'', LookupLiteral ?k)]]) st1"
    unfolding simplify_def unbound_attribute_def evaluate.simps(2) [of "Suc (Suc fuel)"]
    using p1 assms(1) by (simp add: Top_evaluate_def global_bindings_def)
  have s2: "simplify (Suc (Suc (Suc fuel))) other h t
          (Top [Attributes (Literal_expr (Objects [ONode n1])) [(''c'', LookupLiteral ?k)]])
          None None None st1
      = Simplified (Top [FastAttributes (Literal_expr (Objects [ONode n2]))
                           [(''c'', LookupLiteral ?k)]]) st2"
    unfolding simplify_def evaluate.simps(2) [of "Suc (Suc fuel)"]
    using p2 assms(1) by (simp add: Top_evaluate_def global_bindings_def)
  from s1 s2 show ?thesis by blast
qed

theorem simplify_not_idempotent_witness:
  "simplify (Suc (Suc (Suc 0))) no_evaluator example_host example_tree_host (unbound_attribute 0)
     None None None empty_heap
     = Simplified (Top [Attributes (Literal_expr (Objects [ONode 0]))
                          [(''c'', LookupLiteral (Objects [OStr ''k'']))]]) empty_heap
   \<and> simplify (Suc (Suc (Suc 0))) no_evaluator example_host example_tree_host
         (Top [Attributes (Literal_expr (Objects [ONode 0]))
                 [(''c'', LookupLiteral (Objects [OStr ''k'']))]]) None None None empty_heap
     = Simplified (Top [FastAttributes (Literal_expr (Objects [ONode 0]))
                          [(''c'', LookupLiteral (Objects [OStr ''k'']))]]) empty_heap
   \<and> default_unbound example_tree_host = None
   \<and> static_builtins example_host ''zz'' = None
   \<and> dynamic_builtins example_host ''zz'' = None"
proof -
  have sb: "static_builtins example_host ''zz'' = None"
    by (simp add: static_builtins_def example_host_simps)
  have db: "dynamic_builtins example_host ''zz'' = None"
    by (simp add: dynamic_builtins_def example_host_simps)
  have s1: "simplify (Suc (Suc (Suc 0))) no_evaluator example_host example_tree_host
      (unbound_attribute 0) None None None empty_heap
     = Simplified (Top [Attributes (Literal_expr (Objects [ONode 0]))
                          [(''c'', LookupLiteral (Objects [OStr ''k'']))]]) empty_heap"
    using sb db
    by (simp add: simplify_def unbound_attribute_def Top_evaluate_def global_bindings_def
        Attributes_evaluate_def fold_bindings_def Literal_evaluate_def has_nodes_def
        objects_of_def is_Node_def isinstance_Node_def Lookup_literal_def Name_evaluate_def
        node_scope_variables_def NoOp_def domIff example_host_simps example_tree_host_def
        null_vector_def)
  have s2: "simplify (Suc (Suc (Suc 0))) no_evaluator example_host example_tree_host
         (Top [Attributes (Literal_expr (Objects [ONode 0]))
                 [(''c'', LookupLiteral (Objects [OStr ''k'']))]]) None None None empty_heap
     = Simplified (Top [FastAttributes (Literal_expr (Objects [ONode 0]))
                          [(''c'', LookupLiteral (Objects [OStr ''k'']))]]) empty_heap"
    by (simp add: simplify_def Top_evaluate_def global_bindings_def
        Attributes_evaluate_def fold_bindings_def Literal_evaluate_def has_nodes_def
        objects_of_def is_Node_def isinstance_Node_def Lookup_literal_def
        example_host_simps example_tree_host_def)
  show ?thesis
    using simplify_not_idempotent [of example_tree_host example_host 0 no_evaluator 0 empty_heap]
      s1 s2 sb db
    by (simp add: example_tree_host_def)
qed

section \<open>Partial evaluation changes the graph\<close>

lemma node_host_simps:
  "copynodes node_host = Vector_copynodes"
  "node_copy node_host = Node_copy"
  "node_append node_host = Node_append"
  "STATIC_FUNCTIONS node_host = Map.empty"
  "NOISE_FUNCTIONS node_host = Map.empty"
  "DYNAMIC_FUNCTIONS node_host = Map.empty"
  "debug_func node_host = OHost 0"
  by (simp_all add: node_host_def example_host_def)

lemma execute_loop_numeral:
  "execute_loop (numeral k) exec h instrs stack lvars s =
    (if 0 \<le> pc s \<and> pc s < int (length instrs)
     then on_ok (step exec h stack lvars (instrs ! nat (pc s)) (s\<lparr>pc := pc s + 1\<rparr>))
            (execute_loop (pred_numeral k) exec h instrs stack lvars)
     else if pc s = int (length instrs) then Inr s
     else Inl (AssertionError ''Jump outside of program''))"
  by (simp add: numeral_eq_Suc)

lemma execute_numeral:
  "execute (numeral k) h = execute_body (numeral k) (execute (pred_numeral k) h) h"
  by (simp add: numeral_eq_Suc)

lemmas compile_simps = compile_def Top_compile_def program_literal_def compile_Name_def
  top_tail_def store_globals_def optimize_def optimize_loop_def optimize_step_def
  is_Compose_def is_Append_def is_Literal_def link_def jump_label_def label_addresses_def
  vvalue_def ivalue_def

lemmas run_simps = run_def Let_def execute_body_def step_def execute_loop_numeral execute_numeral
  vm_push_def vm_pop_def vm_peek_def vm_poke_def pop_def push_def peek_def poke_def
  peek_at_def exec_LocalDrop_def exec_LocalPush_def drop_stack_def
  get_stack_def set_stack_def exec_SetNodeScope_def exec_Attribute_def attribute_step_def
  attribute_node_def exec_AppendRoot_def append_root_step_def state_lookup_def
  node_host_simps Vector_copynodes_def Node_copy_def Node_append_def null_vector_def

lemma alias_simplified:
  "simplify (Suc (Suc (Suc (Suc fuel)))) other node_host t
     (Top alias_program) None None None alias_heap
   = Simplified (Top simplified_program) (snd (Node_copy 0 alias_heap))"
  by (simp add: simplify_def alias_program_def simplified_program_def Top_evaluate_def
        global_bindings_def Attributes_evaluate_def fold_bindings_def Literal_evaluate_def
        has_nodes_def objects_of_def is_Node_def isinstance_Node_def Lookup_literal_def
        Name_evaluate_def NoOp_def domIff node_host_simps
        null_vector_def bind_names_def static_builtins_def dynamic_builtins_def
        Vector_copynodes_def Node_copy_def Let_def alias_heap_def empty_heap_def)

lemma alias_compiled:
  "compile no_compiler alias_program
   = Inr (Program
            [Op_LiteralNode 0, Op_SetNodeScope, Op_LookupLiteral (Objects [OStr ''k'']),
             Op_Attribute ''c'', Op_ClearNodeScope, Op_LocalPush 1,
             Op_LocalLoad 0, Op_LocalPush 1,
             Op_Literal (Numeric [5]), Op_LocalPush 1,
             Op_LocalLoad 1, Op_AppendRoot,
             Op_LocalLoad 0, Op_StoreGlobal ''y'', Op_LocalLoad 1, Op_StoreGlobal ''x'',
             Op_LocalLoad 2, Op_StoreGlobal ''y'', Op_LocalDrop 3] True None)"
  by (simp add: alias_program_def compile_simps)

lemma simplified_compiled:
  "compile no_compiler simplified_program
   = Inr (Program
            [Op_LiteralNode 2, Op_LookupLiteral (Objects [OStr ''k'']), Op_Attribute ''c'',
             Op_LocalPush 1,
             Op_Literal (Numeric [5]), Op_AppendRoot,
             Op_Literal (Numeric [5]), Op_StoreGlobal ''y'',
             Op_LocalLoad 0, Op_StoreGlobal ''y'', Op_LocalDrop 1] True None)"
  by (simp add: simplified_program_def compile_simps)

lemma alias_run:
  "\<exists>c s b. run 20 node_host
      (Program
            [Op_LiteralNode 0, Op_SetNodeScope, Op_LookupLiteral (Objects [OStr ''k'']),
             Op_Attribute ''c'', Op_ClearNodeScope, Op_LocalPush 1,
             Op_LocalLoad 0, Op_LocalPush 1,
             Op_Literal (Numeric [5]), Op_LocalPush 1,
             Op_LocalLoad 1, Op_AppendRoot,
             Op_LocalLoad 0, Op_StoreGlobal ''y'', Op_LocalLoad 1, Op_StoreGlobal ''x'',
             Op_LocalLoad 2, Op_StoreGlobal ''y'', Op_LocalDrop 3] True None)
      Map.empty Map.empty 1 (snd (Node_copy 0 alias_heap)) = Inr (c, s)
    \<and> first_child (nodes s (graph c)) = Some b \<and> kind (nodes s b) = ''node''
    \<and> next_sibling (nodes s b) = None \<and> first_child (nodes s b) = None"
  by (simp add: run_simps alias_heap_def empty_heap_def)

lemma simplified_run:
  "\<exists>c s. run 20 node_host
      (Program
            [Op_LiteralNode 2, Op_LookupLiteral (Objects [OStr ''k'']), Op_Attribute ''c'',
             Op_LocalPush 1,
             Op_Literal (Numeric [5]), Op_AppendRoot,
             Op_Literal (Numeric [5]), Op_StoreGlobal ''y'',
             Op_LocalLoad 0, Op_StoreGlobal ''y'', Op_LocalDrop 1] True None)
      Map.empty Map.empty 1 (snd (Node_copy 0 alias_heap)) = Inr (c, s)
    \<and> first_child (nodes s (graph c)) = None"
  by (simp add: run_simps alias_heap_def empty_heap_def)

text \<open>
  Claim C1 fails on the code.  Take the program
  \<^verbatim>\<open>let y = !node c=$k\<close>, \<^verbatim>\<open>let x = y\<close>, \<^verbatim>\<open>let y = 5\<close>, \<^verbatim>\<open>x\<close>
  and simplify it with no state, no variables and no dynamic names, whatever the methods of
  \<open>Node\<close> and of the classes outside the fragment do.  \<open>Let.evaluate\<close> records
  \<open>x\<close> as an alias of the name \<open>y\<close>, because \<open>y\<close> is not known when \<open>x\<close> is bound; the alias is
  not resolved when \<open>y\<close> is bound again, so the final \<open>x\<close> is evaluated as the new \<open>y\<close> and folds
  to the literal \<open>5\<close>.  Run with an empty state and no variables from the same store and with
  the same root, the compiled original program leaves one node of kind \<open>node\<close> under the root
  of the graph, and the compiled simplified program leaves the root without a child.
\<close>

theorem simplify_changes_graph:
  "simplify (Suc (Suc (Suc (Suc fuel)))) other node_host t
     (Top alias_program) None None None alias_heap
     = Simplified (Top simplified_program) (snd (Node_copy 0 alias_heap))
   \<and> (\<exists>p c s b. compile no_compiler alias_program = Inr p
          \<and> run 20 node_host p Map.empty Map.empty 1 (snd (Node_copy 0 alias_heap)) = Inr (c, s)
          \<and> first_child (nodes s (graph c)) = Some b \<and> kind (nodes s b) = ''node''
          \<and> next_sibling (nodes s b) = None \<and> first_child (nodes s b) = None)
   \<and> (\<exists>p c s. compile no_compiler simplified_program = Inr p
          \<and> run 20 node_host p Map.empty Map.empty 1 (snd (Node_copy 0 alias_heap)) = Inr (c, s)
          \<and> first_child (nodes s (graph c)) = None)"
  using alias_simplified alias_compiled simplified_compiled alias_run simplified_run
  by simp

end
